theory Spec2Isabelle
  imports Main
begin

section \<open>The IR object model consumed from the host toolchain\<close>

text \<open>
  Pointers of the C++ source become identifiers: a basic block, an instruction and an
  integration context (an \<open>IntegrationAttempt*\<close>) are natural numbers.  A
  \<open>const Loop*\<close> is the chain of its parent pointers: the empty list is the null
  pointer (no loop), and \<open>l # ls\<close> is the loop \<open>l\<close> whose
  \<open>getParentLoop()\<close> is \<open>ls\<close>.
\<close>

type_synonym BasicBlock = nat
type_synonym InstId = nat
type_synonym Ctx = nat
type_synonym Loop = "nat list"

text \<open>
  An \<open>APInt\<close>, the contents of an integer constant: the bit width and the bits,
  read as an unsigned number below \<open>2 ^ w\<close>.  \<open>APInt_get w v\<close> is the
  \<open>APInt\<close> of width \<open>w\<close> that holds the low \<open>w\<close> bits of \<open>v\<close>.
\<close>

typedef APInt = "{p :: nat \<times> int. 0 \<le> snd p \<and> snd p < 2 ^ fst p}"
  by (rule exI [of _ "(0, 0)"]) simp

definition getBitWidth :: "APInt \<Rightarrow> nat" where
  "getBitWidth a = fst (Rep_APInt a)"

definition getZExtValue :: "APInt \<Rightarrow> int" where
  "getZExtValue a = snd (Rep_APInt a)"

definition APInt_get :: "nat \<Rightarrow> int \<Rightarrow> APInt" where
  "APInt_get w v = Abs_APInt (w, v mod 2 ^ w)"

text \<open>
  An \<open>llvm::Value\<close>.  Constants are uniqued by LLVM, so pointer equality on
  constants is equality of their contents: an integer constant is its \<open>APInt\<close>, and
  \<open>ConstantInt w v\<close> is \<open>ConstantInt::get\<close> for the type of width \<open>w\<close> and the
  number \<open>v\<close>, so that two numbers with the same low \<open>w\<close> bits give the same
  constant.  Globals and functions are \<open>Constant\<close>s.
\<close>

datatype Value =
    ConstantIntVal APInt
  | Constant nat
  | Argument nat
  | Instruction InstId
  | BasicBlockValue BasicBlock

definition ConstantInt :: "nat \<Rightarrow> int \<Rightarrow> Value" where
  "ConstantInt w v = ConstantIntVal (APInt_get w v)"

text \<open>The opcodes of \<open>Instruction::getOpcode()\<close>; the arithmetic and the cast
  opcodes are grouped under one constructor each.\<close>

datatype Opcode =
    Ret | Br | Switch | IndirectBr | Invoke | Unwind | Unreachable
  | BinaryOp nat
  | Alloca | Load | Store | GetElementPtr
  | CastOp nat
  | ICmp | FCmp | PHI | Call | Select | UserOp1 | UserOp2 | VAArg
  | ExtractElement | InsertElement | ShuffleVector | ExtractValue | InsertValue

text \<open>\<open>CmpInst::Predicate\<close>; the floating-point predicates are grouped.\<close>

datatype Predicate =
    FCMP nat
  | ICMP_EQ | ICMP_NE | ICMP_UGT | ICMP_UGE | ICMP_ULT | ICMP_ULE
  | ICMP_SGT | ICMP_SGE | ICMP_SLT | ICMP_SLE

text \<open>
  A \<open>ValCtx\<close> is \<open>std::pair<Value*, IntegrationAttempt*>\<close>; either pointer may
  be null.  \<open>VCNull\<close> is the pair of two null pointers, \<open>const_vc\<close> pairs a
  constant with a null context and \<open>make_vc\<close> pairs a value with a context.
\<close>

type_synonym ValCtx = "Value option \<times> Ctx option"

definition VCNull :: ValCtx where
  "VCNull = (None, None)"

definition const_vc :: "Value \<Rightarrow> ValCtx" where
  "const_vc C = (Some C, None)"

definition make_vc :: "Value \<Rightarrow> Ctx \<Rightarrow> ValCtx" where
  "make_vc V ctx = (Some V, Some ctx)"

fun isaConstant :: "Value \<Rightarrow> bool" where
  "isaConstant (ConstantIntVal a) = True"
| "isaConstant (Constant n) = True"
| "isaConstant _ = False"

definition getTrue :: Value where
  "getTrue = ConstantInt 1 1"

definition getFalse :: Value where
  "getFalse = ConstantInt 1 0"

section \<open>Comparisons against symbolic file descriptors\<close>

text \<open>
  \<open>ConstantInt::getSExtValue()\<close> for a constant of at most 64 bits: the bits, read as
  a two's complement number of the constant's width.
\<close>

definition getSExtValue :: "nat \<Rightarrow> int \<Rightarrow> int" where
  "getSExtValue w v = (let u = v mod 2 ^ w in if 2 ^ w \<le> 2 * u then u - 2 ^ w else u)"

text \<open>
  \<open>IntegrationAttempt::tryFoldOpenCmp(CmpI, CmpInt, flip)\<close>
  (HypotheticalConstantFolder.cpp, lines 501-566).  The arguments are the predicate of
  \<open>CmpI\<close>, the width and bits of \<open>CmpInt\<close>, and \<open>flip\<close>.
\<close>

definition tryFoldOpenCmp :: "Predicate \<Rightarrow> nat \<Rightarrow> int \<Rightarrow> bool \<Rightarrow> ValCtx" where
  "tryFoldOpenCmp CmpPred w v flip =
    (if w > 64 then VCNull
     else
       let Pred = (if flip then
                     (case CmpPred of
                        ICMP_SGT \<Rightarrow> ICMP_SLT
                      | ICMP_SGE \<Rightarrow> ICMP_SLE
                      | ICMP_SLT \<Rightarrow> ICMP_SGT
                      | ICMP_SLE \<Rightarrow> ICMP_SGE
                      | _ \<Rightarrow> CmpPred)
                   else CmpPred);
           CmpVal = getSExtValue w v
       in (case Pred of
             ICMP_EQ \<Rightarrow> if CmpVal < 0 then const_vc getFalse else VCNull
           | ICMP_NE \<Rightarrow> if CmpVal < 0 then const_vc getTrue else VCNull
           | ICMP_SGT \<Rightarrow> if CmpVal < 0 then const_vc getTrue else VCNull
           | ICMP_SGE \<Rightarrow> if CmpVal \<le> 0 then const_vc getTrue else VCNull
           | ICMP_SLT \<Rightarrow> if CmpVal \<le> 0 then const_vc getFalse else VCNull
           | ICMP_SLE \<Rightarrow> if CmpVal < 0 then const_vc getFalse else VCNull
           | _ \<Rightarrow> VCNull))"


section \<open>The program, the loop nest and the host's oracles\<close>

text \<open>An LLVM type, as far as the analyser inspects it; \<open>PointerTy n\<close> and
  \<open>OtherTy n\<close> are told apart by \<open>n\<close>.\<close>

datatype Ty = IntegerTy nat | PointerTy nat | VoidTy | OtherTy nat

fun isPointerTy :: "Ty \<Rightarrow> bool" where
  "isPointerTy (PointerTy n) = True"
| "isPointerTy _ = False"

text \<open>
  The module under analysis, as the analyser reads it through LLVM's interfaces, with
  the helpers and oracles the analyser calls that are not defined in the source files.
  The module is never a result of a function of the analyser below, only an argument.

  \<^item> \<open>getBlocks F\<close> is \<open>F.begin() .. F.end()\<close>, \<open>getInstructions BB\<close> is
    \<open>BB->begin() .. BB->end()\<close>, \<open>predecessors\<close> and \<open>successors\<close> are
    \<open>pred_begin .. pred_end\<close> and \<open>succ_begin .. succ_end\<close> (the successors of the
    block's terminator, in operand order).
  \<^item> \<open>getCondition\<close> is \<open>None\<close> for an unconditional branch, where LLVM asserts;
    \<open>getLoopPreheader\<close> and \<open>getLoopLatch\<close> are \<open>None\<close> where LLVM returns null.
  \<^item> \<open>getEdgeScope\<close>, \<open>getValueScope\<close> and \<open>getBlockScopeVariant\<close> are members of
    \<open>IntegrationAttempt\<close> that only read the loop nest; their code is not in the source
    files, so they are taken as given.
  \<^item> \<open>getUltimateUnderlyingObject\<close>, \<open>tryGetReturnValue\<close>,
    \<open>getImprovedCallArgument\<close>, \<open>tryForwardLoad\<close>, \<open>createInlineAttempt\<close> and
    \<open>createPeelAttempt\<close> stand for members whose code is not in the source files:
    each gives the answer of one call, for the context that is asked.
  \<^item> \<open>isAvailable\<close>, \<open>callWithScope\<close> (the context of the enclosing scope on
    which the callback is invoked) and \<open>getFunctionRoot\<close> are likewise members whose
    code is not in the source files.
  \<^item> \<open>usersMaybeLive c V\<close> is the flag \<open>maybeLive\<close> that the \<open>DIVisitor\<close> holds
    after \<open>visitUsers(V, DIV)\<close> in context \<open>c\<close> (lines 1121-1185 and 1014-1069):
    the walk over the use lists of LLVM, which are not part of this model.
\<close>

record IR =
  getEntryBlock :: "nat \<Rightarrow> BasicBlock"
  getBlocks :: "nat \<Rightarrow> BasicBlock list"
  getInstructions :: "BasicBlock \<Rightarrow> InstId list"
  predecessors :: "BasicBlock \<Rightarrow> BasicBlock list"
  successors :: "BasicBlock \<Rightarrow> BasicBlock list"
  getOpcode :: "InstId \<Rightarrow> Opcode"
  getParent :: "InstId \<Rightarrow> BasicBlock"
  getOperands :: "InstId \<Rightarrow> Value list"
  getIncomingValueForBlock :: "InstId \<Rightarrow> BasicBlock \<Rightarrow> Value"
  getPredicate :: "InstId \<Rightarrow> Predicate"
  getCondition :: "InstId \<Rightarrow> Value option"
  findCaseValue :: "InstId \<Rightarrow> Value \<Rightarrow> nat"
  getType :: "Value \<Rightarrow> Ty"
  getReturnType :: "nat \<Rightarrow> Ty"
  getSrcTy :: "InstId \<Rightarrow> Ty"
  getDestTy :: "InstId \<Rightarrow> Ty"
  mayHaveSideEffects :: "InstId \<Rightarrow> bool"
  isIdentifiedObject :: "Value \<Rightarrow> bool"
  getLoopFor :: "BasicBlock \<Rightarrow> Loop"
  getHeader :: "Loop \<Rightarrow> BasicBlock"
  getLoopPreheader :: "Loop \<Rightarrow> BasicBlock option"
  getLoopLatch :: "Loop \<Rightarrow> BasicBlock option"
  getExitEdges :: "Loop \<Rightarrow> (BasicBlock \<times> BasicBlock) list"
  getEdgeScope :: "BasicBlock \<Rightarrow> BasicBlock \<Rightarrow> Loop"
  getValueScope :: "Value \<Rightarrow> Loop"
  getBlockScopeVariant :: "BasicBlock \<Rightarrow> Loop"
  ConstantFoldCompareInstOperands :: "Predicate \<Rightarrow> Value \<Rightarrow> Value \<Rightarrow> Value option"
  ConstantFoldLoadFromConstPtr :: "Value \<Rightarrow> Value option"
  ConstantFoldInstOperands :: "InstId \<Rightarrow> Value list \<Rightarrow> Value option"
  getUltimateUnderlyingObject :: "Ctx \<Rightarrow> Value \<Rightarrow> ValCtx"
  tryGetReturnValue :: "Ctx \<Rightarrow> ValCtx"
  getImprovedCallArgument :: "Ctx \<Rightarrow> nat \<Rightarrow> ValCtx"
  tryForwardLoad :: "Ctx \<Rightarrow> InstId \<Rightarrow> ValCtx"
  createInlineAttempt :: "Ctx \<Rightarrow> InstId \<Rightarrow> Ctx option"
  createPeelAttempt :: "Ctx \<Rightarrow> Loop \<Rightarrow> Ctx list option"
  isAvailable :: "Ctx option \<Rightarrow> bool"
  callWithScope :: "Ctx \<Rightarrow> Loop \<Rightarrow> Ctx option"
  getFunctionRoot :: "Ctx \<Rightarrow> Ctx option"
  usersMaybeLive :: "Ctx \<Rightarrow> Value \<Rightarrow> bool"

text \<open>
  \<open>LoopBase::contains(const LoopT *L)\<close> of LLVM, by recursion on the parent chain of
  \<open>L\<close>: \<open>if (L == this) return true; if (L == 0) return false;
  return contains(L->getParentLoop());\<close>.  The method never dereferences \<open>this\<close>;
  on a null receiver (undefined behaviour that line 404 of
  HypotheticalConstantFolder.cpp can reach) the compiled method answers \<open>True\<close>, and
  so does the model.
\<close>

fun contains :: "Loop \<Rightarrow> Loop \<Rightarrow> bool" where
  "contains this [] = (this = [])"
| "contains this (l # ls) = (if l # ls = this then True else contains this ls)"

text \<open>
  \<open>immediateChildLoop(Parent, Child)\<close> (HypotheticalConstantFolder.cpp, lines
  47-55).  When \<open>Parent\<close> is not a proper ancestor of \<open>Child\<close> the source
  dereferences a null pointer: \<open>None\<close>.
\<close>

fun immediateChildLoop :: "Loop \<Rightarrow> Loop \<Rightarrow> Loop option" where
  "immediateChildLoop Parent [] = None"
| "immediateChildLoop Parent (l # ls) =
     (if ls = Parent then Some (l # ls) else immediateChildLoop Parent ls)"

section \<open>Integration contexts\<close>

datatype IterationStatus = IterationStatusUnknown | IterationStatusFinal

text \<open>
  The two subclasses of \<open>IntegrationAttempt\<close>: an \<open>InlineAttempt\<close> with its call
  instruction \<open>CI\<close> (null for a root), and a \<open>PeelIteration\<close> with its loop
  \<open>L\<close> and its \<open>iterationCount\<close>.
\<close>

datatype Variant =
    IsInlineAttempt "InstId option"
  | IsPeelIteration Loop nat

text \<open>
  What a context hands to the pass's queues (\<open>pass->queueCheckBlock(this, BB)\<close> and
  the like), and the calls it makes on other contexts or on members whose code is not
  in the source files, in the order they are made.
\<close>

datatype Work =
    QueueCheckBlock Ctx BasicBlock
  | QueueTryEvaluate Ctx Value
  | QueueCheckLoad Ctx InstId
  | QueueOpenPush ValCtx ValCtx
  | QueueDIE Ctx Value
  | CallCheckVariantEdge Ctx BasicBlock BasicBlock Loop
  | CallGetOrCreateNextIteration Ctx
  | CallCheckFinalIteration Ctx
  | CallTryPromoteOpenCall Ctx InstId
  | CallInvestigateUsers Ctx Value
  | CallQueueAllReturnInsts Ctx
  | CallQueueDIEOperands Ctx Value

text \<open>
  The fields of an \<open>IntegrationAttempt\<close> that the functions below read or write.
  \<open>peelChildren L\<close> is the \<open>Iterations\<close> vector of the \<open>PeelAttempt\<close> for
  \<open>L\<close>.  \<open>pending\<close> collects the \<open>Work\<close> the context issued; \<open>aborted\<close> is
  set where the source fails an assertion or has undefined behaviour.
\<close>

record IntegrationAttempt =
  variant :: Variant
  F :: nat
  parent :: "Ctx option"
  iterStatus :: IterationStatus
  deadBlocks :: "BasicBlock set"
  certainBlocks :: "BasicBlock set"
  deadEdges :: "(BasicBlock \<times> BasicBlock) set"
  improvedValues :: "Value \<rightharpoonup> ValCtx"
  deadValues :: "Value set"
  forwardableOpenCalls :: "InstId set"
  inlineChildren :: "InstId \<rightharpoonup> Ctx"
  peelChildren :: "Loop \<rightharpoonup> Ctx list"
  CFGBlockedLoads :: "(Ctx \<times> InstId) list"
  CFGBlockedOpens :: "(ValCtx \<times> ValCtx) list"
  pending :: "Work list"
  aborted :: bool

text \<open>The contexts of one analysis run, by identity.\<close>

type_synonym Heap = "Ctx \<rightharpoonup> IntegrationAttempt"

text \<open>The context \<open>c\<close> as seen while \<open>this\<close> is being updated to \<open>s\<close>.\<close>

definition ctxAt :: "Heap \<Rightarrow> Ctx \<Rightarrow> IntegrationAttempt \<Rightarrow> Ctx \<Rightarrow> IntegrationAttempt option" where
  "ctxAt h this s c = (if c = this then Some s else h c)"

definition getLoopContext :: "IntegrationAttempt \<Rightarrow> Loop" where
  "getLoopContext s = (case variant s of IsInlineAttempt CI \<Rightarrow> [] | IsPeelIteration L n \<Rightarrow> L)"

definition queue :: "Work \<Rightarrow> IntegrationAttempt \<Rightarrow> IntegrationAttempt" where
  "queue w s = s\<lparr>pending := pending s @ [w]\<rparr>"

definition abort :: "IntegrationAttempt \<Rightarrow> IntegrationAttempt" where
  "abort s = s\<lparr>aborted := True\<rparr>"

subsection \<open>Read-only queries and setters over the side tables\<close>

text \<open>
  Modelled from the spec: \<open>blockIsDead\<close>, \<open>blockIsCertain\<close>, \<open>edgeIsDead\<close>,
  \<open>setEdgeDead\<close>, \<open>getInlineAttempt\<close>, \<open>getPeelAttempt\<close>, \<open>getDefaultVC\<close>,
  \<open>getReplacement\<close>, \<open>getConstReplacement\<close> and \<open>setReplacement\<close> are declared in
  a header that is not among the source files.  The spec's section 6 gives them as
  read-only queries over the context ("is this block dead/certain in this context",
  "what is this value's improvement in this context", "does this call have an inline
  attempt / does this loop have a peel attempt"), and section 3 as the per-context map
  from a value to its improvement or "not yet improved"; a value that is not improved
  stands for itself in its context.
\<close>

definition blockIsDead :: "IntegrationAttempt \<Rightarrow> BasicBlock \<Rightarrow> bool" where
  "blockIsDead s BB = (BB \<in> deadBlocks s)"

definition blockIsCertain :: "IntegrationAttempt \<Rightarrow> BasicBlock \<Rightarrow> bool" where
  "blockIsCertain s BB = (BB \<in> certainBlocks s)"

definition edgeIsDead :: "IntegrationAttempt \<Rightarrow> BasicBlock \<Rightarrow> BasicBlock \<Rightarrow> bool" where
  "edgeIsDead s B1 B2 = ((B1, B2) \<in> deadEdges s)"

definition setEdgeDead :: "BasicBlock \<Rightarrow> BasicBlock \<Rightarrow> IntegrationAttempt \<Rightarrow> IntegrationAttempt" where
  "setEdgeDead B1 B2 s = s\<lparr>deadEdges := insert (B1, B2) (deadEdges s)\<rparr>"

definition getInlineAttempt :: "IntegrationAttempt \<Rightarrow> InstId \<Rightarrow> Ctx option" where
  "getInlineAttempt s CI = inlineChildren s CI"

definition getPeelAttempt :: "IntegrationAttempt \<Rightarrow> Loop \<Rightarrow> Ctx list option" where
  "getPeelAttempt s L = peelChildren s L"

definition getDefaultVC :: "Ctx \<Rightarrow> Value \<Rightarrow> ValCtx" where
  "getDefaultVC this V = (if isaConstant V then const_vc V else make_vc V this)"

definition getReplacement :: "Ctx \<Rightarrow> IntegrationAttempt \<Rightarrow> Value \<Rightarrow> ValCtx" where
  "getReplacement this s V =
     (case improvedValues s V of Some VC \<Rightarrow> VC | None \<Rightarrow> getDefaultVC this V)"

definition getConstReplacement :: "Ctx \<Rightarrow> IntegrationAttempt \<Rightarrow> Value \<Rightarrow> Value option" where
  "getConstReplacement this s V =
     (case fst (getReplacement this s V) of
        Some C \<Rightarrow> if isaConstant C then Some C else None
      | None \<Rightarrow> None)"

definition setReplacement :: "Value \<Rightarrow> ValCtx \<Rightarrow> IntegrationAttempt \<Rightarrow> IntegrationAttempt" where
  "setReplacement V VC s = s\<lparr>improvedValues := (improvedValues s)(V \<mapsto> VC)\<rparr>"

text \<open>
  Modelled from the spec: \<open>getOrCreateInlineAttempt\<close> and \<open>getOrCreatePeelAttempt\<close>
  are not in the source files.  Section 4.1: each "returns the existing child context
  for a call site, or lazily creates one", subject to guards that "fail open"; whether
  a new child can be made, and which, is the oracle's answer.
\<close>

definition getOrCreateInlineAttempt ::
  "IR \<Rightarrow> Ctx \<Rightarrow> InstId \<Rightarrow> IntegrationAttempt \<Rightarrow> Ctx option \<times> IntegrationAttempt" where
  "getOrCreateInlineAttempt ir this CI s =
     (case inlineChildren s CI of
        Some IA \<Rightarrow> (Some IA, s)
      | None \<Rightarrow>
          (case createInlineAttempt ir this CI of
             None \<Rightarrow> (None, s)
           | Some IA \<Rightarrow> (Some IA, s\<lparr>inlineChildren := (inlineChildren s)(CI \<mapsto> IA)\<rparr>)))"

definition getOrCreatePeelAttempt ::
  "IR \<Rightarrow> Ctx \<Rightarrow> Loop \<Rightarrow> IntegrationAttempt \<Rightarrow> Ctx list option \<times> IntegrationAttempt" where
  "getOrCreatePeelAttempt ir this L s =
     (case peelChildren s L of
        Some PA \<Rightarrow> (Some PA, s)
      | None \<Rightarrow>
          (case createPeelAttempt ir this L of
             None \<Rightarrow> (None, s)
           | Some PA \<Rightarrow> (Some PA, s\<lparr>peelChildren := (peelChildren s)(L \<mapsto> PA)\<rparr>)))"


section \<open>The CFG liveness propagator\<close>

text \<open>\<open>IntegrationAttempt::shouldCheckBlock\<close> (lines 346-350).\<close>

definition shouldCheckBlock :: "IntegrationAttempt \<Rightarrow> BasicBlock \<Rightarrow> bool" where
  "shouldCheckBlock s BB = (\<not> (blockIsDead s BB \<or> blockIsCertain s BB))"

text \<open>\<open>queueCFGBlockedLoads\<close> and \<open>queueCFGBlockedOpens\<close> (lines 195-218).\<close>

definition queueCFGBlockedLoads :: "IntegrationAttempt \<Rightarrow> IntegrationAttempt" where
  "queueCFGBlockedLoads s =
     s\<lparr>pending := pending s @ map (\<lambda>(c, LI). QueueCheckLoad c LI) (CFGBlockedLoads s),
       CFGBlockedLoads := []\<rparr>"

definition queueCFGBlockedOpens :: "IntegrationAttempt \<Rightarrow> IntegrationAttempt" where
  "queueCFGBlockedOpens s =
     s\<lparr>pending := pending s @ map (\<lambda>(a, b). QueueOpenPush a b) (CFGBlockedOpens s),
       CFGBlockedOpens := []\<rparr>"

text \<open>
  \<open>IntegrationAttempt::checkLoopSpecialEdge\<close> (lines 88-134).  \<open>markExitEdges\<close> is
  its loop over the exit edges of a loop whose header was killed.
\<close>

fun markExitEdges ::
  "IR \<Rightarrow> Ctx \<Rightarrow> Loop \<Rightarrow> (BasicBlock \<times> BasicBlock) list \<Rightarrow> IntegrationAttempt \<Rightarrow> IntegrationAttempt" where
  "markExitEdges ir this L [] s = s"
| "markExitEdges ir this L (e # es) s =
     (let edgeScope = getEdgeScope ir (fst e) (snd e);
          s1 = (if edgeScope = getLoopContext s \<or> edgeScope = L
                then s\<lparr>deadEdges := insert e (deadEdges s)\<rparr> else s)
      in markExitEdges ir this L es (queue (QueueCheckBlock this (snd e)) s1))"

definition checkLoopSpecialEdgeIA ::
  "IR \<Rightarrow> Ctx \<Rightarrow> BasicBlock \<Rightarrow> BasicBlock \<Rightarrow> IntegrationAttempt \<Rightarrow> bool \<times> IntegrationAttempt" where
  "checkLoopSpecialEdgeIA ir this FromBB ToBB s =
     (let L = getLoopFor ir ToBB in
      if L = [] then (False, s)
      else
        let isSpecialEdge = (ToBB = getHeader ir L \<and> Some FromBB = getLoopPreheader ir L) in
        if isSpecialEdge then
          (let s1 = queueCFGBlockedOpens s;
               r = getOrCreatePeelAttempt ir this L s1;
               s2 = snd r
           in if fst r = None \<and> edgeIsDead s2 FromBB ToBB
              then (True, markExitEdges ir this L (getExitEdges ir L) s2)
              else (True, s2))
        else (False, s))"

text \<open>
  \<open>PeelIteration::checkLoopSpecialEdge\<close> (lines 136-155) overrides it;
  \<open>getOrCreateNextIteration\<close> and \<open>checkFinalIteration\<close> are not in the source
  files and are recorded as calls.
\<close>

definition checkLoopSpecialEdge ::
  "IR \<Rightarrow> Ctx \<Rightarrow> BasicBlock \<Rightarrow> BasicBlock \<Rightarrow> IntegrationAttempt \<Rightarrow> bool \<times> IntegrationAttempt" where
  "checkLoopSpecialEdge ir this FromBB ToBB s =
     (case variant s of
        IsInlineAttempt CI \<Rightarrow> checkLoopSpecialEdgeIA ir this FromBB ToBB s
      | IsPeelIteration L n \<Rightarrow>
          (let isSpecialBranchTarget =
                 ((Some FromBB = getLoopLatch ir L \<and> ToBB = getHeader ir L)
                  \<or> \<not> contains L (getLoopFor ir ToBB));
               s1 = (if iterStatus s = IterationStatusUnknown \<and> isSpecialBranchTarget
                     then (let s' = queue (CallGetOrCreateNextIteration this) s
                           in if iterStatus s' = IterationStatusUnknown
                              then queue (CallCheckFinalIteration this) s' else s')
                     else s)
           in if isSpecialBranchTarget then (True, queueCFGBlockedOpens s1)
              else checkLoopSpecialEdgeIA ir this FromBB ToBB s1))"

text \<open>\<open>checkLocalEdge\<close>, \<open>checkVariantEdge\<close> and \<open>checkEdge\<close> (lines 157-193).
  The calls on the iterations of a child loop are recorded, one per iteration.\<close>

definition checkLocalEdge ::
  "IR \<Rightarrow> Ctx \<Rightarrow> BasicBlock \<Rightarrow> BasicBlock \<Rightarrow> IntegrationAttempt \<Rightarrow> IntegrationAttempt" where
  "checkLocalEdge ir this FromBB ToBB s =
     (let r = checkLoopSpecialEdge ir this FromBB ToBB s
      in if \<not> fst r then queue (QueueCheckBlock this ToBB) (snd r) else snd r)"

definition checkVariantEdge ::
  "IR \<Rightarrow> Ctx \<Rightarrow> BasicBlock \<Rightarrow> BasicBlock \<Rightarrow> Loop \<Rightarrow> IntegrationAttempt \<Rightarrow> IntegrationAttempt" where
  "checkVariantEdge ir this FromBB ToBB ScopeL s =
     (let MyScope = getLoopContext s in
      if MyScope = ScopeL then checkLocalEdge ir this FromBB ToBB s
      else
        (case immediateChildLoop MyScope ScopeL of
           None \<Rightarrow> abort s
         | Some ChildL \<Rightarrow>
             (case getPeelAttempt s ChildL of
                Some Iterations \<Rightarrow>
                  foldl (\<lambda>s' c. queue (CallCheckVariantEdge c FromBB ToBB ScopeL) s') s Iterations
              | None \<Rightarrow> s)))"

definition checkEdge ::
  "IR \<Rightarrow> Ctx \<Rightarrow> BasicBlock \<Rightarrow> BasicBlock \<Rightarrow> IntegrationAttempt \<Rightarrow> IntegrationAttempt" where
  "checkEdge ir this FromBB ToBB s =
     (let EdgeScope = getEdgeScope ir FromBB ToBB in
      if EdgeScope = [] \<or> contains EdgeScope (getLoopContext s)
      then checkLocalEdge ir this FromBB ToBB s
      else checkVariantEdge ir this FromBB ToBB EdgeScope s)"

text \<open>
  \<open>IntegrationAttempt::checkBlock\<close> (lines 220-344).  \<open>onlySuccessor\<close> is the inner
  loop over the successors of a predecessor (lines 253-262), \<open>checkPreds\<close> the loop
  over the predecessors (lines 245-276) with the flags \<open>(isDead, isCertain)\<close>,
  \<open>eraseResolutions\<close> the loop of lines 289-293, \<open>promoteCalls\<close> the loop of lines
  302-311 and \<open>checkSuccs\<close> the loop of lines 319-325.
\<close>

fun onlySuccessor :: "IntegrationAttempt \<Rightarrow> BasicBlock \<Rightarrow> BasicBlock \<Rightarrow> BasicBlock list \<Rightarrow> bool" where
  "onlySuccessor s PI BB [] = True"
| "onlySuccessor s PI BB (SI # SIs) =
     (if SI \<noteq> BB \<and> \<not> edgeIsDead s PI SI then False else onlySuccessor s PI BB SIs)"

fun checkPreds ::
  "IR \<Rightarrow> IntegrationAttempt \<Rightarrow> BasicBlock \<Rightarrow> BasicBlock list \<Rightarrow> bool \<times> bool \<Rightarrow> bool \<times> bool" where
  "checkPreds ir s BB [] flags = flags"
| "checkPreds ir s BB (PI # PIs) flags =
     (if \<not> edgeIsDead s PI BB then
        (if blockIsCertain s PI then
           (if \<not> onlySuccessor s PI BB (successors ir PI)
            then checkPreds ir s BB PIs (False, False)
            else checkPreds ir s BB PIs (False, snd flags))
         else checkPreds ir s BB PIs (False, False))
      else checkPreds ir s BB PIs flags)"

fun eraseResolutions :: "InstId list \<Rightarrow> (Value \<rightharpoonup> ValCtx) \<Rightarrow> (Value \<rightharpoonup> ValCtx)" where
  "eraseResolutions [] m = m"
| "eraseResolutions (BI # BIs) m = eraseResolutions BIs (m(Instruction BI := None))"

fun promoteCalls :: "IR \<Rightarrow> Ctx \<Rightarrow> InstId list \<Rightarrow> IntegrationAttempt \<Rightarrow> IntegrationAttempt" where
  "promoteCalls ir this [] s = s"
| "promoteCalls ir this (BI # BIs) s =
     (if getOpcode ir BI = Call then
        (let r = getOrCreateInlineAttempt ir this BI s
         in promoteCalls ir this BIs
              (if fst r = None then queue (CallTryPromoteOpenCall this BI) (snd r) else snd r))
      else promoteCalls ir this BIs s)"

fun checkSuccs ::
  "IR \<Rightarrow> Ctx \<Rightarrow> BasicBlock \<Rightarrow> bool \<Rightarrow> BasicBlock list \<Rightarrow> IntegrationAttempt \<Rightarrow> IntegrationAttempt" where
  "checkSuccs ir this BB isDead [] s = s"
| "checkSuccs ir this BB isDead (SI # SIs) s =
     checkSuccs ir this BB isDead SIs
       (checkEdge ir this BB SI
          (if isDead then s\<lparr>deadEdges := insert (BB, SI) (deadEdges s)\<rparr> else s))"

definition checkBlockFlags :: "IR \<Rightarrow> IntegrationAttempt \<Rightarrow> BasicBlock \<Rightarrow> bool \<times> bool" where
  "checkBlockFlags ir s BB =
     (let flags = (if BB = getEntryBlock ir (F s) then (False, True)
                   else checkPreds ir s BB (predecessors ir BB) (True, True))
      in if fst flags \<and> snd flags then (fst flags, False) else flags)"

definition checkBlock :: "IR \<Rightarrow> Ctx \<Rightarrow> BasicBlock \<Rightarrow> IntegrationAttempt \<Rightarrow> IntegrationAttempt" where
  "checkBlock ir this BB s =
     (if \<not> shouldCheckBlock s BB then s
      else
        let isDead = fst (checkBlockFlags ir s BB);
            isCertain = snd (checkBlockFlags ir s BB);
            s1 = (if isDead
                  then s\<lparr>deadBlocks := insert BB (deadBlocks s),
                         improvedValues := eraseResolutions (getInstructions ir BB) (improvedValues s)\<rparr>
                  else s);
            s2 = (if isCertain
                  then queueCFGBlockedOpens
                         (promoteCalls ir this (getInstructions ir BB)
                            (s1\<lparr>certainBlocks := insert BB (certainBlocks s1)\<rparr>))
                  else s1);
            s3 = (if isDead \<or> isCertain
                  then checkSuccs ir this BB isDead (successors ir BB) s2
                  else s2)
        in if \<not> isDead
           then foldl (\<lambda>s' BI. queue (QueueTryEvaluate this (Instruction BI)) s') s3
                  (takeWhile (\<lambda>BI. getOpcode ir BI = PHI) (getInstructions ir BB))
           else queueCFGBlockedLoads s3)"


section \<open>The speculative value evaluator\<close>

text \<open>\<open>isForwardableOpenCall\<close> and \<open>shouldForwardValue\<close> (lines 59-86).  Every
  caller tests \<open>V.first\<close> before the call; on a null \<open>V.first\<close>, and on a
  non-constant with a null context, the source dereferences a null pointer, and the
  model answers \<open>False\<close>.\<close>

definition isForwardableOpenCall :: "IR \<Rightarrow> IntegrationAttempt \<Rightarrow> Value \<Rightarrow> bool" where
  "isForwardableOpenCall ir s V =
     (case V of
        Instruction CI \<Rightarrow> getOpcode ir CI = Call \<and> CI \<in> forwardableOpenCalls s
      | _ \<Rightarrow> False)"

definition shouldForwardValue :: "IR \<Rightarrow> Heap \<Rightarrow> Ctx \<Rightarrow> IntegrationAttempt \<Rightarrow> ValCtx \<Rightarrow> bool" where
  "shouldForwardValue ir h this s V =
     (case fst V of
        None \<Rightarrow> False
      | Some v \<Rightarrow>
          if isaConstant v then True
          else
            (case snd V of
               None \<Rightarrow> False
             | Some c \<Rightarrow>
                 if isPointerTy (getType ir v)
                    \<and> (case fst (getUltimateUnderlyingObject ir c v) of
                          Some Obj \<Rightarrow> isIdentifiedObject ir Obj
                        | None \<Rightarrow> False)
                 then True
                 else (case ctxAt h this s c of
                         Some cs \<Rightarrow> isForwardableOpenCall ir cs v
                       | None \<Rightarrow> False)))"

text \<open>
  \<open>V.second && V.second->isForwardableOpenCall(V.first)\<close>, the test of lines 725, 747
  and 751.
\<close>

definition isOpenCallVC :: "IR \<Rightarrow> Heap \<Rightarrow> Ctx \<Rightarrow> IntegrationAttempt \<Rightarrow> ValCtx \<Rightarrow> bool" where
  "isOpenCallVC ir h this s V =
     (case snd V of
        None \<Rightarrow> False
      | Some c \<Rightarrow>
          (case fst V of
             None \<Rightarrow> False
           | Some v \<Rightarrow>
               (case ctxAt h this s c of
                  Some cs \<Rightarrow> isForwardableOpenCall ir cs v
                | None \<Rightarrow> False)))"

text \<open>
  \<open>getLoopHeaderPHIValue\<close> (lines 352-382): the \<open>IntegrationAttempt\<close> version
  answers false; the \<open>PeelIteration\<close> version reads the preheader's incoming value in
  the parent context (iteration 0) or the latch's incoming value in the previous
  iteration.  The result is the returned flag with the value left in \<open>result\<close>;
  \<open>None\<close> where the source dereferences a null or dangling pointer (a missing parent,
  preheader, latch or previous iteration).  \<open>parentPA\<close> is the \<open>PeelAttempt\<close> for
  \<open>L\<close> that the parent context owns.
\<close>

definition parentPA :: "Heap \<Rightarrow> Ctx \<Rightarrow> IntegrationAttempt \<Rightarrow> Loop \<Rightarrow> Ctx list option" where
  "parentPA h this s L =
     (case parent s of
        None \<Rightarrow> None
      | Some p \<Rightarrow> (case ctxAt h this s p of None \<Rightarrow> None | Some ps \<Rightarrow> getPeelAttempt ps L))"

definition getLoopHeaderPHIValue ::
  "IR \<Rightarrow> Heap \<Rightarrow> Ctx \<Rightarrow> IntegrationAttempt \<Rightarrow> InstId \<Rightarrow> ValCtx \<Rightarrow> (bool \<times> ValCtx) option" where
  "getLoopHeaderPHIValue ir h this s PN result =
     (case variant s of
        IsInlineAttempt CI \<Rightarrow> Some (False, result)
      | IsPeelIteration L iterationCount \<Rightarrow>
          if getParent ir PN = getHeader ir L then
            (if iterationCount = 0 then
               (case parent s of
                  None \<Rightarrow> None
                | Some p \<Rightarrow>
                    (case ctxAt h this s p of
                       None \<Rightarrow> None
                     | Some ps \<Rightarrow>
                         (case getLoopPreheader ir L of
                            None \<Rightarrow> None
                          | Some pre \<Rightarrow>
                              Some (True, getReplacement p ps (getIncomingValueForBlock ir PN pre)))))
             else
               (case parentPA h this s L of
                  None \<Rightarrow> None
                | Some Iterations \<Rightarrow>
                    if iterationCount - 1 < length Iterations then
                      (let PreviousIter = Iterations ! (iterationCount - 1) in
                       case ctxAt h this s PreviousIter of
                         None \<Rightarrow> None
                       | Some prev \<Rightarrow>
                           (case getLoopLatch ir L of
                              None \<Rightarrow> None
                            | Some latch \<Rightarrow>
                                Some (True, getReplacement PreviousIter prev
                                              (getIncomingValueForBlock ir PN latch))))
                    else None))
          else Some (False, result))"

text \<open>
  \<open>IntegrationAttempt::getPHINodeValue\<close> (lines 384-458).  \<open>readPHIPred\<close> is the
  body of the loop for one live predecessor (lines 399-438): it yields the value read
  on that edge, or refuses (the two \<open>onlyValue = VCNull; break\<close> exits for a value
  of a child loop), or has undefined behaviour (an empty \<open>Iterations\<close> vector, a
  dangling iteration).  \<open>scanPHIPreds\<close> is the loop of lines 394-446.
\<close>

datatype PredRead = PredValue ValCtx | PredRefused | PredUndefined

definition readPHIPred ::
  "IR \<Rightarrow> Heap \<Rightarrow> Ctx \<Rightarrow> IntegrationAttempt \<Rightarrow> InstId \<Rightarrow> BasicBlock \<Rightarrow> PredRead" where
  "readPHIPred ir h this s PN PI =
     (let oldValue = getIncomingValueForBlock ir PN PI;
          phiLoop = getValueScope ir (Instruction PN);
          predLoop = getValueScope ir oldValue
      in if (phiLoop = [] \<and> predLoop \<noteq> []) \<or> (phiLoop \<noteq> [] \<and> \<not> contains predLoop phiLoop)
         then
           (case getPeelAttempt s predLoop of
              Some Iterations \<Rightarrow>
                if Iterations = [] then PredUndefined
                else
                  (case ctxAt h this s (last Iterations) of
                     None \<Rightarrow> PredUndefined
                   | Some finalIter \<Rightarrow>
                       if iterStatus finalIter = IterationStatusFinal
                       then PredValue (getReplacement (last Iterations) finalIter oldValue)
                       else PredRefused)
            | None \<Rightarrow> PredRefused)
         else PredValue (getReplacement this s oldValue))"

fun scanPHIPreds ::
  "IR \<Rightarrow> Heap \<Rightarrow> Ctx \<Rightarrow> IntegrationAttempt \<Rightarrow> InstId \<Rightarrow> BasicBlock \<Rightarrow> BasicBlock list \<Rightarrow> ValCtx
     \<Rightarrow> ValCtx option" where
  "scanPHIPreds ir h this s PN BB [] onlyValue = Some onlyValue"
| "scanPHIPreds ir h this s PN BB (PI # PIs) onlyValue =
     (if edgeIsDead s PI BB then scanPHIPreds ir h this s PN BB PIs onlyValue
      else
        (case readPHIPred ir h this s PN PI of
           PredUndefined \<Rightarrow> None
         | PredRefused \<Rightarrow> Some VCNull
         | PredValue predValue \<Rightarrow>
             if onlyValue = VCNull then scanPHIPreds ir h this s PN BB PIs predValue
             else if onlyValue \<noteq> predValue then Some VCNull
             else scanPHIPreds ir h this s PN BB PIs onlyValue))"

definition getPHINodeValue ::
  "IR \<Rightarrow> Heap \<Rightarrow> Ctx \<Rightarrow> IntegrationAttempt \<Rightarrow> InstId \<Rightarrow> ValCtx option" where
  "getPHINodeValue ir h this s PN =
     (case getLoopHeaderPHIValue ir h this s PN VCNull of
        None \<Rightarrow> None
      | Some r \<Rightarrow>
          (case (if fst r then Some (snd r)
                 else scanPHIPreds ir h this s PN (getParent ir PN)
                        (predecessors ir (getParent ir PN)) VCNull) of
             None \<Rightarrow> None
           | Some onlyValue \<Rightarrow>
               Some (if fst onlyValue \<noteq> None \<and> shouldForwardValue ir h this s onlyValue
                     then onlyValue else VCNull)))"

text \<open>\<open>IntegrationAttempt::shouldTryEvaluate\<close> (lines 568-596).\<close>

definition shouldTryEvaluate :: "IR \<Rightarrow> Ctx \<Rightarrow> IntegrationAttempt \<Rightarrow> Value \<Rightarrow> bool" where
  "shouldTryEvaluate ir this s ArgV =
     (if getReplacement this s ArgV \<noteq> getDefaultVC this ArgV then False
      else
        (case ArgV of
           Instruction I \<Rightarrow> \<not> blockIsDead s (getParent ir I)
         | Argument A \<Rightarrow> True
         | _ \<Rightarrow> False))"

text \<open>
  The branch and switch case of \<open>tryEvaluateResult\<close> (lines 608-672).
  \<open>killOtherTargets\<close> is the loop over the successors of the terminator (lines
  646-664).  \<open>cast<ConstantInt>\<close> on another constant, \<open>getCondition\<close> on an
  unconditional branch and \<open>getSuccessor\<close> out of range fail an assertion.
\<close>

fun killOtherTargets ::
  "IR \<Rightarrow> Ctx \<Rightarrow> BasicBlock \<Rightarrow> BasicBlock \<Rightarrow> BasicBlock list \<Rightarrow> IntegrationAttempt \<Rightarrow> IntegrationAttempt" where
  "killOtherTargets ir this BB takenTarget [] s = s"
| "killOtherTargets ir this BB takenTarget (thisTarget # ts) s =
     killOtherTargets ir this BB takenTarget ts
       (if shouldCheckBlock s thisTarget
        then checkEdge ir this BB thisTarget
               (if thisTarget \<noteq> takenTarget then setEdgeDead BB thisTarget s else s)
        else s)"

definition evaluateTerminator :: "IR \<Rightarrow> Ctx \<Rightarrow> InstId \<Rightarrow> IntegrationAttempt \<Rightarrow> IntegrationAttempt" where
  "evaluateTerminator ir this I s =
     (case getCondition ir I of
        None \<Rightarrow> abort s
      | Some Condition \<Rightarrow>
          (case getConstReplacement this s Condition of
             None \<Rightarrow> s
           | Some ConstCondition \<Rightarrow>
               (case ConstCondition of
                  ConstantIntVal a \<Rightarrow>
                    (let succs = successors ir (getParent ir I);
                         idx = (if getOpcode ir I = Br
                                then (if getZExtValue a = 0 then 1 else 0)
                                else findCaseValue ir I ConstCondition)
                     in if idx < length succs
                        then killOtherTargets ir this (getParent ir I) (succs ! idx) succs s
                        else abort s)
                | _ \<Rightarrow> abort s)))"

text \<open>The select case (lines 704-714); the operands are condition, true value and
  false value.\<close>

definition evaluateSelect :: "IR \<Rightarrow> Ctx \<Rightarrow> InstId \<Rightarrow> IntegrationAttempt \<Rightarrow> ValCtx \<times> IntegrationAttempt" where
  "evaluateSelect ir this SI s =
     (case getOperands ir SI of
        [Condition, TrueValue, FalseValue] \<Rightarrow>
          (case getConstReplacement this s Condition of
             None \<Rightarrow> (VCNull, s)
           | Some (ConstantIntVal a) \<Rightarrow>
               (if getZExtValue a = 0 then (getDefaultVC this FalseValue, s)
                else (getDefaultVC this TrueValue, s))
           | Some _ \<Rightarrow> (VCNull, abort s))
      | _ \<Rightarrow> (VCNull, abort s))"

text \<open>
  The cast case (lines 719-738) and the comparison case (lines 741-772): each yields
  the improvement and the flag \<open>tryConstFold\<close>.
\<close>

definition fdPreservingTy :: "Ty \<Rightarrow> bool" where
  "fdPreservingTy T = (T = IntegerTy 32 \<or> T = IntegerTy 64 \<or> isPointerTy T)"

definition evaluateCast :: "IR \<Rightarrow> Heap \<Rightarrow> Ctx \<Rightarrow> IntegrationAttempt \<Rightarrow> InstId \<Rightarrow> ValCtx \<times> bool" where
  "evaluateCast ir h this s CI =
     (case getOperands ir CI of
        [] \<Rightarrow> (VCNull, True)
      | op0 # ops \<Rightarrow>
          (let SrcVC = getReplacement this s op0 in
           if isOpenCallVC ir h this s SrcVC
              \<and> fdPreservingTy (getSrcTy ir CI) \<and> fdPreservingTy (getDestTy ir CI)
           then (SrcVC, False) else (VCNull, True)))"

definition evaluateCmp :: "IR \<Rightarrow> Heap \<Rightarrow> Ctx \<Rightarrow> IntegrationAttempt \<Rightarrow> InstId \<Rightarrow> ValCtx \<times> bool" where
  "evaluateCmp ir h this s CmpI =
     (case getOperands ir CmpI of
        [operand0, operand1] \<Rightarrow>
          (let op0 = getReplacement this s operand0;
               op1 = getReplacement this s operand1
           in if isOpenCallVC ir h this s op0 then
                (case fst op1 of
                   Some (ConstantIntVal a) \<Rightarrow>
                     (tryFoldOpenCmp (getPredicate ir CmpI) (getBitWidth a) (getZExtValue a) False, False)
                 | _ \<Rightarrow> (VCNull, False))
              else if isOpenCallVC ir h this s op1 then
                (case fst op0 of
                   Some (ConstantIntVal a) \<Rightarrow>
                     (tryFoldOpenCmp (getPredicate ir CmpI) (getBitWidth a) (getZExtValue a) True, False)
                 | _ \<Rightarrow> (VCNull, False))
              else (VCNull, True))
      | _ \<Rightarrow> (VCNull, True))"

text \<open>Plain constant folding (lines 780-822).  \<open>collectConstOperands\<close> is the loop
  that stops at the first operand without a constant replacement.\<close>

fun collectConstOperands :: "Ctx \<Rightarrow> IntegrationAttempt \<Rightarrow> Value list \<Rightarrow> Value list \<Rightarrow> Value list" where
  "collectConstOperands this s [] instOperands = instOperands"
| "collectConstOperands this s (op # ops) instOperands =
     (case getConstReplacement this s op of
        Some C \<Rightarrow> collectConstOperands this s ops (instOperands @ [C])
      | None \<Rightarrow> instOperands)"

definition constFold :: "IR \<Rightarrow> Ctx \<Rightarrow> IntegrationAttempt \<Rightarrow> InstId \<Rightarrow> ValCtx" where
  "constFold ir this s I =
     (let instOperands = collectConstOperands this s (getOperands ir I) [] in
      if length instOperands = length (getOperands ir I) then
        (let newConst =
               (if getOpcode ir I = ICmp \<or> getOpcode ir I = FCmp then
                  (case instOperands of
                     a # b # rest \<Rightarrow> ConstantFoldCompareInstOperands ir (getPredicate ir I) a b
                   | _ \<Rightarrow> None)
                else if getOpcode ir I = Load then
                  (case instOperands of
                     a # rest \<Rightarrow> ConstantFoldLoadFromConstPtr ir a
                   | _ \<Rightarrow> None)
                else ConstantFoldInstOperands ir I instOperands)
         in case newConst of Some C \<Rightarrow> const_vc C | None \<Rightarrow> VCNull)
      else VCNull)"

text \<open>
  \<open>IntegrationAttempt::tryEvaluateResult\<close> (lines 598-834), and the override
  \<open>InlineAttempt::tryEvaluateResult\<close> (lines 836-846) that answers for arguments.
  \<open>tryPromoteOpenCall\<close> is not in the source files and is recorded as a call.
\<close>

definition tryEvaluateResultIA ::
  "IR \<Rightarrow> Heap \<Rightarrow> Ctx \<Rightarrow> Value \<Rightarrow> IntegrationAttempt \<Rightarrow> ValCtx \<times> IntegrationAttempt" where
  "tryEvaluateResultIA ir h this ArgV s =
     (if \<not> shouldTryEvaluate ir this s ArgV then (VCNull, s)
      else
        (case ArgV of
           Instruction I \<Rightarrow>
             (if getOpcode ir I = Br \<or> getOpcode ir I = Switch
              then (VCNull, evaluateTerminator ir this I s)
              else if getOpcode ir I = Call then
                (case getInlineAttempt s I of
                   Some IA \<Rightarrow> (tryGetReturnValue ir IA, s)
                 | None \<Rightarrow> (VCNull, queue (CallTryPromoteOpenCall this I) s))
              else if getOpcode ir I = PHI then
                (case getPHINodeValue ir h this s I of
                   Some Improved \<Rightarrow> (Improved, s)
                 | None \<Rightarrow> (VCNull, abort s))
              else if getOpcode ir I = Select then evaluateSelect ir this I s
              else
                (let r = (case getOpcode ir I of
                            CastOp k \<Rightarrow> evaluateCast ir h this s I
                          | ICmp \<Rightarrow> evaluateCmp ir h this s I
                          | FCmp \<Rightarrow> evaluateCmp ir h this s I
                          | _ \<Rightarrow> (VCNull, True))
                 in if snd r then (constFold ir this s I, s) else (fst r, s)))
         | _ \<Rightarrow> (VCNull, s)))"

definition tryEvaluateResult ::
  "IR \<Rightarrow> Heap \<Rightarrow> Ctx \<Rightarrow> Value \<Rightarrow> IntegrationAttempt \<Rightarrow> ValCtx \<times> IntegrationAttempt" where
  "tryEvaluateResult ir h this V s =
     (case variant s of
        IsInlineAttempt CI \<Rightarrow>
          (case V of
             Argument A \<Rightarrow> (getImprovedCallArgument ir this A, s)
           | _ \<Rightarrow> tryEvaluateResultIA ir h this V s)
      | IsPeelIteration L n \<Rightarrow> tryEvaluateResultIA ir h this V s)"

text \<open>
  \<open>tryEvaluate\<close> and \<open>checkLoad\<close> (lines 1593-1618).  \<open>investigateUsers\<close> visits
  the users of the value across contexts and, for each, queues work, asks for an inline
  attempt or re-queues blocked loads (lines 861-930, 1014-1097); it writes no liveness
  mark and no improvement, and is recorded as one call.
\<close>

definition tryEvaluate :: "IR \<Rightarrow> Heap \<Rightarrow> Ctx \<Rightarrow> Value \<Rightarrow> IntegrationAttempt \<Rightarrow> IntegrationAttempt" where
  "tryEvaluate ir h this V s =
     (let r = tryEvaluateResult ir h this V s;
          Improved = fst r;
          s1 = snd r
      in if fst Improved \<noteq> None \<and> shouldForwardValue ir h this s1 Improved
         then queue (CallInvestigateUsers this V) (setReplacement V Improved s1)
         else s1)"

definition checkLoad :: "IR \<Rightarrow> Ctx \<Rightarrow> InstId \<Rightarrow> IntegrationAttempt \<Rightarrow> IntegrationAttempt" where
  "checkLoad ir this LI s =
     (if \<not> shouldTryEvaluate ir this s (Instruction LI) then s
      else
        (let Result = tryForwardLoad ir this LI in
         if fst Result \<noteq> None
         then queue (CallInvestigateUsers this (Instruction LI)) (setReplacement (Instruction LI) Result s)
         else s))"


section \<open>Dead-value elimination\<close>

text \<open>\<open>IntegrationAttempt::localValueIsDead\<close> (lines 1105-1119).\<close>

definition localValueIsDead :: "IR \<Rightarrow> Ctx \<Rightarrow> IntegrationAttempt \<Rightarrow> Value \<Rightarrow> bool" where
  "localValueIsDead ir this s V =
     (if V \<in> deadValues s then True
      else if (case V of Instruction I \<Rightarrow> blockIsDead s (getParent ir I) | _ \<Rightarrow> False) then True
      else
        (let VC = getReplacement this s V in
         if VC \<noteq> getDefaultVC this V \<and> isAvailable ir (snd VC) then True else False))"

text \<open>\<open>IntegrationAttempt::shouldDIE\<close> (lines 1232-1262).\<close>

definition shouldDIE :: "IR \<Rightarrow> IntegrationAttempt \<Rightarrow> Value \<Rightarrow> bool" where
  "shouldDIE ir s V =
     (case V of
        Argument A \<Rightarrow> True
      | Instruction I \<Rightarrow>
          if getOpcode ir I = Call then getInlineAttempt s I \<noteq> None
          else
            (case getOpcode ir I of
               VAArg \<Rightarrow> False
             | Alloca \<Rightarrow> False
             | Invoke \<Rightarrow> False
             | Store \<Rightarrow> False
             | Br \<Rightarrow> False
             | IndirectBr \<Rightarrow> False
             | Switch \<Rightarrow> False
             | Unwind \<Rightarrow> False
             | Unreachable \<Rightarrow> False
             | _ \<Rightarrow> True)
      | _ \<Rightarrow> False)"

text \<open>\<open>IntegrationAttempt::queueDIE\<close> (lines 1264-1271).\<close>

definition queueDIE :: "IR \<Rightarrow> Ctx \<Rightarrow> Value \<Rightarrow> IntegrationAttempt \<Rightarrow> IntegrationAttempt" where
  "queueDIE ir this V s =
     (if \<not> shouldDIE ir s V then s
      else if \<not> localValueIsDead ir this s V then queue (QueueDIE this V) s
      else s)"

text \<open>
  \<open>InlineAttempt::isOwnCallUnused\<close> and \<open>IntegrationAttempt::valueIsDead\<close> (lines
  1187-1213).  A return instruction is dead when the call of its function root is
  unused in the caller; \<open>None\<close> where the source dereferences a null pointer.
\<close>

definition isOwnCallUnused :: "IR \<Rightarrow> IntegrationAttempt \<Rightarrow> bool" where
  "isOwnCallUnused ir root =
     (case parent root of
        None \<Rightarrow> False
      | Some p \<Rightarrow>
          (case variant root of
             IsInlineAttempt (Some CI) \<Rightarrow> \<not> usersMaybeLive ir p (Instruction CI)
           | _ \<Rightarrow> False))"

definition valueIsDead :: "IR \<Rightarrow> Heap \<Rightarrow> Ctx \<Rightarrow> IntegrationAttempt \<Rightarrow> Value \<Rightarrow> bool option" where
  "valueIsDead ir h this s V =
     (if (case V of Instruction I \<Rightarrow> getOpcode ir I = Ret | _ \<Rightarrow> False) then
        (case getFunctionRoot ir this of
           None \<Rightarrow> None
         | Some r \<Rightarrow>
             (case ctxAt h this s r of
                None \<Rightarrow> None
              | Some root \<Rightarrow> Some (isOwnCallUnused ir root)))
      else Some (\<not> usersMaybeLive ir this V))"

text \<open>
  \<open>IntegrationAttempt::tryKillValue\<close> (lines 1409-1450).  \<open>queueAllReturnInsts\<close> on
  the inline attempt and \<open>queueDIEOperands\<close> walk other contexts and only queue work
  through \<open>queueDIE\<close>; they are recorded as calls.
\<close>

definition tryKillValue :: "IR \<Rightarrow> Heap \<Rightarrow> Ctx \<Rightarrow> Value \<Rightarrow> IntegrationAttempt \<Rightarrow> IntegrationAttempt" where
  "tryKillValue ir h this V s =
     (if V \<in> deadValues s then s
      else if (case V of Instruction I \<Rightarrow> mayHaveSideEffects ir I | _ \<Rightarrow> False) then
        (case V of
           Instruction I \<Rightarrow>
             if getOpcode ir I = Call then
               (case valueIsDead ir h this s V of
                  None \<Rightarrow> abort s
                | Some True \<Rightarrow>
                    (case getInlineAttempt s I of
                       Some IA \<Rightarrow> queue (CallQueueAllReturnInsts IA) s
                     | None \<Rightarrow> s)
                | Some False \<Rightarrow> s)
             else s
         | _ \<Rightarrow> s)
      else
        (case valueIsDead ir h this s V of
           None \<Rightarrow> abort s
         | Some True \<Rightarrow> queue (CallQueueDIEOperands this V) (s\<lparr>deadValues := insert V (deadValues s)\<rparr>)
         | Some False \<Rightarrow> s))"

text \<open>
  \<open>IntegrationAttempt::walkOperand\<close> (lines 1273-1310) and
  \<open>PeelIteration::visitExitPHI\<close> (lines 1004-1012; the \<open>IntegrationAttempt\<close> version
  of lines 998-1002 fails its assertion).  Each yields the callbacks it makes, as the
  context and value handed to \<open>CB.callback\<close>, or to \<open>Visitor.visit\<close>; \<open>None\<close>
  is an empty \<open>Iterations\<close> vector, a dangling or null context, or a failed
  assertion.
\<close>

definition walkOperand ::
  "IR \<Rightarrow> Heap \<Rightarrow> Ctx \<Rightarrow> IntegrationAttempt \<Rightarrow> Value \<Rightarrow> (Ctx \<times> Value) list option" where
  "walkOperand ir h this s V =
     (let MyL = getLoopContext s; L = getValueScope ir V in
      if L \<noteq> MyL then
        (if MyL = [] \<or> contains MyL L then
           (case getPeelAttempt s L of
              None \<Rightarrow> Some []
            | Some Iterations \<Rightarrow>
                if Iterations = [] then None
                else
                  (case ctxAt h this s (last Iterations) of
                     None \<Rightarrow> None
                   | Some Final \<Rightarrow>
                       if iterStatus Final \<noteq> IterationStatusFinal then Some []
                       else Some [(last Iterations, V)]))
         else
           (case callWithScope ir this L of
              None \<Rightarrow> Some []
            | Some c \<Rightarrow> Some [(c, V)]))
      else Some [(this, V)])"

definition visitExitPHI :: "IR \<Rightarrow> IntegrationAttempt \<Rightarrow> InstId \<Rightarrow> (Ctx \<times> InstId) list option" where
  "visitExitPHI ir s UserI =
     (case variant s of
        IsInlineAttempt CI \<Rightarrow> None
      | IsPeelIteration L n \<Rightarrow>
          if iterStatus s = IterationStatusFinal then
            (if getOpcode ir UserI = PHI \<and> getLoopFor ir (getParent ir UserI) = tl L
             then (case parent s of None \<Rightarrow> None | Some p \<Rightarrow> Some [(p, UserI)])
             else None)
          else Some [])"

text \<open>
  Modelled from the spec: the loop of the pass that consumes the queue of values to
  reconsider is not in the source files.  Section 3 describes the worklist as pending
  items, among them "this value may now be dead, reconsider", that are "consumed to a
  fixpoint", and section 4.5 names \<open>tryKillValue\<close> as what reconsiders a value.
  \<open>takeDIE\<close> takes the first value that is queued for this context out of the pending
  work.  A step of the elimination either queues a value (\<open>queueDIE\<close>, as called by
  this or by another context) or hands the next queued value to \<open>tryKillValue\<close>.
\<close>

fun takeDIE :: "Ctx \<Rightarrow> Work list \<Rightarrow> (Value \<times> Work list) option" where
  "takeDIE this [] = None"
| "takeDIE this (w # ws) =
     (if (case w of QueueDIE c V \<Rightarrow> c = this | _ \<Rightarrow> False)
      then (case w of QueueDIE c V \<Rightarrow> Some (V, ws) | _ \<Rightarrow> None)
      else (case takeDIE this ws of None \<Rightarrow> None | Some r \<Rightarrow> Some (fst r, w # snd r)))"

datatype DIEStep = StepQueueDIE Value | StepTryKillNext

fun runDIEStep :: "IR \<Rightarrow> Heap \<Rightarrow> Ctx \<Rightarrow> DIEStep \<Rightarrow> IntegrationAttempt \<Rightarrow> IntegrationAttempt" where
  "runDIEStep ir h this (StepQueueDIE V) s = queueDIE ir this V s"
| "runDIEStep ir h this StepTryKillNext s =
     (case takeDIE this (pending s) of
        None \<Rightarrow> s
      | Some r \<Rightarrow> tryKillValue ir h this (fst r) (s\<lparr>pending := snd r\<rparr>))"

fun runDIE :: "IR \<Rightarrow> Heap \<Rightarrow> Ctx \<Rightarrow> DIEStep list \<Rightarrow> IntegrationAttempt \<Rightarrow> IntegrationAttempt" where
  "runDIE ir h this [] s = s"
| "runDIE ir h this (x # xs) s = runDIE ir h this xs (runDIEStep ir h this x s)"


section \<open>The cross-context walkers\<close>

text \<open>
  A \<open>BIC\<close> is an instruction cursor with its block and owning context
  (\<open>BasicBlock::iterator it; BasicBlock* BB; IntegrationAttempt* ctx\<close>).  The
  cursor is an index into the block's instruction list: \<open>BB->begin()\<close> is 0 and
  \<open>BB->end()\<close> is the length of the list.
\<close>

type_synonym BIC = "nat \<times> BasicBlock \<times> Ctx"






fun indexOfInst :: "InstId \<Rightarrow> InstId list \<Rightarrow> nat" where
  "indexOfInst I [] = 0"
| "indexOfInst I (x # xs) = (if x = I then 0 else Suc (indexOfInst I xs))"





definition blockEnd :: "IR \<Rightarrow> BasicBlock \<Rightarrow> nat" where
  "blockEnd ir BB = length (getInstructions ir BB)"


fun concatOpt :: "'a list option list \<Rightarrow> 'a list option" where
  "concatOpt [] = Some []"
| "concatOpt (None # xs) = None"
| "concatOpt (Some x # xs) = (case concatOpt xs of None \<Rightarrow> None | Some ys \<Rightarrow> Some (x @ ys))"

text \<open>
  The cursors that the context-specific methods hand to \<open>queueWalkFrom\<close>, in order.
  The methods recurse from a context into the iterations of a child loop, or into the
  parent; \<open>depth\<close> bounds that recursion (the depth of the context tree), and
  \<open>None\<close> is its exhaustion or a null or dangling pointer.

  \<open>queueLoopExitingBlocksBW\<close> (lines 21-47), \<open>queueNormalPredecessorsBW\<close> (lines
  88-135, where the source writes \<open>ThisStart.ctx\<close>, \<open>ThisStart.BB\<close> and \<open>this\<close>
  for the context, \<open>FromBB\<close> and \<open>Walker\<close>), and \<open>queuePredecessorsBW\<close> of
  \<open>InlineAttempt\<close> (lines 49-62) and \<open>PeelIteration\<close> (lines 64-86).
\<close>

fun queueLoopExitingBlocksBW ::
  "nat \<Rightarrow> IR \<Rightarrow> Heap \<Rightarrow> Ctx \<Rightarrow> BasicBlock \<Rightarrow> BasicBlock \<Rightarrow> Loop \<Rightarrow> BIC list option" where
  "queueLoopExitingBlocksBW 0 ir h this ExitedBB ExitingBB ExitingBBL = None"
| "queueLoopExitingBlocksBW (Suc depth) ir h this ExitedBB ExitingBB ExitingBBL =
     (case h this of
        None \<Rightarrow> None
      | Some s \<Rightarrow>
          (let MyL = getLoopContext s in
           if MyL = ExitingBBL then
             (if \<not> edgeIsDead s ExitingBB ExitedBB
              then Some [(blockEnd ir ExitingBB, ExitingBB, this)] else Some [])
           else
             (case immediateChildLoop MyL ExitingBBL of
                None \<Rightarrow> None
              | Some ChildL \<Rightarrow>
                  (case getPeelAttempt s ChildL of
                     Some Iterations \<Rightarrow>
                       concatOpt (map (\<lambda>c. queueLoopExitingBlocksBW depth ir h c ExitedBB ExitingBB ExitingBBL)
                                    Iterations)
                   | None \<Rightarrow> Some [(blockEnd ir ExitingBB, ExitingBB, this)]))))"

definition queueNormalPredecessorsBW ::
  "nat \<Rightarrow> IR \<Rightarrow> Heap \<Rightarrow> Ctx \<Rightarrow> IntegrationAttempt \<Rightarrow> BasicBlock \<Rightarrow> BIC list option" where
  "queueNormalPredecessorsBW depth ir h this s FromBB =
     (let CtxLoop = getLoopContext s;
          FromBBLoop = getBlockScopeVariant ir FromBB
      in concatOpt
           (map (\<lambda>BB.
                   if CtxLoop \<noteq> FromBBLoop \<or> getBlockScopeVariant ir BB = CtxLoop then
                     (if edgeIsDead s BB FromBB then Some []
                      else Some [(blockEnd ir BB, BB, this)])
                   else queueLoopExitingBlocksBW depth ir h this FromBB BB (getBlockScopeVariant ir BB))
              (predecessors ir FromBB)))"

definition queuePredecessorsBW ::
  "nat \<Rightarrow> IR \<Rightarrow> Heap \<Rightarrow> Ctx \<Rightarrow> BasicBlock \<Rightarrow> BIC list option" where
  "queuePredecessorsBW depth ir h this FromBB =
     (case h this of
        None \<Rightarrow> None
      | Some s \<Rightarrow>
          (case variant s of
             IsInlineAttempt CI \<Rightarrow>
               if FromBB = getEntryBlock ir (F s) \<and> parent s \<noteq> None then
                 (case (parent s, CI) of
                    (Some p, Some ci) \<Rightarrow>
                      Some [(indexOfInst ci (getInstructions ir (getParent ir ci)), getParent ir ci, p)]
                  | _ \<Rightarrow> None)
               else queueNormalPredecessorsBW depth ir h this s FromBB
           | IsPeelIteration L iterationCount \<Rightarrow>
               if FromBB = getHeader ir L then
                 (if iterationCount = 0 then
                    (case (getLoopPreheader ir L, parent s) of
                       (Some pre, Some p) \<Rightarrow> Some [(blockEnd ir pre, pre, p)]
                     | _ \<Rightarrow> None)
                  else
                    (case (getLoopLatch ir L, parentPA h this s L) of
                       (Some latch, Some Iterations) \<Rightarrow>
                         if iterationCount - 1 < length Iterations
                         then Some [(blockEnd ir latch, latch, Iterations ! (iterationCount - 1))]
                         else None
                     | _ \<Rightarrow> None))
               else queueNormalPredecessorsBW depth ir h this s FromBB))"


fun queueSuccessorsFWFalling ::
  "nat \<Rightarrow> Heap \<Rightarrow> Ctx \<Rightarrow> BasicBlock \<Rightarrow> Loop \<Rightarrow> BIC list option" where
  "queueSuccessorsFWFalling 0 h this BB SuccLoop = None"
| "queueSuccessorsFWFalling (Suc depth) h this BB SuccLoop =
     (case h this of
        None \<Rightarrow> None
      | Some s \<Rightarrow>
          if SuccLoop = getLoopContext s then Some [(0, BB, this)]
          else
            (case parent s of
               None \<Rightarrow> None
             | Some p \<Rightarrow> queueSuccessorsFWFalling depth h p BB SuccLoop))"












section \<open>The inlining and peeling heuristics passes (LoopPeelHeuristics.cpp)\<close>

text \<open>
  LoopPeelHeuristics.cpp declares its own class \<open>InlineAttempt\<close> (lines 148-230),
  which drives a \<open>HypotheticalConstantFolder\<close> over the shadow tables
  \<open>initialConsts\<close> and \<open>initialIgnoreEdges\<close>.  The record has the fields that the
  functions below use; \<open>FCalled\<close> is the field \<open>F\<close>, and \<open>callSite\<close> is the call
  that \<open>revSubAttempts\<close> of the parent maps this attempt to.
\<close>

record InlineAttempt =
  FCalled :: nat
  callSite :: "InstId option"
  initialConsts :: "Value \<rightharpoonup> Value"
  initialIgnoreEdges :: "(BasicBlock \<times> BasicBlock) set"
  returnValueAlreadyKnown :: bool
  returnVal :: "Value option"

text \<open>
  Modelled from the spec: the static \<open>HypotheticalConstantFolder::blockIsDead(BB,
  ignoreEdges)\<close> is not in the source files.  Section 4.3: "A block is Dead iff every
  incoming edge is dead (the entry block is never dead)"; here the dead edges are the
  ignored ones.
\<close>

definition blockIsDeadHCF :: "IR \<Rightarrow> nat \<Rightarrow> (BasicBlock \<times> BasicBlock) set \<Rightarrow> BasicBlock \<Rightarrow> bool" where
  "blockIsDeadHCF ir Fn ignoreEdges BB =
     (BB \<noteq> getEntryBlock ir Fn \<and> list_all (\<lambda>PI. (PI, BB) \<in> ignoreEdges) (predecessors ir BB))"

text \<open>
  The search for the return value in \<open>InlineAttempt::localFoldConstants\<close> (lines
  802-835).  \<open>scanBlockReturns\<close> is the inner loop over the instructions of one live
  block, with the variables \<open>(foundReturnInst, returnVal)\<close>; both \<open>break\<close>
  statements leave this inner loop only.  \<open>scanFunctionReturns\<close> is the outer loop over
  the blocks.  \<open>None\<close>: a \<open>ret\<close> without an operand, where \<open>dyn_cast\<close> is applied
  to a null pointer.
\<close>

definition constantOf :: "(Value \<rightharpoonup> Value) \<Rightarrow> Value \<Rightarrow> Value option" where
  "constantOf consts V = (if isaConstant V then Some V else consts V)"

fun scanBlockReturns ::
  "IR \<Rightarrow> (Value \<rightharpoonup> Value) \<Rightarrow> InstId list \<Rightarrow> bool \<times> Value option \<Rightarrow> (bool \<times> Value option) option" where
  "scanBlockReturns ir consts [] st = Some st"
| "scanBlockReturns ir consts (BI # BIs) st =
     (if getOpcode ir BI = Ret then
        (if fst st then Some (True, None)
         else
           (case getOperands ir BI of
              [] \<Rightarrow> None
            | ReturnValue # rest \<Rightarrow>
                (case constantOf consts ReturnValue of
                   Some C \<Rightarrow> scanBlockReturns ir consts BIs (True, Some C)
                 | None \<Rightarrow> Some (True, snd st))))
      else scanBlockReturns ir consts BIs st)"

fun scanFunctionReturns ::
  "IR \<Rightarrow> nat \<Rightarrow> (BasicBlock \<times> BasicBlock) set \<Rightarrow> (Value \<rightharpoonup> Value) \<Rightarrow> BasicBlock list
     \<Rightarrow> bool \<times> Value option \<Rightarrow> (bool \<times> Value option) option" where
  "scanFunctionReturns ir Fn ignoreEdges consts [] st = Some st"
| "scanFunctionReturns ir Fn ignoreEdges consts (FI # FIs) st =
     (if blockIsDeadHCF ir Fn ignoreEdges FI then scanFunctionReturns ir Fn ignoreEdges consts FIs st
      else
        (case scanBlockReturns ir consts (getInstructions ir FI) st of
           None \<Rightarrow> None
         | Some st' \<Rightarrow> scanFunctionReturns ir Fn ignoreEdges consts FIs st'))"

text \<open>
  \<open>InlineAttempt::localFoldConstants\<close> (lines 793-837).  \<open>H.getBenefit(args)\<close> and
  \<open>considerCalls()\<close> run the constant folder and the sub-attempts, whose code is not
  in the source files; their effect on this attempt is the argument \<open>runFolder\<close>.
\<close>

definition localFoldConstants ::
  "IR \<Rightarrow> (InlineAttempt \<Rightarrow> InlineAttempt) \<Rightarrow> InlineAttempt \<Rightarrow> InlineAttempt option" where
  "localFoldConstants ir runFolder IA0 =
     (let IA = runFolder IA0 in
      if returnVal IA = None \<and> getReturnType ir (FCalled IA) \<noteq> VoidTy then
        (case scanFunctionReturns ir (FCalled IA) (initialIgnoreEdges IA) (initialConsts IA)
                (getBlocks ir (FCalled IA)) (False, returnVal IA) of
           None \<Rightarrow> None
         | Some st \<Rightarrow> Some (IA\<lparr>returnVal := snd st\<rparr>))
      else Some IA)"

text \<open>
  The end of \<open>InlineAttempt::considerSubAttempt\<close> (lines 737-745): a return value
  that the child \<open>IA\<close> found is handed to the caller's folding as the constant of the
  call instruction \<open>CI\<close>, once.
\<close>

definition integrateReturnValue :: "InstId \<Rightarrow> InlineAttempt \<Rightarrow> InlineAttempt \<times> (Value \<times> Value) list" where
  "integrateReturnValue CI IA =
     (if \<not> returnValueAlreadyKnown IA then
        (case returnVal IA of
           Some C \<Rightarrow> (IA\<lparr>returnValueAlreadyKnown := True\<rparr>, [(Instruction CI, C)])
         | None \<Rightarrow> (IA, []))
      else (IA, []))"

text \<open>The live \<open>ret\<close> instructions of a function, in the order the search meets
  them.\<close>

definition liveReturns :: "IR \<Rightarrow> nat \<Rightarrow> (BasicBlock \<times> BasicBlock) set \<Rightarrow> InstId list" where
  "liveReturns ir Fn ignoreEdges =
     filter (\<lambda>BI. getOpcode ir BI = Ret)
       (concat (map (getInstructions ir)
                  (filter (\<lambda>FI. \<not> blockIsDeadHCF ir Fn ignoreEdges FI) (getBlocks ir Fn))))"

subsection \<open>Queries in the caller: \<open>tryResolveLoadAtChildSite\<close>\<close>












definition runOnFunction :: "('r \<Rightarrow> 'r) \<Rightarrow> 'r list \<Rightarrow> 'r list \<times> bool" where
  "runOnFunction simulate topLevelLoops = (map simulate topLevelLoops, False)"

section \<open>The properties in the spec's words, and example programs\<close>

text \<open>
  The spec's table for a comparison \<open>handle P c\<close> of a symbolic file handle with a
  constant whose signed value is \<open>c\<close>: the boolean it folds to, if any.
  \<open>spec_mirror\<close> is the predicate of the same comparison with its operands swapped,
  \<open>foldedVC\<close> the folded constant as a \<open>ValCtx\<close>, and \<open>icmp\<close> the meaning of an
  equality or signed predicate on integers.
\<close>

definition spec_handleCmpFold :: "Predicate \<Rightarrow> int \<Rightarrow> bool option" where
  "spec_handleCmpFold P c =
     (case P of
        ICMP_EQ \<Rightarrow> if c < 0 then Some False else None
      | ICMP_NE \<Rightarrow> if c < 0 then Some True else None
      | ICMP_SGT \<Rightarrow> if c < 0 then Some True else None
      | ICMP_SGE \<Rightarrow> if c \<le> 0 then Some True else None
      | ICMP_SLT \<Rightarrow> if c \<le> 0 then Some False else None
      | ICMP_SLE \<Rightarrow> if c < 0 then Some False else None
      | _ \<Rightarrow> None)"

definition spec_mirror :: "Predicate \<Rightarrow> Predicate" where
  "spec_mirror P =
     (case P of
        ICMP_SGT \<Rightarrow> ICMP_SLT | ICMP_SLT \<Rightarrow> ICMP_SGT
      | ICMP_SGE \<Rightarrow> ICMP_SLE | ICMP_SLE \<Rightarrow> ICMP_SGE
      | ICMP_UGT \<Rightarrow> ICMP_ULT | ICMP_ULT \<Rightarrow> ICMP_UGT
      | ICMP_UGE \<Rightarrow> ICMP_ULE | ICMP_ULE \<Rightarrow> ICMP_UGE
      | _ \<Rightarrow> P)"

definition foldedVC :: "bool option \<Rightarrow> ValCtx" where
  "foldedVC r = (case r of Some True \<Rightarrow> const_vc getTrue | Some False \<Rightarrow> const_vc getFalse | None \<Rightarrow> VCNull)"

definition icmp :: "Predicate \<Rightarrow> int \<Rightarrow> int \<Rightarrow> bool option" where
  "icmp P a b =
     (case P of
        ICMP_EQ \<Rightarrow> Some (a = b)
      | ICMP_NE \<Rightarrow> Some (a \<noteq> b)
      | ICMP_SGT \<Rightarrow> Some (a > b)
      | ICMP_SGE \<Rightarrow> Some (a \<ge> b)
      | ICMP_SLT \<Rightarrow> Some (a < b)
      | ICMP_SLE \<Rightarrow> Some (a \<le> b)
      | _ \<Rightarrow> None)"

definition baseIR :: IR where
  "baseIR =
     \<lparr>getEntryBlock = (\<lambda>Fn. 0), getBlocks = (\<lambda>Fn. []), getInstructions = (\<lambda>BB. []),
      predecessors = (\<lambda>BB. []), successors = (\<lambda>BB. []), getOpcode = (\<lambda>I. Unreachable),
      getParent = (\<lambda>I. 0), getOperands = (\<lambda>I. []),
      getIncomingValueForBlock = (\<lambda>I BB. Constant 0), getPredicate = (\<lambda>I. ICMP_EQ),
      getCondition = (\<lambda>I. None), findCaseValue = (\<lambda>I V. 0), getType = (\<lambda>V. OtherTy 0),
      getReturnType = (\<lambda>Fn. VoidTy),
      getSrcTy = (\<lambda>I. OtherTy 0), getDestTy = (\<lambda>I. OtherTy 0), mayHaveSideEffects = (\<lambda>I. False),
      isIdentifiedObject = (\<lambda>V. False), getLoopFor = (\<lambda>BB. []), getHeader = (\<lambda>L. 0),
      getLoopPreheader = (\<lambda>L. None), getLoopLatch = (\<lambda>L. None), getExitEdges = (\<lambda>L. []),
      getEdgeScope = (\<lambda>B1 B2. []), getValueScope = (\<lambda>V. []), getBlockScopeVariant = (\<lambda>BB. []),
      ConstantFoldCompareInstOperands = (\<lambda>P a b. None), ConstantFoldLoadFromConstPtr = (\<lambda>a. None),
      ConstantFoldInstOperands = (\<lambda>I ops. None),
      getUltimateUnderlyingObject = (\<lambda>c V. (None, None)), tryGetReturnValue = (\<lambda>c. (None, None)),
      getImprovedCallArgument = (\<lambda>c A. (None, None)), tryForwardLoad = (\<lambda>c LI. (None, None)),
      createInlineAttempt = (\<lambda>c CI. None), createPeelAttempt = (\<lambda>c L. None),
      isAvailable = (\<lambda>c. True), callWithScope = (\<lambda>c L. None), getFunctionRoot = (\<lambda>c. None),
      usersMaybeLive = (\<lambda>c V. True)\<rparr>"

definition baseCtx :: IntegrationAttempt where
  "baseCtx =
     \<lparr>variant = IsInlineAttempt None, F = 0, parent = None, iterStatus = IterationStatusUnknown,
      deadBlocks = {}, certainBlocks = {}, deadEdges = {}, improvedValues = Map.empty,
      deadValues = {}, forwardableOpenCalls = {}, inlineChildren = Map.empty,
      peelChildren = Map.empty, CFGBlockedLoads = [], CFGBlockedOpens = [], pending = [],
      aborted = False\<rparr>"

definition fdIR :: IR where
  "fdIR = baseIR\<lparr>getOpcode := (\<lambda>I. if I = 3 then Call else ICmp),
                  getOperands := (\<lambda>I. if I = 5 then [Instruction 3, ConstantInt 32 4294967295]
                                        else [ConstantInt 64 0, Instruction 3]),
                  getPredicate := (\<lambda>I. if I = 5 then ICMP_SGT else ICMP_SGT)\<rparr>"

definition fdCtx :: IntegrationAttempt where
  "fdCtx = baseCtx\<lparr>forwardableOpenCalls := {3}\<rparr>"

text \<open>
  \<open>edgesGrow s s'\<close>: from \<open>s\<close> to \<open>s'\<close> the dead-edge set has only grown, and
  the block marks, the improvements, the dead values and the identity of the context
  are the same.
\<close>

definition edgesGrow :: "IntegrationAttempt \<Rightarrow> IntegrationAttempt \<Rightarrow> bool" where
  "edgesGrow s s' =
     (deadBlocks s' = deadBlocks s \<and> certainBlocks s' = certainBlocks s
      \<and> improvedValues s' = improvedValues s \<and> deadValues s' = deadValues s
      \<and> variant s' = variant s \<and> F s' = F s \<and> parent s' = parent s
      \<and> iterStatus s' = iterStatus s \<and> deadEdges s \<subseteq> deadEdges s')"

text \<open>
  Example programs for the liveness propagator.  \<open>baseIR\<close> and \<open>baseCtx\<close> (above)
  are an empty module and a fresh root context.  \<open>diamondIR\<close> is the diamond
  \<open>0 \<rightarrow> {2, 3} \<rightarrow> 4\<close> with entry block 0; in \<open>diamondCtx\<close> the edge from 0
  to 2 has been marked dead.
\<close>

definition diamondIR :: IR where
  "diamondIR =
     baseIR\<lparr>predecessors := (\<lambda>BB. if BB = 2 \<or> BB = 3 then [0] else if BB = 4 then [2, 3] else []),
            successors := (\<lambda>BB. if BB = 0 then [2, 3] else if BB = 2 \<or> BB = 3 then [4] else [])\<rparr>"

definition diamondCtx :: IntegrationAttempt where
  "diamondCtx = baseCtx\<lparr>deadEdges := {(0, 2)}\<rparr>"

text \<open>
  The operations of the fixpoint that the pass takes from its queues and runs on a
  context: \<open>checkBlock\<close>, \<open>tryEvaluate\<close>, \<open>checkLoad\<close> and \<open>tryKillValue\<close>.
\<close>

datatype Operation =
    OpCheckBlock BasicBlock
  | OpTryEvaluate Value
  | OpCheckLoad InstId
  | OpTryKillValue Value

fun runOperation :: "IR \<Rightarrow> Heap \<Rightarrow> Ctx \<Rightarrow> Operation \<Rightarrow> IntegrationAttempt \<Rightarrow> IntegrationAttempt" where
  "runOperation ir h this (OpCheckBlock BB) s = checkBlock ir this BB s"
| "runOperation ir h this (OpTryEvaluate V) s = tryEvaluate ir h this V s"
| "runOperation ir h this (OpCheckLoad LI) s = checkLoad ir this LI s"
| "runOperation ir h this (OpTryKillValue V) s = tryKillValue ir h this V s"

text \<open>A run: the operations in turn, each with the module's oracles and the other
  contexts as they are when it runs.\<close>

fun runOperations :: "Ctx \<Rightarrow> (IR \<times> Heap \<times> Operation) list \<Rightarrow> IntegrationAttempt \<Rightarrow> IntegrationAttempt" where
  "runOperations this [] s = s"
| "runOperations this (x # xs) s =
     runOperations this xs (runOperation (fst x) (fst (snd x)) this (snd (snd x)) s)"

text \<open>
  \<open>branchIR\<close>: the entry block 0 ends in the conditional branch 10 on the constant
  \<open>true\<close>, with successors 2 (taken) and 3; block 3 holds the addition 7 of two
  constants, which the host's folder evaluates to 5, and the branch 11.
\<close>

definition branchIR :: IR where
  "branchIR =
     baseIR\<lparr>getInstructions := (\<lambda>BB. if BB = 0 then [10] else if BB = 3 then [7, 11] else []),
            predecessors := (\<lambda>BB. if BB = 2 \<or> BB = 3 then [0] else []),
            successors := (\<lambda>BB. if BB = 0 then [2, 3] else []),
            getOpcode := (\<lambda>I. if I = 7 then BinaryOp 0 else Br),
            getParent := (\<lambda>I. if I = 10 then 0 else 3),
            getOperands := (\<lambda>I. if I = 7 then [ConstantInt 32 2, ConstantInt 32 3] else []),
            getCondition := (\<lambda>I. if I = 10 then Some (ConstantInt 1 1) else None),
            ConstantFoldInstOperands := (\<lambda>I ops. if I = 7 then Some (ConstantInt 32 5) else None)\<rparr>"

text \<open>
  The opcodes that the amended eligibility rule excludes: the spec's list without
  \<open>return\<close>, and with \<open>unwind\<close>.
\<close>

definition spec_neverEliminated :: "Opcode set" where
  "spec_neverEliminated = {Br, Switch, Unreachable, IndirectBr, Unwind, Alloca, Store, VAArg, Invoke}"

text \<open>
  \<open>retIR\<close>: the return instruction 9 and the store 8 of a function that is inlined
  at the call 4 of its caller; no user keeps the call 4 alive.  \<open>retCtx\<close> is the
  inline attempt for that call, with the caller's context 0 as its parent.
\<close>

definition retIR :: IR where
  "retIR =
     baseIR\<lparr>getOpcode := (\<lambda>I. if I = 9 then Ret else if I = 8 then Store else if I = 4 then Call
                               else Unreachable),
            mayHaveSideEffects := (\<lambda>I. I = 8),
            getFunctionRoot := (\<lambda>c. Some c),
            usersMaybeLive := (\<lambda>c V. V \<noteq> Instruction 4)\<rparr>"

definition retCtx :: IntegrationAttempt where
  "retCtx = baseCtx\<lparr>variant := IsInlineAttempt (Some 4), parent := Some 0\<rparr>"

text \<open>
  \<open>argIR k\<close>: a module in which the caller's value for every argument of the inlined
  call is, at the time of asking, the constant \<open>k\<close> of 32 bits.
\<close>

definition argIR :: "int \<Rightarrow> IR" where
  "argIR k = baseIR\<lparr>getImprovedCallArgument := (\<lambda>c A. const_vc (ConstantInt 32 k))\<rparr>"

text \<open>
  Words for the PHI properties.  A PHI is a header PHI of a context when the context is
  a peel iteration and the PHI stands in the header of its loop; \<open>livePreds\<close> are the
  predecessors of the PHI's block whose edge into the block is not dead, in order;
  \<open>comesFromChildLoop\<close> is the test of line 404 on the value that flows in from a
  predecessor.
\<close>

definition isHeaderPHI :: "IR \<Rightarrow> IntegrationAttempt \<Rightarrow> InstId \<Rightarrow> bool" where
  "isHeaderPHI ir s PN =
     (case variant s of
        IsInlineAttempt CI \<Rightarrow> False
      | IsPeelIteration L n \<Rightarrow> getParent ir PN = getHeader ir L)"

definition livePreds :: "IR \<Rightarrow> IntegrationAttempt \<Rightarrow> InstId \<Rightarrow> BasicBlock list" where
  "livePreds ir s PN =
     filter (\<lambda>PI. \<not> edgeIsDead s PI (getParent ir PN)) (predecessors ir (getParent ir PN))"

definition comesFromChildLoop :: "IR \<Rightarrow> InstId \<Rightarrow> BasicBlock \<Rightarrow> bool" where
  "comesFromChildLoop ir PN PI =
     (let phiLoop = getValueScope ir (Instruction PN);
          predLoop = getValueScope ir (getIncomingValueForBlock ir PN PI)
      in (phiLoop = [] \<and> predLoop \<noteq> []) \<or> (phiLoop \<noteq> [] \<and> \<not> contains predLoop phiLoop))"





text \<open>
  \<open>loopIR\<close>: the loop \<open>[7]\<close> with preheader 0, header 2 and latch 3, and the exit
  block 4 after the latch.  The header PHI 20 receives the constant 0 from the preheader
  and the instruction 22 (defined in the loop) from the latch; the exit PHI 30 in block
  4 receives the instruction 22 from block 3.

  \<open>loopHeap\<close>: the root context 0 owns the peel attempt of the loop with the
  iterations 5 and 6; in iteration 5 the instruction 22 is improved to the constant 1,
  and iteration 6 is not final.
\<close>

definition loopIR :: IR where
  "loopIR =
     baseIR\<lparr>predecessors := (\<lambda>BB. if BB = 2 then [0, 3] else if BB = 3 then [2] else if BB = 4 then [3] else []),
            successors := (\<lambda>BB. if BB = 0 then [2] else if BB = 2 then [3] else if BB = 3 then [2, 4] else []),
            getInstructions := (\<lambda>BB. if BB = 2 then [20] else if BB = 3 then [22, 23] else if BB = 4 then [30] else [24]),
            getOpcode := (\<lambda>I. if I = 20 \<or> I = 30 then PHI else if I = 22 then BinaryOp 0 else Br),
            getParent := (\<lambda>I. if I = 20 then 2 else if I = 30 then 4 else 3),
            getIncomingValueForBlock := (\<lambda>I BB. if BB = 0 then ConstantInt 32 0 else Instruction 22),
            getLoopFor := (\<lambda>BB. if BB = 2 \<or> BB = 3 then [7] else []),
            getHeader := (\<lambda>L. 2),
            getLoopPreheader := (\<lambda>L. Some 0),
            getLoopLatch := (\<lambda>L. Some 3),
            getValueScope := (\<lambda>V. if V = Instruction 20 \<or> V = Instruction 22 then [7] else []),
            getBlockScopeVariant := (\<lambda>BB. if BB = 2 \<or> BB = 3 then [7] else [])\<rparr>"

definition loopRoot :: IntegrationAttempt where
  "loopRoot = baseCtx\<lparr>peelChildren := [[7] \<mapsto> [5, 6]]\<rparr>"

definition loopIter0 :: IntegrationAttempt where
  "loopIter0 =
     baseCtx\<lparr>variant := IsPeelIteration [7] 0, parent := Some 0,
             improvedValues := [Instruction 22 \<mapsto> const_vc (ConstantInt 32 1)]\<rparr>"

definition loopIter1 :: IntegrationAttempt where
  "loopIter1 = baseCtx\<lparr>variant := IsPeelIteration [7] 1, parent := Some 0\<rparr>"

definition loopHeap :: Heap where
  "loopHeap = [0 \<mapsto> loopRoot, 5 \<mapsto> loopIter0, 6 \<mapsto> loopIter1]"

text \<open>
  \<open>returnsIR\<close>: the function 0 with the entry block 0, which branches to the blocks
  2 and 3; block 2 returns the argument 0 (instruction 20) and block 3 returns the
  constant 7 (instruction 30).  \<open>calleeAttempt\<close> is the attempt to inline it at the call
  4 with the argument known to be 5 and the edge from 0 to 3 ignored.
\<close>

definition returnsIR :: IR where
  "returnsIR =
     baseIR\<lparr>getBlocks := (\<lambda>Fn. [0, 2, 3]),
            getInstructions := (\<lambda>BB. if BB = 0 then [10] else if BB = 2 then [20] else if BB = 3 then [30] else []),
            predecessors := (\<lambda>BB. if BB = 2 \<or> BB = 3 then [0] else []),
            successors := (\<lambda>BB. if BB = 0 then [2, 3] else []),
            getOpcode := (\<lambda>I. if I = 10 then Br else if I = 4 then Call else Ret),
            getParent := (\<lambda>I. if I = 20 then 2 else if I = 30 then 3 else 0),
            getOperands := (\<lambda>I. if I = 20 then [Argument 0] else if I = 30 then [ConstantInt 32 7] else []),
            getReturnType := (\<lambda>Fn. IntegerTy 32),
            tryGetReturnValue := (\<lambda>c. if c = 8 then const_vc (ConstantInt 32 5) else VCNull)\<rparr>"

definition calleeAttempt :: InlineAttempt where
  "calleeAttempt =
     \<lparr>FCalled = 0, callSite = Some 4, initialConsts = [Argument 0 \<mapsto> ConstantInt 32 5],
      initialIgnoreEdges = {(0, 3)}, returnValueAlreadyKnown = False, returnVal = None\<rparr>"

text \<open>
  The return value in the spec's words, from the live \<open>ret\<close> instructions of the
  callee: the improvement of the operand of the only one, and otherwise unknown.
\<close>

definition spec_returnValue :: "IR \<Rightarrow> (Value \<rightharpoonup> Value) \<Rightarrow> InstId list \<Rightarrow> Value option" where
  "spec_returnValue ir consts rets =
     (case rets of
        [RI] \<Rightarrow> constantOf consts (hd (getOperands ir RI))
      | _ \<Rightarrow> None)"











section \<open>Verified properties\<close>

subsection \<open>Integer constants\<close>

lemma Rep_APInt_get: "Rep_APInt (APInt_get w v) = (w, v mod 2 ^ w)"
  by (simp add: APInt_get_def Abs_APInt_inverse)

lemma getBitWidth_APInt_get [simp]: "getBitWidth (APInt_get w v) = w"
  by (simp add: getBitWidth_def Rep_APInt_get)

lemma getZExtValue_APInt_get [simp]: "getZExtValue (APInt_get w v) = v mod 2 ^ w"
  by (simp add: getZExtValue_def Rep_APInt_get)

lemma APInt_get_eq_iff [simp]:
  "APInt_get w a = APInt_get w' b \<longleftrightarrow> w = w' \<and> a mod 2 ^ w = b mod 2 ^ w"
proof
  assume "APInt_get w a = APInt_get w' b"
  then have "Rep_APInt (APInt_get w a) = Rep_APInt (APInt_get w' b)" by simp
  then show "w = w' \<and> a mod 2 ^ w = b mod 2 ^ w" by (auto simp: Rep_APInt_get)
next
  assume "w = w' \<and> a mod 2 ^ w = b mod 2 ^ w"
  then show "APInt_get w a = APInt_get w' b" by (auto simp: APInt_get_def)
qed

lemma APInt_get_surj: "APInt_get (getBitWidth a) (getZExtValue a) = a"
proof -
  have "0 \<le> snd (Rep_APInt a) \<and> snd (Rep_APInt a) < 2 ^ fst (Rep_APInt a)"
    using Rep_APInt [of a] by simp
  then have "snd (Rep_APInt a) mod 2 ^ fst (Rep_APInt a) = snd (Rep_APInt a)"
    by simp
  then show ?thesis
    by (simp add: APInt_get_def getBitWidth_def getZExtValue_def Rep_APInt_inverse)
qed

lemma ConstantIntVal_is_ConstantInt: "ConstantIntVal a = ConstantInt (getBitWidth a) (getZExtValue a)"
  by (simp add: ConstantInt_def APInt_get_surj)

lemma ConstantInt_eq_iff [simp]:
  "ConstantInt w a = ConstantInt w' b \<longleftrightarrow> w = w' \<and> a mod 2 ^ w = b mod 2 ^ w"
  by (simp add: ConstantInt_def)

lemma ConstantInt_distinct [simp]:
  "ConstantInt w v \<noteq> Constant n" "Constant n \<noteq> ConstantInt w v"
  "ConstantInt w v \<noteq> Argument n" "Argument n \<noteq> ConstantInt w v"
  "ConstantInt w v \<noteq> Instruction n" "Instruction n \<noteq> ConstantInt w v"
  "ConstantInt w v \<noteq> BasicBlockValue n" "BasicBlockValue n \<noteq> ConstantInt w v"
  by (simp_all add: ConstantInt_def)

lemma isaConstant_ConstantInt [simp]: "isaConstant (ConstantInt w v)"
  by (simp add: ConstantInt_def)

lemma case_Value_ConstantInt [simp]:
  "case_Value f1 f2 f3 f4 f5 (ConstantInt w v) = f1 (APInt_get w v)"
  by (simp add: ConstantInt_def)

lemma getSExtValue_mod [simp]: "getSExtValue w (v mod 2 ^ w) = getSExtValue w v"
  by (simp add: getSExtValue_def)


subsection \<open>Comparisons against symbolic file handles\<close>

lemma tryFoldOpenCmp_left:
  "w \<le> 64 \<Longrightarrow> tryFoldOpenCmp P w v False = foldedVC (spec_handleCmpFold P (getSExtValue w v))"
  by (cases P) (simp_all add: tryFoldOpenCmp_def spec_handleCmpFold_def foldedVC_def Let_def)

lemma tryFoldOpenCmp_right:
  "w \<le> 64 \<Longrightarrow> tryFoldOpenCmp P w v True = foldedVC (spec_handleCmpFold (spec_mirror P) (getSExtValue w v))"
  by (cases P) (simp_all add: tryFoldOpenCmp_def spec_handleCmpFold_def spec_mirror_def foldedVC_def Let_def)

lemma tryFoldOpenCmp_wide:
  "64 < w \<Longrightarrow> tryFoldOpenCmp P w v flip = VCNull"
  by (simp add: tryFoldOpenCmp_def)

lemma spec_handleCmpFold_sound:
  "0 \<le> handle \<Longrightarrow> spec_handleCmpFold P c = Some b \<Longrightarrow> icmp P handle c = Some b"
  by (cases P) (auto simp: spec_handleCmpFold_def icmp_def split: if_splits)

lemma spec_mirror_sound:
  "icmp (spec_mirror P) a b = icmp P b a"
  by (cases P) (auto simp: spec_mirror_def icmp_def)

lemma evaluateCmp_handle:
  assumes ops: "getOperands ir CmpI = [x, y]"
  shows "(isOpenCallVC ir h this s (getReplacement this s x) \<and>
          fst (getReplacement this s y) = Some (ConstantInt w v) \<longrightarrow>
            evaluateCmp ir h this s CmpI =
              (if w \<le> 64 then foldedVC (spec_handleCmpFold (getPredicate ir CmpI) (getSExtValue w v))
               else VCNull, False))
       \<and> (\<not> isOpenCallVC ir h this s (getReplacement this s x) \<and>
          isOpenCallVC ir h this s (getReplacement this s y) \<and>
          fst (getReplacement this s x) = Some (ConstantInt w v) \<longrightarrow>
            evaluateCmp ir h this s CmpI =
              (if w \<le> 64 then foldedVC (spec_handleCmpFold (spec_mirror (getPredicate ir CmpI)) (getSExtValue w v))
               else VCNull, False))"
  using ops
  by (auto simp: evaluateCmp_def Let_def tryFoldOpenCmp_left tryFoldOpenCmp_right tryFoldOpenCmp_wide)

lemma tryEvaluateResultIA_cmp:
  "getOpcode ir CmpI = ICmp \<Longrightarrow> shouldTryEvaluate ir this s (Instruction CmpI) \<Longrightarrow>
   snd (evaluateCmp ir h this s CmpI) = False \<Longrightarrow>
   tryEvaluateResultIA ir h this (Instruction CmpI) s = (fst (evaluateCmp ir h this s CmpI), s)"
  by (simp add: tryEvaluateResultIA_def Let_def)

text \<open>
  C9.  A comparison instruction that \<open>tryEvaluateResult\<close> evaluates, one of whose
  operands is improved to a forwardable open call (a symbolic file handle) and the
  other to a constant integer of width \<open>w\<close> and bits \<open>v\<close>, folds exactly as the
  spec's table says for the signed value of the constant: with the handle on the left
  by the predicate itself, with the handle on the right by the mirrored predicate;
  wherever the table has no entry, and for constants wider than 64 bits, the result is
  \<open>VCNull\<close> (no fold).  The context is left as it was.
\<close>

theorem symbolic_handle_comparison_folding:
  assumes "getOpcode ir CmpI = ICmp"
    and "shouldTryEvaluate ir this s (Instruction CmpI)"
    and "getOperands ir CmpI = [x, y]"
  shows "(isOpenCallVC ir h this s (getReplacement this s x) \<and>
          fst (getReplacement this s y) = Some (ConstantInt w v) \<longrightarrow>
            tryEvaluateResultIA ir h this (Instruction CmpI) s =
              (if w \<le> 64 then foldedVC (spec_handleCmpFold (getPredicate ir CmpI) (getSExtValue w v))
               else VCNull, s))
       \<and> (\<not> isOpenCallVC ir h this s (getReplacement this s x) \<and>
          isOpenCallVC ir h this s (getReplacement this s y) \<and>
          fst (getReplacement this s x) = Some (ConstantInt w v) \<longrightarrow>
            tryEvaluateResultIA ir h this (Instruction CmpI) s =
              (if w \<le> 64 then foldedVC (spec_handleCmpFold (spec_mirror (getPredicate ir CmpI)) (getSExtValue w v))
               else VCNull, s))"
proof -
  note e = evaluateCmp_handle [OF assms(3), of h this s w v]
  show ?thesis
  proof (intro conjI impI)
    assume a: "isOpenCallVC ir h this s (getReplacement this s x) \<and>
               fst (getReplacement this s y) = Some (ConstantInt w v)"
    with e have "evaluateCmp ir h this s CmpI =
              (if w \<le> 64 then foldedVC (spec_handleCmpFold (getPredicate ir CmpI) (getSExtValue w v))
               else VCNull, False)" by blast
    then show "tryEvaluateResultIA ir h this (Instruction CmpI) s =
              (if w \<le> 64 then foldedVC (spec_handleCmpFold (getPredicate ir CmpI) (getSExtValue w v))
               else VCNull, s)"
      using tryEvaluateResultIA_cmp [OF assms(1) assms(2), of h] by simp
  next
    assume a: "\<not> isOpenCallVC ir h this s (getReplacement this s x) \<and>
          isOpenCallVC ir h this s (getReplacement this s y) \<and>
          fst (getReplacement this s x) = Some (ConstantInt w v)"
    with e have "evaluateCmp ir h this s CmpI =
              (if w \<le> 64 then foldedVC (spec_handleCmpFold (spec_mirror (getPredicate ir CmpI)) (getSExtValue w v))
               else VCNull, False)" by blast
    then show "tryEvaluateResultIA ir h this (Instruction CmpI) s =
              (if w \<le> 64 then foldedVC (spec_handleCmpFold (spec_mirror (getPredicate ir CmpI)) (getSExtValue w v))
               else VCNull, s)"
      using tryEvaluateResultIA_cmp [OF assms(1) assms(2), of h] by simp
  qed
qed

lemma fd_should: "shouldTryEvaluate fdIR 0 fdCtx (Instruction 5)"
  by (simp add: shouldTryEvaluate_def fdIR_def fdCtx_def baseIR_def baseCtx_def getReplacement_def
      getDefaultVC_def blockIsDead_def)

lemma fd_open: "isOpenCallVC fdIR Map.empty 0 fdCtx (getReplacement 0 fdCtx (Instruction 3))"
  by (simp add: isOpenCallVC_def fdIR_def fdCtx_def baseIR_def baseCtx_def getReplacement_def
      getDefaultVC_def make_vc_def ctxAt_def isForwardableOpenCall_def)

theorem symbolic_handle_comparison_folding_witness:
  "tryEvaluateResultIA fdIR Map.empty 0 (Instruction 5) fdCtx = (const_vc getTrue, fdCtx)
   \<and> getOperands fdIR 5 = [Instruction 3, ConstantInt 32 4294967295]
   \<and> getPredicate fdIR 5 = ICMP_SGT"
proof -
  have o: "getOpcode fdIR 5 = ICmp" by (simp add: fdIR_def baseIR_def)
  have p: "getOperands fdIR 5 = [Instruction 3, ConstantInt 32 4294967295]"
    by (simp add: fdIR_def baseIR_def)
  have c: "fst (getReplacement 0 fdCtx (ConstantInt 32 4294967295)) = Some (ConstantInt 32 4294967295)"
    by (simp add: getReplacement_def fdCtx_def baseCtx_def getDefaultVC_def const_vc_def)
  have g: "getPredicate fdIR 5 = ICMP_SGT" by (simp add: fdIR_def baseIR_def)
  have v: "getSExtValue 32 4294967295 = - 1" by (simp add: getSExtValue_def Let_def)
  from symbolic_handle_comparison_folding [OF o fd_should p, of Map.empty 32 4294967295] fd_open c
  have "tryEvaluateResultIA fdIR Map.empty 0 (Instruction 5) fdCtx =
          (foldedVC (spec_handleCmpFold (getPredicate fdIR 5) (getSExtValue 32 4294967295)), fdCtx)"
    by simp
  then show ?thesis
    using p g v by (simp add: spec_handleCmpFold_def foldedVC_def)
qed

subsection \<open>What the edge checks leave alone\<close>

lemma edgesGrow_refl: "edgesGrow s s"
  by (simp add: edgesGrow_def)

lemma edgesGrow_trans: "edgesGrow s s1 \<Longrightarrow> edgesGrow s1 s2 \<Longrightarrow> edgesGrow s s2"
  by (auto simp: edgesGrow_def)

lemma edgesGrow_queue: "edgesGrow s (queue w s)"
  by (simp add: edgesGrow_def queue_def)

lemma edgesGrow_abort: "edgesGrow s (abort s)"
  by (simp add: edgesGrow_def abort_def)

lemma edgesGrow_insert: "edgesGrow s (s\<lparr>deadEdges := insert e (deadEdges s)\<rparr>)"
  by (auto simp: edgesGrow_def)

lemma edgesGrow_setEdgeDead: "edgesGrow s (setEdgeDead B1 B2 s)"
  by (auto simp: edgesGrow_def setEdgeDead_def)

lemma edgesGrow_queueCFGBlockedOpens: "edgesGrow s (queueCFGBlockedOpens s)"
  by (simp add: edgesGrow_def queueCFGBlockedOpens_def)

lemma edgesGrow_queueCFGBlockedLoads: "edgesGrow s (queueCFGBlockedLoads s)"
  by (simp add: edgesGrow_def queueCFGBlockedLoads_def)

lemma edgesGrow_getOrCreatePeelAttempt: "edgesGrow s (snd (getOrCreatePeelAttempt ir this L s))"
  by (simp add: edgesGrow_def getOrCreatePeelAttempt_def split: option.splits)

lemma edgesGrow_getOrCreateInlineAttempt: "edgesGrow s (snd (getOrCreateInlineAttempt ir this CI s))"
  by (simp add: edgesGrow_def getOrCreateInlineAttempt_def split: option.splits)

lemma edgesGrow_foldl_queue: "edgesGrow s (foldl (\<lambda>s' x. queue (f x) s') s xs)"
proof (induction xs arbitrary: s)
  case Nil
  show ?case by (simp add: edgesGrow_refl)
next
  case (Cons x xs)
  have "edgesGrow (queue (f x) s) (foldl (\<lambda>s' x. queue (f x) s') (queue (f x) s) xs)"
    by (rule Cons.IH)
  with edgesGrow_queue [of s "f x"] show ?case
    by (auto intro: edgesGrow_trans)
qed

lemma edgesGrow_markExitEdges: "edgesGrow s (markExitEdges ir this L es s)"
proof (induction es arbitrary: s)
  case Nil
  show ?case by (simp add: edgesGrow_refl)
next
  case (Cons e es)
  let ?s1 = "if getEdgeScope ir (fst e) (snd e) = getLoopContext s \<or> getEdgeScope ir (fst e) (snd e) = L
             then s\<lparr>deadEdges := insert e (deadEdges s)\<rparr> else s"
  have a: "edgesGrow s ?s1"
    by (simp add: edgesGrow_refl edgesGrow_insert)
  have b: "edgesGrow ?s1 (queue (QueueCheckBlock this (snd e)) ?s1)"
    by (rule edgesGrow_queue)
  have c: "edgesGrow (queue (QueueCheckBlock this (snd e)) ?s1)
             (markExitEdges ir this L es (queue (QueueCheckBlock this (snd e)) ?s1))"
    by (rule Cons.IH)
  from a b c have "edgesGrow s (markExitEdges ir this L es (queue (QueueCheckBlock this (snd e)) ?s1))"
    by (blast intro: edgesGrow_trans)
  then show ?case by (simp add: Let_def)
qed

lemma edgesGrow_checkLoopSpecialEdgeIA:
  "edgesGrow s (snd (checkLoopSpecialEdgeIA ir this FromBB ToBB s))"
proof -
  let ?s1 = "queueCFGBlockedOpens s"
  let ?s2 = "snd (getOrCreatePeelAttempt ir this (getLoopFor ir ToBB) ?s1)"
  have a: "edgesGrow s ?s2"
    using edgesGrow_queueCFGBlockedOpens [of s]
      edgesGrow_getOrCreatePeelAttempt [of ?s1 ir this "getLoopFor ir ToBB"]
    by (rule edgesGrow_trans)
  have b: "edgesGrow s (markExitEdges ir this (getLoopFor ir ToBB) (getExitEdges ir (getLoopFor ir ToBB)) ?s2)"
    using a edgesGrow_markExitEdges by (rule edgesGrow_trans)
  show ?thesis
    using a b by (simp add: checkLoopSpecialEdgeIA_def Let_def edgesGrow_refl)
qed

lemma edgesGrow_checkLoopSpecialEdge:
  "edgesGrow s (snd (checkLoopSpecialEdge ir this FromBB ToBB s))"
proof (cases "variant s")
  case (IsInlineAttempt CI)
  then show ?thesis
    by (simp add: checkLoopSpecialEdge_def edgesGrow_checkLoopSpecialEdgeIA)
next
  case (IsPeelIteration L n)
  have q: "\<And>t w. edgesGrow s t \<Longrightarrow> edgesGrow s (queue w t)"
    using edgesGrow_queue by (blast intro: edgesGrow_trans)
  have o: "\<And>t. edgesGrow s t \<Longrightarrow> edgesGrow s (queueCFGBlockedOpens t)"
    using edgesGrow_queueCFGBlockedOpens by (blast intro: edgesGrow_trans)
  have i: "\<And>t. edgesGrow s t \<Longrightarrow> edgesGrow s (snd (checkLoopSpecialEdgeIA ir this FromBB ToBB t))"
    using edgesGrow_checkLoopSpecialEdgeIA by (blast intro: edgesGrow_trans)
  show ?thesis
    using IsPeelIteration
    by (auto simp: checkLoopSpecialEdge_def Let_def intro!: q o i edgesGrow_refl)
qed

lemma edgesGrow_checkLocalEdge: "edgesGrow s (checkLocalEdge ir this FromBB ToBB s)"
  using edgesGrow_checkLoopSpecialEdge [of s ir this FromBB ToBB]
    edgesGrow_queue [of "snd (checkLoopSpecialEdge ir this FromBB ToBB s)"]
  by (auto simp: checkLocalEdge_def Let_def intro: edgesGrow_trans)

lemma edgesGrow_checkVariantEdge: "edgesGrow s (checkVariantEdge ir this FromBB ToBB ScopeL s)"
  by (simp add: checkVariantEdge_def Let_def edgesGrow_checkLocalEdge edgesGrow_abort
      edgesGrow_foldl_queue edgesGrow_refl split: option.splits)

lemma edgesGrow_checkEdge: "edgesGrow s (checkEdge ir this FromBB ToBB s)"
  by (simp add: checkEdge_def Let_def edgesGrow_checkLocalEdge edgesGrow_checkVariantEdge)

lemma edgesGrow_promoteCalls: "edgesGrow s (promoteCalls ir this BIs s)"
proof (induction BIs arbitrary: s)
  case Nil
  show ?case by (simp add: edgesGrow_refl)
next
  case (Cons BI BIs)
  let ?r = "getOrCreateInlineAttempt ir this BI s"
  let ?s1 = "if fst ?r = None then queue (CallTryPromoteOpenCall this BI) (snd ?r) else snd ?r"
  have "edgesGrow s ?s1"
    using edgesGrow_getOrCreateInlineAttempt [of s ir this BI] edgesGrow_queue [of "snd ?r"]
    by (auto intro: edgesGrow_trans)
  then have "edgesGrow s (promoteCalls ir this BIs ?s1)"
    using Cons.IH by (blast intro: edgesGrow_trans)
  then show ?case
    using Cons.IH [of s] by (simp add: Let_def)
qed

lemma edgesGrow_checkSuccs: "edgesGrow s (checkSuccs ir this BB isDead SIs s)"
proof (induction SIs arbitrary: s)
  case Nil
  show ?case by (simp add: edgesGrow_refl)
next
  case (Cons SI SIs)
  let ?s0 = "if isDead then s\<lparr>deadEdges := insert (BB, SI) (deadEdges s)\<rparr> else s"
  have "edgesGrow s ?s0" by (simp add: edgesGrow_refl edgesGrow_insert)
  then have "edgesGrow s (checkEdge ir this BB SI ?s0)"
    using edgesGrow_checkEdge by (rule edgesGrow_trans)
  then have "edgesGrow s (checkSuccs ir this BB isDead SIs (checkEdge ir this BB SI ?s0))"
    using Cons.IH by (rule edgesGrow_trans)
  then show ?case by simp
qed

lemma checkSuccs_kills:
  "SI \<in> set SIs \<Longrightarrow> (BB, SI) \<in> deadEdges (checkSuccs ir this BB True SIs s)"
proof (induction SIs arbitrary: s)
  case Nil
  then show ?case by simp
next
  case (Cons x SIs)
  let ?s1 = "checkEdge ir this BB x (s\<lparr>deadEdges := insert (BB, x) (deadEdges s)\<rparr>)"
  show ?case
  proof (cases "SI = x")
    case True
    have "(BB, x) \<in> deadEdges ?s1"
      using edgesGrow_checkEdge [of "s\<lparr>deadEdges := insert (BB, x) (deadEdges s)\<rparr>" ir this BB x]
      by (auto simp: edgesGrow_def)
    moreover have "edgesGrow ?s1 (checkSuccs ir this BB True SIs ?s1)"
      by (rule edgesGrow_checkSuccs)
    ultimately show ?thesis
      using True by (auto simp: edgesGrow_def)
  next
    case False
    with Cons.prems have "SI \<in> set SIs" by simp
    then show ?thesis
      using Cons.IH by simp
  qed
qed

lemma checkPreds_dead:
  "fst (checkPreds ir s BB PIs flags) = (fst flags \<and> list_all (\<lambda>PI. edgeIsDead s PI BB) PIs)"
  by (induction PIs arbitrary: flags) auto

lemma checkBlockFlags_not_both: "\<not> (fst (checkBlockFlags ir s BB) \<and> snd (checkBlockFlags ir s BB))"
  by (simp add: checkBlockFlags_def Let_def)

lemma checkBlockFlags_dead:
  "fst (checkBlockFlags ir s BB) =
     (BB \<noteq> getEntryBlock ir (F s) \<and> list_all (\<lambda>PI. edgeIsDead s PI BB) (predecessors ir BB))"
  by (simp add: checkBlockFlags_def Let_def checkPreds_dead)

subsection \<open>Liveness consistency of \<open>checkBlock\<close>\<close>

lemma checkBlock_shape:
  assumes "shouldCheckBlock s BB"
  shows "\<exists>t. edgesGrow t (checkBlock ir this BB s)
           \<and> deadBlocks t = (if fst (checkBlockFlags ir s BB) then insert BB (deadBlocks s) else deadBlocks s)
           \<and> certainBlocks t = (if snd (checkBlockFlags ir s BB) then insert BB (certainBlocks s) else certainBlocks s)
           \<and> improvedValues t = (if fst (checkBlockFlags ir s BB)
                                  then eraseResolutions (getInstructions ir BB) (improvedValues s)
                                  else improvedValues s)
           \<and> deadEdges t = deadEdges s \<and> deadValues t = deadValues s"
proof -
  let ?isDead = "fst (checkBlockFlags ir s BB)"
  let ?isCertain = "snd (checkBlockFlags ir s BB)"
  let ?s1 = "if ?isDead
             then s\<lparr>deadBlocks := insert BB (deadBlocks s),
                    improvedValues := eraseResolutions (getInstructions ir BB) (improvedValues s)\<rparr>
             else s"
  let ?t = "if ?isCertain then ?s1\<lparr>certainBlocks := insert BB (certainBlocks ?s1)\<rparr> else ?s1"
  let ?s2 = "if ?isCertain
             then queueCFGBlockedOpens (promoteCalls ir this (getInstructions ir BB)
                    (?s1\<lparr>certainBlocks := insert BB (certainBlocks ?s1)\<rparr>))
             else ?s1"
  let ?s3 = "if ?isDead \<or> ?isCertain then checkSuccs ir this BB ?isDead (successors ir BB) ?s2 else ?s2"
  let ?s4 = "if \<not> ?isDead
             then foldl (\<lambda>s' BI. queue (QueueTryEvaluate this (Instruction BI)) s') ?s3
                    (takeWhile (\<lambda>BI. getOpcode ir BI = PHI) (getInstructions ir BB))
             else queueCFGBlockedLoads ?s3"
  have r: "checkBlock ir this BB s = ?s4"
    using assms by (simp add: checkBlock_def Let_def)
  have pc: "\<And>u. edgesGrow u (queueCFGBlockedOpens (promoteCalls ir this (getInstructions ir BB) u))"
    using edgesGrow_promoteCalls edgesGrow_queueCFGBlockedOpens
    by (blast intro: edgesGrow_trans)
  have a: "edgesGrow ?t ?s2"
    by (simp add: pc edgesGrow_refl)
  have b: "edgesGrow ?s2 ?s3"
    using edgesGrow_checkSuccs by (auto intro: edgesGrow_refl)
  have c: "edgesGrow ?s3 ?s4"
    using edgesGrow_foldl_queue [of ?s3 "\<lambda>BI. QueueTryEvaluate this (Instruction BI)"]
      edgesGrow_queueCFGBlockedLoads [of ?s3]
    by auto
  have "edgesGrow ?t ?s4"
    using a b c by (blast intro: edgesGrow_trans)
  then have "edgesGrow ?t (checkBlock ir this BB s)"
    using r by simp
  moreover have "deadBlocks ?t = (if ?isDead then insert BB (deadBlocks s) else deadBlocks s)"
    by simp
  moreover have "certainBlocks ?t = (if ?isCertain then insert BB (certainBlocks s) else certainBlocks s)"
    by simp
  moreover have "improvedValues ?t = (if ?isDead
                                  then eraseResolutions (getInstructions ir BB) (improvedValues s)
                                  else improvedValues s)"
    by simp
  moreover have "deadEdges ?t = deadEdges s" by simp
  moreover have "deadValues ?t = deadValues s" by simp
  ultimately show ?thesis by blast
qed

lemma checkBlock_deadBlocks:
  "deadBlocks (checkBlock ir this BB s) =
     (if shouldCheckBlock s BB \<and> fst (checkBlockFlags ir s BB)
      then insert BB (deadBlocks s) else deadBlocks s)"
proof (cases "shouldCheckBlock s BB")
  case True
  from checkBlock_shape [OF True, of ir this] show ?thesis
    using True by (auto simp: edgesGrow_def)
next
  case False
  then show ?thesis by (simp add: checkBlock_def)
qed

lemma checkBlock_certainBlocks:
  "certainBlocks (checkBlock ir this BB s) =
     (if shouldCheckBlock s BB \<and> snd (checkBlockFlags ir s BB)
      then insert BB (certainBlocks s) else certainBlocks s)"
proof (cases "shouldCheckBlock s BB")
  case True
  from checkBlock_shape [OF True, of ir this] show ?thesis
    using True by (auto simp: edgesGrow_def)
next
  case False
  then show ?thesis by (simp add: checkBlock_def)
qed

lemma checkBlock_improvedValues:
  "improvedValues (checkBlock ir this BB s) =
     (if shouldCheckBlock s BB \<and> fst (checkBlockFlags ir s BB)
      then eraseResolutions (getInstructions ir BB) (improvedValues s) else improvedValues s)"
proof (cases "shouldCheckBlock s BB")
  case True
  from checkBlock_shape [OF True, of ir this] show ?thesis
    using True by (auto simp: edgesGrow_def)
next
  case False
  then show ?thesis by (simp add: checkBlock_def)
qed

lemma checkBlock_deadEdges: "deadEdges s \<subseteq> deadEdges (checkBlock ir this BB s)"
proof (cases "shouldCheckBlock s BB")
  case True
  from checkBlock_shape [OF True, of ir this] show ?thesis
    by (auto simp: edgesGrow_def)
next
  case False
  then show ?thesis by (simp add: checkBlock_def)
qed

lemma checkBlock_deadValues: "deadValues (checkBlock ir this BB s) = deadValues s"
proof (cases "shouldCheckBlock s BB")
  case True
  from checkBlock_shape [OF True, of ir this] show ?thesis
    by (auto simp: edgesGrow_def)
next
  case False
  then show ?thesis by (simp add: checkBlock_def)
qed

lemma checkBlock_kills_successors:
  assumes "shouldCheckBlock s BB" and "fst (checkBlockFlags ir s BB)" and "SI \<in> set (successors ir BB)"
  shows "(BB, SI) \<in> deadEdges (checkBlock ir this BB s)"
proof -
  let ?s1 = "s\<lparr>deadBlocks := insert BB (deadBlocks s),
                improvedValues := eraseResolutions (getInstructions ir BB) (improvedValues s)\<rparr>"
  let ?s3 = "checkSuccs ir this BB True (successors ir BB) ?s1"
  have nc: "\<not> snd (checkBlockFlags ir s BB)"
    using assms(2) checkBlockFlags_not_both by blast
  have r: "checkBlock ir this BB s = queueCFGBlockedLoads ?s3"
    using assms(1,2) nc by (simp add: checkBlock_def Let_def)
  have "(BB, SI) \<in> deadEdges ?s3"
    using assms(3) by (rule checkSuccs_kills)
  then show ?thesis
    using r by (simp add: queueCFGBlockedLoads_def)
qed

text \<open>
  C1.  Let \<open>checkBlock\<close> check a block \<open>BB\<close> whose status is not yet known
  (\<open>shouldCheckBlock\<close>).  If \<open>BB\<close> is not the entry block, it is marked dead
  afterwards exactly when every incoming edge was dead; the entry block is not marked
  dead; if \<open>BB\<close> is marked dead then every outgoing edge of \<open>BB\<close> is dead
  afterwards; and \<open>BB\<close> is not both certain and dead.
\<close>

theorem checkBlock_liveness_consistency:
  assumes "shouldCheckBlock s BB"
  shows "(BB \<noteq> getEntryBlock ir (F s) \<longrightarrow>
           (blockIsDead (checkBlock ir this BB s) BB
              \<longleftrightarrow> list_all (\<lambda>PI. edgeIsDead s PI BB) (predecessors ir BB)))
       \<and> (BB = getEntryBlock ir (F s) \<longrightarrow> \<not> blockIsDead (checkBlock ir this BB s) BB)
       \<and> (blockIsDead (checkBlock ir this BB s) BB \<longrightarrow>
            list_all (\<lambda>SI. edgeIsDead (checkBlock ir this BB s) BB SI) (successors ir BB))
       \<and> \<not> (blockIsCertain (checkBlock ir this BB s) BB \<and> blockIsDead (checkBlock ir this BB s) BB)"
proof -
  have nd: "BB \<notin> deadBlocks s" and nc: "BB \<notin> certainBlocks s"
    using assms by (auto simp: shouldCheckBlock_def blockIsDead_def blockIsCertain_def)
  have d: "blockIsDead (checkBlock ir this BB s) BB = fst (checkBlockFlags ir s BB)"
    using assms nd by (simp add: blockIsDead_def checkBlock_deadBlocks)
  have c: "blockIsCertain (checkBlock ir this BB s) BB = snd (checkBlockFlags ir s BB)"
    using assms nc by (simp add: blockIsCertain_def checkBlock_certainBlocks)
  have k: "fst (checkBlockFlags ir s BB) \<Longrightarrow>
             list_all (\<lambda>SI. edgeIsDead (checkBlock ir this BB s) BB SI) (successors ir BB)"
    using checkBlock_kills_successors [OF assms]
    by (simp add: list_all_iff edgeIsDead_def)
  have f: "fst (checkBlockFlags ir s BB) =
     (BB \<noteq> getEntryBlock ir (F s) \<and> list_all (\<lambda>PI. edgeIsDead s PI BB) (predecessors ir BB))"
    by (rule checkBlockFlags_dead)
  have p1: "BB \<noteq> getEntryBlock ir (F s) \<longrightarrow>
           (blockIsDead (checkBlock ir this BB s) BB
              \<longleftrightarrow> list_all (\<lambda>PI. edgeIsDead s PI BB) (predecessors ir BB))"
    using d f by blast
  have p2: "BB = getEntryBlock ir (F s) \<longrightarrow> \<not> blockIsDead (checkBlock ir this BB s) BB"
    using d f by blast
  have p3: "blockIsDead (checkBlock ir this BB s) BB \<longrightarrow>
            list_all (\<lambda>SI. edgeIsDead (checkBlock ir this BB s) BB SI) (successors ir BB)"
    using d k by blast
  have p4: "\<not> (blockIsCertain (checkBlock ir this BB s) BB \<and> blockIsDead (checkBlock ir this BB s) BB)"
    using d c checkBlockFlags_not_both [of ir s BB] by blast
  show ?thesis
    using p1 p2 p3 p4 by blast
qed

theorem checkBlock_liveness_consistency_witness:
  "shouldCheckBlock diamondCtx 2
   \<and> blockIsDead (checkBlock diamondIR 0 2 diamondCtx) 2
   \<and> edgeIsDead (checkBlock diamondIR 0 2 diamondCtx) 2 4
   \<and> \<not> blockIsCertain (checkBlock diamondIR 0 2 diamondCtx) 2"
proof -
  have sc: "shouldCheckBlock diamondCtx 2"
    by (simp add: shouldCheckBlock_def blockIsDead_def blockIsCertain_def diamondCtx_def baseCtx_def)
  have e: "getEntryBlock diamondIR (F diamondCtx) = 0"
    by (simp add: diamondIR_def baseIR_def)
  have p: "predecessors diamondIR 2 = [0]"
    by (simp add: diamondIR_def baseIR_def)
  have q: "successors diamondIR 2 = [4]"
    by (simp add: diamondIR_def baseIR_def)
  have d: "edgeIsDead diamondCtx 0 2"
    by (simp add: edgeIsDead_def diamondCtx_def baseCtx_def)
  from checkBlock_liveness_consistency [OF sc, of diamondIR 0]
  show ?thesis
    using sc by (auto simp: e p q d)
qed

subsection \<open>Monotonicity of the marks\<close>

lemma eraseResolutions_apply:
  "eraseResolutions BIs m V = (if V \<in> Instruction ` set BIs then None else m V)"
  by (induction BIs arbitrary: m) auto

lemma edgesGrow_killOtherTargets: "edgesGrow s (killOtherTargets ir this BB takenTarget ts s)"
proof (induction ts arbitrary: s)
  case Nil
  show ?case by (simp add: edgesGrow_refl)
next
  case (Cons t ts)
  let ?s1 = "if shouldCheckBlock s t
             then checkEdge ir this BB t (if t \<noteq> takenTarget then setEdgeDead BB t s else s)
             else s"
  have "edgesGrow s ?s1"
    using edgesGrow_setEdgeDead [of s BB t] edgesGrow_checkEdge [of "setEdgeDead BB t s" ir this BB t]
      edgesGrow_checkEdge [of s ir this BB t]
    by (auto intro: edgesGrow_trans edgesGrow_refl)
  then have "edgesGrow s (killOtherTargets ir this BB takenTarget ts ?s1)"
    using Cons.IH by (rule edgesGrow_trans)
  then show ?case by simp
qed

lemma edgesGrow_evaluateTerminator: "edgesGrow s (evaluateTerminator ir this I s)"
  by (simp add: evaluateTerminator_def Let_def edgesGrow_abort edgesGrow_refl edgesGrow_killOtherTargets
      split: option.splits Value.splits)

lemma edgesGrow_evaluateSelect: "edgesGrow s (snd (evaluateSelect ir this I s))"
  by (simp add: evaluateSelect_def edgesGrow_abort edgesGrow_refl
      split: option.splits Value.splits list.splits)

lemma edgesGrow_tryEvaluateResultIA: "edgesGrow s (snd (tryEvaluateResultIA ir h this V s))"
  by (simp add: tryEvaluateResultIA_def Let_def edgesGrow_abort edgesGrow_refl edgesGrow_queue
      edgesGrow_evaluateTerminator edgesGrow_evaluateSelect
      split: option.splits Value.splits)

lemma edgesGrow_tryEvaluateResult: "edgesGrow s (snd (tryEvaluateResult ir h this V s))"
  by (simp add: tryEvaluateResult_def edgesGrow_tryEvaluateResultIA edgesGrow_refl
      split: Variant.splits Value.splits)

lemma tryEvaluateResultIA_idle:
  "\<not> shouldTryEvaluate ir this s V \<Longrightarrow> fst (tryEvaluateResultIA ir h this V s) = VCNull"
  by (simp add: tryEvaluateResultIA_def)

lemma tryEvaluateResult_idle:
  "\<not> shouldTryEvaluate ir this s (Instruction I) \<Longrightarrow>
   fst (tryEvaluateResult ir h this (Instruction I) s) = VCNull"
  by (simp add: tryEvaluateResult_def tryEvaluateResultIA_idle split: Variant.splits)

lemma tryEvaluate_marks:
  "deadBlocks (tryEvaluate ir h this V s) = deadBlocks s
   \<and> certainBlocks (tryEvaluate ir h this V s) = certainBlocks s
   \<and> deadValues (tryEvaluate ir h this V s) = deadValues s
   \<and> deadEdges s \<subseteq> deadEdges (tryEvaluate ir h this V s)"
  using edgesGrow_tryEvaluateResult [of s ir h this V]
  by (auto simp: tryEvaluate_def Let_def edgesGrow_def queue_def setReplacement_def)

lemma tryEvaluate_improvedValues:
  "improvedValues (tryEvaluate ir h this V s) = improvedValues s
   \<or> (improvedValues (tryEvaluate ir h this V s)
         = (improvedValues s)(V \<mapsto> fst (tryEvaluateResult ir h this V s))
       \<and> fst (tryEvaluateResult ir h this V s) \<noteq> VCNull)"
  using edgesGrow_tryEvaluateResult [of s ir h this V]
  by (auto simp: tryEvaluate_def Let_def edgesGrow_def queue_def setReplacement_def VCNull_def)

lemma shouldTryEvaluate_unimproved:
  "shouldTryEvaluate ir this s V \<Longrightarrow> improvedValues s V = Some K \<Longrightarrow> K = getDefaultVC this V"
  by (auto simp: shouldTryEvaluate_def getReplacement_def split: if_splits)

lemma tryEvaluateResult_improved:
  assumes "improvedValues s V = Some K" and "K \<noteq> getDefaultVC this V"
  shows "fst (tryEvaluateResult ir h this V s) = VCNull
         \<or> (\<exists>A CI. V = Argument A \<and> variant s = IsInlineAttempt CI
                   \<and> fst (tryEvaluateResult ir h this V s) = getImprovedCallArgument ir this A)"
proof -
  have n: "\<not> shouldTryEvaluate ir this s V"
    using assms shouldTryEvaluate_unimproved by blast
  show ?thesis
  proof (cases "variant s")
    case (IsInlineAttempt CI)
    then show ?thesis
      using n by (cases V) (simp_all add: tryEvaluateResult_def tryEvaluateResultIA_idle)
  next
    case (IsPeelIteration L k)
    then show ?thesis
      using n by (simp add: tryEvaluateResult_def tryEvaluateResultIA_idle)
  qed
qed

lemma tryEvaluate_keeps:
  assumes "improvedValues s V = Some K" and "K \<noteq> getDefaultVC this V"
  shows "improvedValues (tryEvaluate ir h this V' s) V = Some K
         \<or> (\<exists>A CI. V = Argument A \<and> V' = V \<and> variant s = IsInlineAttempt CI
                   \<and> improvedValues (tryEvaluate ir h this V' s) V
                       = Some (getImprovedCallArgument ir this A))"
proof -
  from tryEvaluate_improvedValues [of ir h this V' s]
  show ?thesis
  proof
    assume "improvedValues (tryEvaluate ir h this V' s) = improvedValues s"
    with assms show ?thesis by simp
  next
    assume "improvedValues (tryEvaluate ir h this V' s)
              = (improvedValues s)(V' \<mapsto> fst (tryEvaluateResult ir h this V' s))
            \<and> fst (tryEvaluateResult ir h this V' s) \<noteq> VCNull"
    then have u: "improvedValues (tryEvaluate ir h this V' s)
                    = (improvedValues s)(V' \<mapsto> fst (tryEvaluateResult ir h this V' s))"
      and n: "fst (tryEvaluateResult ir h this V' s) \<noteq> VCNull" by blast+
    show ?thesis
    proof (cases "V' = V")
      case False
      with u assms show ?thesis by simp
    next
      case True
      with tryEvaluateResult_improved [OF assms, of ir h] n
      obtain A CI where "V = Argument A" "variant s = IsInlineAttempt CI"
          "fst (tryEvaluateResult ir h this V s) = getImprovedCallArgument ir this A"
        by auto
      with u True show ?thesis by simp
    qed
  qed
qed

lemma checkLoad_marks:
  "deadBlocks (checkLoad ir this LI s) = deadBlocks s
   \<and> certainBlocks (checkLoad ir this LI s) = certainBlocks s
   \<and> deadValues (checkLoad ir this LI s) = deadValues s
   \<and> deadEdges (checkLoad ir this LI s) = deadEdges s"
  by (simp add: checkLoad_def Let_def queue_def setReplacement_def)

lemma checkLoad_keeps:
  assumes "improvedValues s V = Some K" and "K \<noteq> getDefaultVC this V"
  shows "improvedValues (checkLoad ir this LI s) V = Some K"
proof (cases "shouldTryEvaluate ir this s (Instruction LI)")
  case False
  with assms show ?thesis by (simp add: checkLoad_def)
next
  case True
  then have "Instruction LI \<noteq> V"
    using assms shouldTryEvaluate_unimproved by blast
  with assms show ?thesis
    by (simp add: checkLoad_def Let_def queue_def setReplacement_def)
qed

lemma tryKillValue_marks:
  "deadBlocks (tryKillValue ir h this V s) = deadBlocks s
   \<and> certainBlocks (tryKillValue ir h this V s) = certainBlocks s
   \<and> deadEdges (tryKillValue ir h this V s) = deadEdges s
   \<and> improvedValues (tryKillValue ir h this V s) = improvedValues s
   \<and> deadValues s \<subseteq> deadValues (tryKillValue ir h this V s)"
  by (auto simp: tryKillValue_def queue_def abort_def split: option.splits Value.splits bool.splits)

lemma checkBlock_keeps:
  assumes "improvedValues s V = Some K"
  shows "improvedValues (checkBlock ir this BB s) V = Some K
         \<or> (improvedValues (checkBlock ir this BB s) V = None
            \<and> (\<exists>I. V = Instruction I \<and> I \<in> set (getInstructions ir BB))
            \<and> BB \<in> deadBlocks (checkBlock ir this BB s) \<and> BB \<notin> deadBlocks s)"
  using assms
  by (auto simp: checkBlock_improvedValues checkBlock_deadBlocks eraseResolutions_apply
      shouldCheckBlock_def blockIsDead_def)

lemma runOperation_marks:
  "deadBlocks s \<subseteq> deadBlocks (runOperation ir h this op s)
   \<and> certainBlocks s \<subseteq> certainBlocks (runOperation ir h this op s)
   \<and> deadEdges s \<subseteq> deadEdges (runOperation ir h this op s)
   \<and> deadValues s \<subseteq> deadValues (runOperation ir h this op s)"
proof (cases op)
  case (OpCheckBlock BB)
  then show ?thesis
    using checkBlock_deadEdges [of s ir this BB]
    by (auto simp: checkBlock_deadBlocks checkBlock_certainBlocks checkBlock_deadValues)
next
  case (OpTryEvaluate V)
  then show ?thesis using tryEvaluate_marks [of ir h this V s] by auto
next
  case (OpCheckLoad LI)
  then show ?thesis using checkLoad_marks [of ir this LI s] by auto
next
  case (OpTryKillValue V)
  then show ?thesis using tryKillValue_marks [of ir h this V s] by auto
qed

lemma runOperation_keeps:
  assumes "improvedValues s V = Some K" and "K \<noteq> getDefaultVC this V"
  shows "improvedValues (runOperation ir h this op s) V = Some K
         \<or> (improvedValues (runOperation ir h this op s) V = None
            \<and> (\<exists>BB I. op = OpCheckBlock BB \<and> V = Instruction I \<and> I \<in> set (getInstructions ir BB)
                      \<and> BB \<in> deadBlocks (runOperation ir h this op s) \<and> BB \<notin> deadBlocks s))
         \<or> (\<exists>A CI. V = Argument A \<and> op = OpTryEvaluate V \<and> variant s = IsInlineAttempt CI
                   \<and> improvedValues (runOperation ir h this op s) V
                       = Some (getImprovedCallArgument ir this A))"
proof (cases op)
  case (OpCheckBlock BB)
  then show ?thesis using checkBlock_keeps [OF assms(1), of ir this BB] by auto
next
  case (OpTryEvaluate V')
  then show ?thesis using tryEvaluate_keeps [OF assms, of ir h V'] by auto
next
  case (OpCheckLoad LI)
  then show ?thesis using checkLoad_keeps [OF assms, of ir LI] by auto
next
  case (OpTryKillValue V')
  then show ?thesis using tryKillValue_marks [of ir h this V' s] assms by auto
qed

lemma runOperations_marks:
  "deadBlocks s \<subseteq> deadBlocks (runOperations this xs s)
   \<and> certainBlocks s \<subseteq> certainBlocks (runOperations this xs s)
   \<and> deadEdges s \<subseteq> deadEdges (runOperations this xs s)
   \<and> deadValues s \<subseteq> deadValues (runOperations this xs s)"
proof (induction xs arbitrary: s)
  case Nil
  show ?case by simp
next
  case (Cons x xs)
  let ?s1 = "runOperation (fst x) (fst (snd x)) this (snd (snd x)) s"
  have a: "deadBlocks s \<subseteq> deadBlocks ?s1 \<and> certainBlocks s \<subseteq> certainBlocks ?s1
           \<and> deadEdges s \<subseteq> deadEdges ?s1 \<and> deadValues s \<subseteq> deadValues ?s1"
    using runOperation_marks [of s "fst x" "fst (snd x)" this "snd (snd x)"]
    by blast
  from Cons.IH [of ?s1] a show ?case
    by (simp, blast)
qed

text \<open>
  C4, as amended.  No operation of the fixpoint retracts a mark: the dead blocks, the
  certain blocks, the dead edges and the dead values of the context only grow, also over
  a whole run.  The improvement \<open>K\<close> of a value (other than the value standing for
  itself) is kept by every operation, with two exceptions: a \<open>checkBlock\<close> that marks
  a block dead discards the improvements of the block's instructions, and evaluating a
  function argument again in an inline attempt replaces its improvement by the
  caller's value for the argument at that time.
\<close>

theorem marks_monotone_improvements_kept_until_dead:
  "deadBlocks s \<subseteq> deadBlocks (runOperation ir h this op s)
   \<and> certainBlocks s \<subseteq> certainBlocks (runOperation ir h this op s)
   \<and> deadEdges s \<subseteq> deadEdges (runOperation ir h this op s)
   \<and> deadValues s \<subseteq> deadValues (runOperation ir h this op s)
   \<and> deadBlocks s \<subseteq> deadBlocks (runOperations this xs s)
   \<and> certainBlocks s \<subseteq> certainBlocks (runOperations this xs s)
   \<and> deadEdges s \<subseteq> deadEdges (runOperations this xs s)
   \<and> deadValues s \<subseteq> deadValues (runOperations this xs s)
   \<and> (improvedValues s V = Some K \<and> K \<noteq> getDefaultVC this V \<longrightarrow>
        improvedValues (runOperation ir h this op s) V = Some K
        \<or> (improvedValues (runOperation ir h this op s) V = None
           \<and> (\<exists>BB I. op = OpCheckBlock BB \<and> V = Instruction I \<and> I \<in> set (getInstructions ir BB)
                     \<and> BB \<in> deadBlocks (runOperation ir h this op s) \<and> BB \<notin> deadBlocks s))
        \<or> (\<exists>A CI. V = Argument A \<and> op = OpTryEvaluate V \<and> variant s = IsInlineAttempt CI
                  \<and> improvedValues (runOperation ir h this op s) V
                      = Some (getImprovedCallArgument ir this A)))"
  using runOperation_marks [of s ir h this op] runOperations_marks [of s this xs]
    runOperation_keeps [of s V K this ir h op]
  by blast

lemma branch_s1:
  "tryEvaluate branchIR Map.empty 0 (Instruction 7) baseCtx =
     baseCtx\<lparr>improvedValues := [Instruction 7 \<mapsto> const_vc (ConstantInt 32 5)],
             pending := [CallInvestigateUsers 0 (Instruction 7)]\<rparr>"
  by (simp add: tryEvaluate_def tryEvaluateResult_def tryEvaluateResultIA_def shouldTryEvaluate_def
      getReplacement_def getDefaultVC_def blockIsDead_def constFold_def getConstReplacement_def
      const_vc_def make_vc_def shouldForwardValue_def setReplacement_def queue_def
      branchIR_def baseIR_def baseCtx_def Let_def)

lemma branch_s2_edge:
  "(0, 3) \<in> deadEdges (tryEvaluate branchIR Map.empty 0 (Instruction 10)
                         (tryEvaluate branchIR Map.empty 0 (Instruction 7) baseCtx))"
  apply (simp only: branch_s1)
  apply (simp add: tryEvaluate_def tryEvaluateResult_def tryEvaluateResultIA_def shouldTryEvaluate_def
      getReplacement_def getDefaultVC_def blockIsDead_def getConstReplacement_def
      const_vc_def make_vc_def VCNull_def evaluateTerminator_def shouldCheckBlock_def blockIsCertain_def
      setEdgeDead_def checkEdge_def checkLocalEdge_def checkLoopSpecialEdge_def checkLoopSpecialEdgeIA_def
      getLoopContext_def queue_def
      branchIR_def baseIR_def baseCtx_def Let_def)
  done

lemma arg_step:
  "variant s = IsInlineAttempt CI \<Longrightarrow>
   improvedValues (tryEvaluate (argIR k) Map.empty 5 (Argument 0) s) (Argument 0)
     = Some (const_vc (ConstantInt 32 k))"
  by (simp add: tryEvaluate_def tryEvaluateResult_def shouldForwardValue_def setReplacement_def
      queue_def const_vc_def argIR_def Let_def)

lemma tryEvaluate_variant: "variant (tryEvaluate ir h this V s) = variant s"
  using edgesGrow_tryEvaluateResult [of s ir h this V]
  by (simp add: tryEvaluate_def Let_def edgesGrow_def queue_def setReplacement_def)

text \<open>
  C4 as stated fails, in two ways.  In a run from a fresh context over \<open>branchIR\<close>,
  the instruction 7 gains the improvement 5; evaluating the branch 10 kills the edge
  into its block, and the next \<open>checkBlock\<close> of that block retracts the improvement.
  In the inline attempt \<open>retCtx\<close>, the argument 0 gains the improvement 1, and
  evaluating it again, when the caller's value for it is 2, changes the improvement to
  2.
\<close>

theorem improvement_retracted_counterexample:
  "improvedValues (runOperations 0 [(branchIR, Map.empty, OpTryEvaluate (Instruction 7))] baseCtx)
     (Instruction 7) = Some (const_vc (ConstantInt 32 5))
   \<and> improvedValues
        (runOperations 0
           [(branchIR, Map.empty, OpTryEvaluate (Instruction 7)),
            (branchIR, Map.empty, OpTryEvaluate (Instruction 10)),
            (branchIR, Map.empty, OpCheckBlock 3)] baseCtx)
        (Instruction 7) = None
   \<and> improvedValues (runOperations 5 [(argIR 1, Map.empty, OpTryEvaluate (Argument 0))] retCtx)
        (Argument 0) = Some (const_vc (ConstantInt 32 1))
   \<and> improvedValues
        (runOperations 5
           [(argIR 1, Map.empty, OpTryEvaluate (Argument 0)),
            (argIR 2, Map.empty, OpTryEvaluate (Argument 0))] retCtx)
        (Argument 0) = Some (const_vc (ConstantInt 32 2))
   \<and> const_vc (ConstantInt 32 1) \<noteq> const_vc (ConstantInt 32 2)"
proof -
  let ?s1 = "tryEvaluate branchIR Map.empty 0 (Instruction 7) baseCtx"
  let ?s2 = "tryEvaluate branchIR Map.empty 0 (Instruction 10) ?s1"
  have a: "improvedValues ?s1 (Instruction 7) = Some (const_vc (ConstantInt 32 5))"
    by (simp add: branch_s1)
  have db: "deadBlocks ?s2 = {}" and cb: "certainBlocks ?s2 = {}"
    using tryEvaluate_marks [of branchIR Map.empty 0 "Instruction 10" ?s1]
      tryEvaluate_marks [of branchIR Map.empty 0 "Instruction 7" baseCtx]
    by (simp_all add: baseCtx_def)
  have sc: "shouldCheckBlock ?s2 3"
    by (simp add: shouldCheckBlock_def blockIsDead_def blockIsCertain_def db cb)
  have fl: "fst (checkBlockFlags branchIR ?s2 3)"
    using branch_s2_edge
    by (simp add: checkBlockFlags_dead edgeIsDead_def) (simp add: branchIR_def baseIR_def)
  have b: "improvedValues (checkBlock branchIR 0 3 ?s2) (Instruction 7) = None"
    using sc fl
    by (simp add: checkBlock_improvedValues eraseResolutions_apply) (simp add: branchIR_def baseIR_def)
  have v: "variant retCtx = IsInlineAttempt (Some 4)"
    by (simp add: retCtx_def)
  have c: "improvedValues (tryEvaluate (argIR 1) Map.empty 5 (Argument 0) retCtx) (Argument 0)
             = Some (const_vc (ConstantInt 32 1))"
    using v by (rule arg_step)
  have d: "improvedValues (tryEvaluate (argIR 2) Map.empty 5 (Argument 0)
                             (tryEvaluate (argIR 1) Map.empty 5 (Argument 0) retCtx)) (Argument 0)
             = Some (const_vc (ConstantInt 32 2))"
    by (rule arg_step [where CI = "Some 4"]) (simp add: tryEvaluate_variant v)
  have e: "const_vc (ConstantInt 32 1) \<noteq> const_vc (ConstantInt 32 2)"
    by (simp add: const_vc_def)
  from a b c d e show ?thesis by simp
qed

theorem marks_monotone_improvements_kept_until_dead_witness:
  "improvedValues (tryEvaluate branchIR Map.empty 0 (Instruction 7) baseCtx) (Instruction 7)
     = Some (const_vc (ConstantInt 32 5))
   \<and> const_vc (ConstantInt 32 5) \<noteq> getDefaultVC 0 (Instruction 7)
   \<and> improvedValues
        (runOperation branchIR Map.empty 0 (OpTryEvaluate (Instruction 7))
           (tryEvaluate branchIR Map.empty 0 (Instruction 7) baseCtx)) (Instruction 7)
     = Some (const_vc (ConstantInt 32 5))"
proof -
  let ?s1 = "tryEvaluate branchIR Map.empty 0 (Instruction 7) baseCtx"
  have a: "improvedValues ?s1 (Instruction 7) = Some (const_vc (ConstantInt 32 5))"
    by (simp add: branch_s1)
  have b: "const_vc (ConstantInt 32 5) \<noteq> getDefaultVC 0 (Instruction 7)"
    by (simp add: const_vc_def getDefaultVC_def make_vc_def)
  from marks_monotone_improvements_kept_until_dead
         [of ?s1 branchIR Map.empty 0 "OpTryEvaluate (Instruction 7)" "[]" "Instruction 7"
             "const_vc (ConstantInt 32 5)"]
  have "improvedValues (runOperation branchIR Map.empty 0 (OpTryEvaluate (Instruction 7)) ?s1) (Instruction 7)
          = Some (const_vc (ConstantInt 32 5))"
    using a b by auto
  with a b show ?thesis by blast
qed

subsection \<open>Eligibility for direct elimination\<close>

lemma shouldDIE_instruction:
  "shouldDIE ir s (Instruction I) =
     (if getOpcode ir I = Call then getInlineAttempt s I \<noteq> None
      else getOpcode ir I \<notin> spec_neverEliminated)"
  by (cases "getOpcode ir I") (simp_all add: shouldDIE_def spec_neverEliminated_def)

lemma queueDIE_pending:
  "pending (queueDIE ir this V s) =
     pending s @ (if shouldDIE ir s V \<and> \<not> localValueIsDead ir this s V then [QueueDIE this V] else [])"
  by (simp add: queueDIE_def queue_def)

lemma takeDIE_Some:
  "takeDIE this ws = Some r \<Longrightarrow> QueueDIE this (fst r) \<in> set ws \<and> set (snd r) \<subseteq> set ws"
proof (induction ws arbitrary: r)
  case Nil
  then show ?case by simp
next
  case (Cons w ws)
  show ?case
  proof (cases "case w of QueueDIE c V \<Rightarrow> c = this | _ \<Rightarrow> False")
    case True
    then obtain V where "w = QueueDIE this V" by (cases w) simp_all
    with Cons.prems show ?thesis by auto
  next
    case False
    with Cons.prems obtain r' where r': "takeDIE this ws = Some r'" and r: "r = (fst r', w # snd r')"
      by (cases "takeDIE this ws") auto
    from Cons.IH [OF r'] r show ?thesis by auto
  qed
qed

lemma tryKillValue_deadValues:
  "deadValues (tryKillValue ir h this V s) \<subseteq> insert V (deadValues s)"
  by (auto simp: tryKillValue_def queue_def abort_def split: option.splits Value.splits bool.splits if_splits)

lemma tryKillValue_queues_no_DIE:
  "QueueDIE c V' \<in> set (pending (tryKillValue ir h this V s)) \<Longrightarrow> QueueDIE c V' \<in> set (pending s)"
  by (auto simp: tryKillValue_def queue_def abort_def split: option.splits Value.splits bool.splits if_splits)

lemma tryKillValue_Ret:
  assumes "getOpcode ir I = Ret" and "\<not> mayHaveSideEffects ir I"
    and "getFunctionRoot ir this = Some r" and "ctxAt h this s r = Some root"
    and "isOwnCallUnused ir root"
  shows "Instruction I \<in> deadValues (tryKillValue ir h this (Instruction I) s)"
  using assms by (simp add: tryKillValue_def valueIsDead_def queue_def)

lemma runDIEStep_never:
  assumes op: "getOpcode ir I \<in> spec_neverEliminated"
    and d: "Instruction I \<notin> deadValues s"
    and q: "QueueDIE this (Instruction I) \<notin> set (pending s)"
  shows "Instruction I \<notin> deadValues (runDIEStep ir h this x s)
         \<and> QueueDIE this (Instruction I) \<notin> set (pending (runDIEStep ir h this x s))"
proof (cases x)
  case (StepQueueDIE V)
  have n: "\<not> shouldDIE ir s (Instruction I)"
    using op by (auto simp: shouldDIE_instruction spec_neverEliminated_def)
  show ?thesis
  proof (cases "V = Instruction I")
    case True
    with n StepQueueDIE d q show ?thesis by (simp add: queueDIE_def)
  next
    case False
    with StepQueueDIE d q show ?thesis by (auto simp: queueDIE_def queue_def)
  qed
next
  case StepTryKillNext
  show ?thesis
  proof (cases "takeDIE this (pending s)")
    case None
    with StepTryKillNext d q show ?thesis by simp
  next
    case (Some r)
    from takeDIE_Some [OF Some] q have v: "fst r \<noteq> Instruction I"
      and sub: "QueueDIE this (Instruction I) \<notin> set (snd r)"
      by auto
    have e: "runDIEStep ir h this x s = tryKillValue ir h this (fst r) (s\<lparr>pending := snd r\<rparr>)"
      using StepTryKillNext Some by simp
    have "Instruction I \<notin> deadValues (tryKillValue ir h this (fst r) (s\<lparr>pending := snd r\<rparr>))"
      using tryKillValue_deadValues [of ir h this "fst r" "s\<lparr>pending := snd r\<rparr>"] v d by auto
    moreover have "QueueDIE this (Instruction I)
                     \<notin> set (pending (tryKillValue ir h this (fst r) (s\<lparr>pending := snd r\<rparr>)))"
      using tryKillValue_queues_no_DIE [of this "Instruction I" ir h this "fst r" "s\<lparr>pending := snd r\<rparr>"] sub
      by auto
    ultimately show ?thesis unfolding e by simp
  qed
qed

lemma runDIE_never:
  assumes "getOpcode ir I \<in> spec_neverEliminated"
  shows "Instruction I \<notin> deadValues s \<Longrightarrow> QueueDIE this (Instruction I) \<notin> set (pending s) \<Longrightarrow>
         Instruction I \<notin> deadValues (runDIE ir h this xs s)"
proof (induction xs arbitrary: s)
  case Nil
  then show ?case by simp
next
  case (Cons x xs)
  from runDIEStep_never [OF assms Cons.prems, of h x]
  show ?case using Cons.IH [of "runDIEStep ir h this x s"] by simp
qed

text \<open>
  C10, as amended.  A value is a candidate for direct elimination (\<open>shouldDIE\<close>)
  exactly when it is a function argument, a call with an inline attempt, or an
  instruction other than a call whose opcode is not branch, switch, unreachable,
  indirect branch, unwind, alloca, store, vararg or invoke.  \<open>queueDIE\<close> leaves the
  context alone for every other value, and queues a candidate exactly when it is not
  already locally dead.  An instruction with one of the excluded opcodes is never
  eliminated: in a run of the elimination that starts with the instruction neither dead
  nor queued, whatever is queued and however many queued values are reconsidered, it is
  not in \<open>deadValues\<close> afterwards.  Return instructions are candidates, and
  \<open>tryKillValue\<close> eliminates a return instruction without side effects when the call
  of its function root is unused.
\<close>

theorem direct_elimination_eligibility:
  "(shouldDIE ir s V \<longleftrightarrow>
      (\<exists>A. V = Argument A)
      \<or> (\<exists>I. V = Instruction I \<and> getOpcode ir I = Call \<and> getInlineAttempt s I \<noteq> None)
      \<or> (\<exists>I. V = Instruction I \<and> getOpcode ir I \<noteq> Call \<and> getOpcode ir I \<notin> spec_neverEliminated))
   \<and> (\<not> shouldDIE ir s V \<longrightarrow> queueDIE ir this V s = s)
   \<and> pending (queueDIE ir this V s) =
       pending s @ (if shouldDIE ir s V \<and> \<not> localValueIsDead ir this s V then [QueueDIE this V] else [])
   \<and> (\<forall>I. getOpcode ir I \<in> spec_neverEliminated \<and> Instruction I \<notin> deadValues s
            \<and> QueueDIE this (Instruction I) \<notin> set (pending s)
          \<longrightarrow> Instruction I \<notin> deadValues (runDIE ir h this steps s))
   \<and> (\<forall>I. getOpcode ir I = Ret \<longrightarrow> shouldDIE ir s (Instruction I))
   \<and> (\<forall>I r root. getOpcode ir I = Ret \<and> \<not> mayHaveSideEffects ir I
            \<and> getFunctionRoot ir this = Some r \<and> ctxAt h this s r = Some root
            \<and> isOwnCallUnused ir root
          \<longrightarrow> Instruction I \<in> deadValues (tryKillValue ir h this (Instruction I) s))"
proof -
  have a: "shouldDIE ir s V \<longleftrightarrow>
      (\<exists>A. V = Argument A)
      \<or> (\<exists>I. V = Instruction I \<and> getOpcode ir I = Call \<and> getInlineAttempt s I \<noteq> None)
      \<or> (\<exists>I. V = Instruction I \<and> getOpcode ir I \<noteq> Call \<and> getOpcode ir I \<notin> spec_neverEliminated)"
  proof (cases V)
    case (Instruction I)
    then show ?thesis by (simp add: shouldDIE_instruction)
  qed (simp_all add: shouldDIE_def)
  have b: "\<not> shouldDIE ir s V \<longrightarrow> queueDIE ir this V s = s"
    by (simp add: queueDIE_def)
  have c: "\<forall>I. getOpcode ir I = Ret \<longrightarrow> shouldDIE ir s (Instruction I)"
    by (simp add: shouldDIE_instruction spec_neverEliminated_def)
  have d: "\<forall>I. getOpcode ir I \<in> spec_neverEliminated \<and> Instruction I \<notin> deadValues s
            \<and> QueueDIE this (Instruction I) \<notin> set (pending s)
          \<longrightarrow> Instruction I \<notin> deadValues (runDIE ir h this steps s)"
    using runDIE_never [of ir _ s this h steps] by blast
  have e: "\<forall>I r root. getOpcode ir I = Ret \<and> \<not> mayHaveSideEffects ir I
            \<and> getFunctionRoot ir this = Some r \<and> ctxAt h this s r = Some root
            \<and> isOwnCallUnused ir root
          \<longrightarrow> Instruction I \<in> deadValues (tryKillValue ir h this (Instruction I) s)"
    using tryKillValue_Ret [of ir _ this _ h s] by blast
  show ?thesis
    using a b c d e queueDIE_pending [of ir this V s] by blast
qed

theorem direct_elimination_eligibility_witness:
  "\<not> shouldDIE retIR retCtx (Instruction 8)
   \<and> queueDIE retIR 5 (Instruction 8) retCtx = retCtx
   \<and> shouldDIE retIR retCtx (Instruction 9)
   \<and> Instruction 8 \<notin> deadValues
        (runDIE retIR Map.empty 5
           [StepQueueDIE (Instruction 8), StepQueueDIE (Instruction 9), StepTryKillNext, StepTryKillNext]
           retCtx)
   \<and> Instruction 9 \<in> deadValues (tryKillValue retIR Map.empty 5 (Instruction 9) retCtx)"
proof -
  have o8: "getOpcode retIR 8 = Store" and o9: "getOpcode retIR 9 = Ret"
    by (simp_all add: retIR_def baseIR_def)
  have s9: "\<not> mayHaveSideEffects retIR 9"
    by (simp add: retIR_def baseIR_def)
  have fr: "getFunctionRoot retIR 5 = Some 5"
    by (simp add: retIR_def baseIR_def)
  have cx: "ctxAt Map.empty 5 retCtx 5 = Some retCtx"
    by (simp add: ctxAt_def)
  have un: "isOwnCallUnused retIR retCtx"
    by (simp add: isOwnCallUnused_def retCtx_def baseCtx_def retIR_def baseIR_def)
  have st: "Instruction 8 \<notin> deadValues retCtx" "QueueDIE 5 (Instruction 8) \<notin> set (pending retCtx)"
    by (simp_all add: retCtx_def baseCtx_def)
  note T = direct_elimination_eligibility [of retIR retCtx "Instruction 8" 5 Map.empty
             "[StepQueueDIE (Instruction 8), StepQueueDIE (Instruction 9), StepTryKillNext, StepTryKillNext]"]
  from T have a: "\<not> shouldDIE retIR retCtx (Instruction 8) \<and> queueDIE retIR 5 (Instruction 8) retCtx = retCtx"
    by (simp add: o8 spec_neverEliminated_def)
  from T have b: "shouldDIE retIR retCtx (Instruction 9)"
    using o9 by blast
  have c: "Instruction 8 \<notin> deadValues
        (runDIE retIR Map.empty 5
           [StepQueueDIE (Instruction 8), StepQueueDIE (Instruction 9), StepTryKillNext, StepTryKillNext]
           retCtx)"
  proof -
    have m: "getOpcode retIR 8 \<in> spec_neverEliminated"
      by (simp add: o8 spec_neverEliminated_def)
    from T m st show ?thesis by blast
  qed
  from T have d: "Instruction 9 \<in> deadValues (tryKillValue retIR Map.empty 5 (Instruction 9) retCtx)"
    using o9 s9 fr cx un by blast
  from a b c d show ?thesis by blast
qed

lemma ret_run:
  "Instruction 9 \<in> deadValues
     (runDIE retIR Map.empty 5 [StepQueueDIE (Instruction 9), StepTryKillNext] retCtx)"
  by (simp add: shouldDIE_def queueDIE_def localValueIsDead_def getReplacement_def getDefaultVC_def
      blockIsDead_def make_vc_def queue_def tryKillValue_def valueIsDead_def isOwnCallUnused_def
      ctxAt_def retIR_def retCtx_def baseIR_def baseCtx_def)

text \<open>
  C10 as stated fails for \<open>return\<close>: the return instruction 9 is a candidate, it
  is queued for elimination, and \<open>tryKillValue\<close> marks it dead because the call of
  its function is unused, also when it is reached through the queue.
\<close>

theorem return_is_eliminated_counterexample:
  "getOpcode retIR 9 = Ret
   \<and> shouldDIE retIR retCtx (Instruction 9)
   \<and> pending (queueDIE retIR 5 (Instruction 9) retCtx) = [QueueDIE 5 (Instruction 9)]
   \<and> Instruction 9 \<in> deadValues (tryKillValue retIR Map.empty 5 (Instruction 9) retCtx)
   \<and> Instruction 9 \<in> deadValues
        (runDIE retIR Map.empty 5 [StepQueueDIE (Instruction 9), StepTryKillNext] retCtx)"
  using ret_run
  by (simp add: shouldDIE_def queueDIE_def localValueIsDead_def getReplacement_def getDefaultVC_def
      blockIsDead_def make_vc_def queue_def tryKillValue_def valueIsDead_def isOwnCallUnused_def
      ctxAt_def retIR_def retCtx_def baseIR_def baseCtx_def)

subsection \<open>The scan over the live predecessors of a PHI\<close>

lemma scanPHIPreds_dead_only:
  "list_all (\<lambda>PI. edgeIsDead s PI BB) PIs \<Longrightarrow> scanPHIPreds ir h this s PN BB PIs only = Some only"
  by (induction PIs arbitrary: only) auto




text \<open>A live edge that refuses ends the scan with \<open>VCNull\<close>, whatever is held.\<close>

lemma scanPHIPreds_refused:
  assumes "\<forall>PI \<in> set PIs. \<not> edgeIsDead s PI BB \<longrightarrow> readPHIPred ir h this s PN PI \<noteq> PredUndefined"
    and "\<exists>PI \<in> set PIs. \<not> edgeIsDead s PI BB \<and> readPHIPred ir h this s PN PI = PredRefused"
  shows "scanPHIPreds ir h this s PN BB PIs only = Some VCNull"
  using assms
proof (induction PIs arbitrary: only)
  case Nil
  then show ?case by simp
next
  case (Cons PI PIs)
  show ?case
  proof (cases "edgeIsDead s PI BB")
    case True
    with Cons.prems have "scanPHIPreds ir h this s PN BB PIs only = Some VCNull"
      by (intro Cons.IH) auto
    with True show ?thesis by simp
  next
    case False
    show ?thesis
    proof (cases "readPHIPred ir h this s PN PI")
      case (PredValue v)
      with Cons.prems have "\<And>x. scanPHIPreds ir h this s PN BB PIs x = Some VCNull"
        by (intro Cons.IH) auto
      with PredValue False show ?thesis by simp
    next
      case PredRefused
      with False show ?thesis by simp
    next
      case PredUndefined
      with False Cons.prems(1) show ?thesis by simp
    qed
  qed
qed


lemma getLoopHeaderPHIValue_not_header:
  "\<not> isHeaderPHI ir s PN \<Longrightarrow> getLoopHeaderPHIValue ir h this s PN r = Some (False, r)"
  by (cases "variant s") (simp_all add: isHeaderPHI_def getLoopHeaderPHIValue_def)

lemma getPHINodeValue_not_header:
  "\<not> isHeaderPHI ir s PN \<Longrightarrow>
   getPHINodeValue ir h this s PN =
     (case scanPHIPreds ir h this s PN (getParent ir PN) (predecessors ir (getParent ir PN)) VCNull of
        None \<Rightarrow> None
      | Some onlyValue \<Rightarrow>
          Some (if fst onlyValue \<noteq> None \<and> shouldForwardValue ir h this s onlyValue
                then onlyValue else VCNull))"
  by (simp add: getPHINodeValue_def getLoopHeaderPHIValue_not_header)


lemma tryEvaluate_PHI_null:
  assumes "getOpcode ir PN = PHI" and "getPHINodeValue ir h this s PN = Some VCNull"
  shows "tryEvaluate ir h this (Instruction PN) s = s"
  using assms
  by (cases "variant s")
     (simp_all add: tryEvaluate_def tryEvaluateResult_def tryEvaluateResultIA_def Let_def VCNull_def)



lemma getPHINodeValue_refused:
  assumes nh: "\<not> isHeaderPHI ir s PN"
    and wf: "\<forall>PI \<in> set (livePreds ir s PN). readPHIPred ir h this s PN PI \<noteq> PredUndefined"
    and pi: "PI \<in> set (livePreds ir s PN)"
    and rf: "readPHIPred ir h this s PN PI = PredRefused"
  shows "getPHINodeValue ir h this s PN = Some VCNull"
proof -
  let ?BB = "getParent ir PN"
  have a: "\<forall>P \<in> set (predecessors ir ?BB). \<not> edgeIsDead s P ?BB \<longrightarrow> readPHIPred ir h this s PN P \<noteq> PredUndefined"
    using wf by (simp add: livePreds_def)
  have e: "\<exists>P \<in> set (predecessors ir ?BB). \<not> edgeIsDead s P ?BB \<and> readPHIPred ir h this s PN P = PredRefused"
    using pi rf by (auto simp: livePreds_def)
  have "scanPHIPreds ir h this s PN ?BB (predecessors ir ?BB) VCNull = Some VCNull"
    using a e by (rule scanPHIPreds_refused)
  then show ?thesis
    using nh by (simp add: getPHINodeValue_not_header VCNull_def)
qed





subsection \<open>Header PHIs of a peel iteration\<close>

lemma getPHINodeValue_header:
  "getLoopHeaderPHIValue ir h this s PN VCNull = Some (True, v) \<Longrightarrow>
   getPHINodeValue ir h this s PN =
     Some (if fst v \<noteq> None \<and> shouldForwardValue ir h this s v then v else VCNull)"
  by (simp add: getPHINodeValue_def)

lemma ctxAt_deadEdges:
  "(case ctxAt h this (s\<lparr>deadEdges := E\<rparr>) c of None \<Rightarrow> a | Some x \<Rightarrow> g x) =
   (case ctxAt h this s c of None \<Rightarrow> a | Some x \<Rightarrow> g (if c = this then x\<lparr>deadEdges := E\<rparr> else x))"
  by (cases "h c") (simp_all add: ctxAt_def)

lemma getReplacement_deadEdges:
  "getReplacement c (if b then x\<lparr>deadEdges := E\<rparr> else x) V = getReplacement c x V"
  by (simp add: getReplacement_def)

lemma getPeelAttempt_deadEdges:
  "getPeelAttempt (if b then x\<lparr>deadEdges := E\<rparr> else x) L = getPeelAttempt x L"
  by (simp add: getPeelAttempt_def)

lemma isForwardableOpenCall_deadEdges:
  "isForwardableOpenCall (ir\<lparr>predecessors := preds'\<rparr>) (if b then x\<lparr>deadEdges := E\<rparr> else x) v
     = isForwardableOpenCall ir x v"
  by (cases v) (simp_all add: isForwardableOpenCall_def)

lemma parentPA_deadEdges: "parentPA h this (s\<lparr>deadEdges := E\<rparr>) L = parentPA h this s L"
  by (cases "parent s")
     (simp_all add: parentPA_def ctxAt_deadEdges getPeelAttempt_deadEdges cong: option.case_cong)

lemma getLoopHeaderPHIValue_frame:
  "getLoopHeaderPHIValue (ir\<lparr>predecessors := preds'\<rparr>) h this (s\<lparr>deadEdges := E\<rparr>) PN r =
   getLoopHeaderPHIValue ir h this s PN r"
  by (cases "variant s"; cases "parent s")
     (simp_all add: getLoopHeaderPHIValue_def parentPA_deadEdges ctxAt_deadEdges
        getReplacement_deadEdges Let_def cong: option.case_cong if_cong)

lemma shouldForwardValue_frame:
  "shouldForwardValue (ir\<lparr>predecessors := preds'\<rparr>) h this (s\<lparr>deadEdges := E\<rparr>) v =
   shouldForwardValue ir h this s v"
  by (simp add: shouldForwardValue_def ctxAt_deadEdges isForwardableOpenCall_deadEdges
      cong: option.case_cong if_cong)

text \<open>
  C3.  Let the evaluating context be iteration \<open>n\<close> of the peeled loop \<open>L\<close>, and
  \<open>PN\<close> a PHI in the header of \<open>L\<close>.  For \<open>n > 0\<close>, \<open>getLoopHeaderPHIValue\<close>
  yields the replacement, in iteration \<open>n - 1\<close> of the same peel attempt, of the value
  that flows into \<open>PN\<close> from the latch; for \<open>n = 0\<close> it yields the replacement, in
  the parent context, of the value that flows in from the preheader.
  \<open>getPHINodeValue\<close> forwards exactly that value (or nothing, if it is not
  forwardable), and its result does not depend on the predecessors of the header or on
  the dead edges: no predecessor is scanned.  The backward walker agrees: from the
  header it goes to the end of the latch in iteration \<open>n - 1\<close>, or of the preheader in
  the parent.
\<close>

theorem loop_iteration_identity:
  assumes "variant s = IsPeelIteration L n" and "getParent ir PN = getHeader ir L"
  shows "(0 < n \<and> parentPA h this s L = Some Iterations \<and> n - 1 < length Iterations
          \<and> ctxAt h this s (Iterations ! (n - 1)) = Some prev \<and> getLoopLatch ir L = Some latch
          \<longrightarrow> getLoopHeaderPHIValue ir h this s PN VCNull
                = Some (True, getReplacement (Iterations ! (n - 1)) prev (getIncomingValueForBlock ir PN latch))
              \<and> getPHINodeValue ir h this s PN
                = Some (let v = getReplacement (Iterations ! (n - 1)) prev (getIncomingValueForBlock ir PN latch)
                        in if fst v \<noteq> None \<and> shouldForwardValue ir h this s v then v else VCNull)
              \<and> (h this = Some s \<longrightarrow>
                   queuePredecessorsBW depth ir h this (getHeader ir L)
                     = Some [(blockEnd ir latch, latch, Iterations ! (n - 1))]))
       \<and> (n = 0 \<and> parent s = Some p \<and> ctxAt h this s p = Some ps \<and> getLoopPreheader ir L = Some pre
          \<longrightarrow> getLoopHeaderPHIValue ir h this s PN VCNull
                = Some (True, getReplacement p ps (getIncomingValueForBlock ir PN pre))
              \<and> getPHINodeValue ir h this s PN
                = Some (let v = getReplacement p ps (getIncomingValueForBlock ir PN pre)
                        in if fst v \<noteq> None \<and> shouldForwardValue ir h this s v then v else VCNull)
              \<and> (h this = Some s \<longrightarrow>
                   queuePredecessorsBW depth ir h this (getHeader ir L) = Some [(blockEnd ir pre, pre, p)]))
       \<and> getPHINodeValue (ir\<lparr>predecessors := preds'\<rparr>) h this (s\<lparr>deadEdges := E\<rparr>) PN
           = getPHINodeValue ir h this s PN"
proof (intro conjI impI)
  assume a: "0 < n \<and> parentPA h this s L = Some Iterations \<and> n - 1 < length Iterations
          \<and> ctxAt h this s (Iterations ! (n - 1)) = Some prev \<and> getLoopLatch ir L = Some latch"
  then show g: "getLoopHeaderPHIValue ir h this s PN VCNull
                = Some (True, getReplacement (Iterations ! (n - 1)) prev (getIncomingValueForBlock ir PN latch))"
    using assms by (simp add: getLoopHeaderPHIValue_def)
  from getPHINodeValue_header [OF g]
  show "getPHINodeValue ir h this s PN
                = Some (let v = getReplacement (Iterations ! (n - 1)) prev (getIncomingValueForBlock ir PN latch)
                        in if fst v \<noteq> None \<and> shouldForwardValue ir h this s v then v else VCNull)"
    by (simp add: Let_def)
  assume "h this = Some s"
  with a assms show "queuePredecessorsBW depth ir h this (getHeader ir L)
                     = Some [(blockEnd ir latch, latch, Iterations ! (n - 1))]"
    by (simp add: queuePredecessorsBW_def)
next
  assume a: "n = 0 \<and> parent s = Some p \<and> ctxAt h this s p = Some ps \<and> getLoopPreheader ir L = Some pre"
  then show g: "getLoopHeaderPHIValue ir h this s PN VCNull
                = Some (True, getReplacement p ps (getIncomingValueForBlock ir PN pre))"
    using assms by (simp add: getLoopHeaderPHIValue_def)
  from getPHINodeValue_header [OF g]
  show "getPHINodeValue ir h this s PN
                = Some (let v = getReplacement p ps (getIncomingValueForBlock ir PN pre)
                        in if fst v \<noteq> None \<and> shouldForwardValue ir h this s v then v else VCNull)"
    by (simp add: Let_def)
  assume "h this = Some s"
  with a assms show "queuePredecessorsBW depth ir h this (getHeader ir L) = Some [(blockEnd ir pre, pre, p)]"
    by (simp add: queuePredecessorsBW_def)
next
  have hd: "getLoopHeaderPHIValue ir h this s PN VCNull = None
            \<or> (\<exists>v. getLoopHeaderPHIValue ir h this s PN VCNull = Some (True, v))"
    using assms by (auto simp: getLoopHeaderPHIValue_def Let_def split: option.splits)
  then show "getPHINodeValue (ir\<lparr>predecessors := preds'\<rparr>) h this (s\<lparr>deadEdges := E\<rparr>) PN
           = getPHINodeValue ir h this s PN"
    by (auto simp: getPHINodeValue_def getLoopHeaderPHIValue_frame shouldForwardValue_frame)
qed

theorem loop_iteration_identity_witness:
  "getPHINodeValue loopIR loopHeap 6 loopIter1 20 = Some (const_vc (ConstantInt 32 1))
   \<and> queuePredecessorsBW 3 loopIR loopHeap 6 2 = Some [(2, 3, 5)]
   \<and> getPHINodeValue loopIR loopHeap 5 loopIter0 20 = Some (const_vc (ConstantInt 32 0))
   \<and> queuePredecessorsBW 3 loopIR loopHeap 5 2 = Some [(1, 0, 0)]"
proof -
  have hdr: "getHeader loopIR [7] = 2" and par: "getParent loopIR 20 = 2"
    and lat: "getLoopLatch loopIR [7] = Some 3" and pre: "getLoopPreheader loopIR [7] = Some 0"
    by (simp_all add: loopIR_def baseIR_def)
  have v1: "variant loopIter1 = IsPeelIteration [7] 1" and v0: "variant loopIter0 = IsPeelIteration [7] 0"
    by (simp_all add: loopIter1_def loopIter0_def baseCtx_def)
  have p1: "getParent loopIR 20 = getHeader loopIR [7]"
    by (simp add: hdr par)
  have pa: "parentPA loopHeap 6 loopIter1 [7] = Some [5, 6]"
    by (simp add: parentPA_def ctxAt_def loopHeap_def loopIter1_def loopRoot_def baseCtx_def getPeelAttempt_def)
  have c5: "ctxAt loopHeap 6 loopIter1 5 = Some loopIter0"
    by (simp add: ctxAt_def loopHeap_def)
  have c0: "ctxAt loopHeap 5 loopIter0 0 = Some loopRoot"
    by (simp add: ctxAt_def loopHeap_def)
  have h6: "loopHeap 6 = Some loopIter1" and h5: "loopHeap 5 = Some loopIter0"
    by (simp_all add: loopHeap_def)
  have r1: "getReplacement 5 loopIter0 (getIncomingValueForBlock loopIR 20 3) = const_vc (ConstantInt 32 1)"
    by (simp add: getReplacement_def loopIter0_def baseCtx_def loopIR_def baseIR_def)
  have r0: "getReplacement 0 loopRoot (getIncomingValueForBlock loopIR 20 0) = const_vc (ConstantInt 32 0)"
    by (simp add: getReplacement_def getDefaultVC_def loopRoot_def baseCtx_def loopIR_def baseIR_def)
  have fw: "\<And>s k. shouldForwardValue loopIR loopHeap 6 s (const_vc (ConstantInt 32 k))"
       "\<And>s k. shouldForwardValue loopIR loopHeap 5 s (const_vc (ConstantInt 32 k))"
    by (simp_all add: shouldForwardValue_def const_vc_def)
  have be: "blockEnd loopIR 3 = 2" "blockEnd loopIR 0 = 1"
    by (simp_all add: blockEnd_def loopIR_def baseIR_def)
  from loop_iteration_identity [OF v1 p1, of loopHeap 6 "[5, 6]" loopIter0 3 3 0 loopRoot 0]
  have a: "getPHINodeValue loopIR loopHeap 6 loopIter1 20 = Some (const_vc (ConstantInt 32 1))
           \<and> queuePredecessorsBW 3 loopIR loopHeap 6 2 = Some [(2, 3, 5)]"
    using pa c5 lat h6 r1 fw be by (simp add: hdr const_vc_def)
  from loop_iteration_identity [OF v0 p1, of loopHeap 5 "[5, 6]" loopIter0 3 3 0 loopRoot 0]
  have b: "getPHINodeValue loopIR loopHeap 5 loopIter0 20 = Some (const_vc (ConstantInt 32 0))
           \<and> queuePredecessorsBW 3 loopIR loopHeap 5 2 = Some [(1, 0, 0)]"
    using c0 pre h5 r0 fw be by (simp add: hdr const_vc_def loopIter0_def)
  from a b show ?thesis by blast
qed

subsection \<open>Values that flow out of a loop\<close>

lemma readPHIPred_child:
  assumes "comesFromChildLoop ir PN PI"
  shows "readPHIPred ir h this s PN PI =
     (case getPeelAttempt s (getValueScope ir (getIncomingValueForBlock ir PN PI)) of
        Some Iterations \<Rightarrow>
          if Iterations = [] then PredUndefined
          else
            (case ctxAt h this s (last Iterations) of
               None \<Rightarrow> PredUndefined
             | Some finalIter \<Rightarrow>
                 if iterStatus finalIter = IterationStatusFinal
                 then PredValue (getReplacement (last Iterations) finalIter (getIncomingValueForBlock ir PN PI))
                 else PredRefused)
      | None \<Rightarrow> PredRefused)"
  using assms by (simp add: readPHIPred_def comesFromChildLoop_def Let_def)

text \<open>
  C5.  Let \<open>PN\<close> be a PHI that is not a header PHI of the evaluating context, and
  let the value that flows into it along the live edge from \<open>PI\<close> be defined in a
  child loop (the test of line 404).  If that loop has no peel attempt, or the last
  iteration of its peel attempt is not final, then \<open>getPHINodeValue\<close> yields
  \<open>VCNull\<close> and evaluating the PHI leaves the context as it was, provided no live
  edge of the PHI has undefined behaviour (an empty or dangling peel attempt).  If the
  edge does carry a value, that value is the replacement in the last iteration of the
  loop's peel attempt, and that iteration is final.  Likewise \<open>walkOperand\<close> calls
  back for a value of a child loop only on a final last iteration, and
  \<open>visitExitPHI\<close> visits nothing from an iteration that is not final.
\<close>

theorem lcssa_exit_constraint:
  "(\<not> isHeaderPHI ir s PN
    \<and> (\<forall>P \<in> set (livePreds ir s PN). readPHIPred ir h this s PN P \<noteq> PredUndefined)
    \<and> PI \<in> set (livePreds ir s PN) \<and> comesFromChildLoop ir PN PI
    \<and> (getPeelAttempt s (getValueScope ir (getIncomingValueForBlock ir PN PI)) = None
        \<or> (\<exists>Its fin. getPeelAttempt s (getValueScope ir (getIncomingValueForBlock ir PN PI)) = Some Its
                     \<and> ctxAt h this s (last Its) = Some fin \<and> iterStatus fin \<noteq> IterationStatusFinal))
    \<longrightarrow> getPHINodeValue ir h this s PN = Some VCNull
        \<and> (getOpcode ir PN = PHI \<longrightarrow> tryEvaluate ir h this (Instruction PN) s = s))
   \<and> (comesFromChildLoop ir PN PI \<and> readPHIPred ir h this s PN PI = PredValue v
       \<longrightarrow> (\<exists>Its fin. getPeelAttempt s (getValueScope ir (getIncomingValueForBlock ir PN PI)) = Some Its
                     \<and> Its \<noteq> [] \<and> ctxAt h this s (last Its) = Some fin
                     \<and> iterStatus fin = IterationStatusFinal
                     \<and> v = getReplacement (last Its) fin (getIncomingValueForBlock ir PN PI)))
   \<and> (walkOperand ir h this s V = Some cbs \<and> getValueScope ir V \<noteq> getLoopContext s
       \<and> (getLoopContext s = [] \<or> contains (getLoopContext s) (getValueScope ir V))
       \<longrightarrow> cbs = []
           \<or> (\<exists>Its fin. getPeelAttempt s (getValueScope ir V) = Some Its
                        \<and> ctxAt h this s (last Its) = Some fin
                        \<and> iterStatus fin = IterationStatusFinal \<and> cbs = [(last Its, V)]))
   \<and> (iterStatus s \<noteq> IterationStatusFinal \<and> visitExitPHI ir s UserI = Some vs \<longrightarrow> vs = [])"
proof (intro conjI impI)
  assume a: "\<not> isHeaderPHI ir s PN
    \<and> (\<forall>P \<in> set (livePreds ir s PN). readPHIPred ir h this s PN P \<noteq> PredUndefined)
    \<and> PI \<in> set (livePreds ir s PN) \<and> comesFromChildLoop ir PN PI
    \<and> (getPeelAttempt s (getValueScope ir (getIncomingValueForBlock ir PN PI)) = None
        \<or> (\<exists>Its fin. getPeelAttempt s (getValueScope ir (getIncomingValueForBlock ir PN PI)) = Some Its
                     \<and> ctxAt h this s (last Its) = Some fin \<and> iterStatus fin \<noteq> IterationStatusFinal))"
  then have nu: "readPHIPred ir h this s PN PI \<noteq> PredUndefined" by blast
  have "readPHIPred ir h this s PN PI = PredRefused"
    using a nu readPHIPred_child [of ir PN PI h this s]
    by (auto split: option.splits if_splits)
  with a show g: "getPHINodeValue ir h this s PN = Some VCNull"
    by (intro getPHINodeValue_refused [where PI = PI]) auto
  assume "getOpcode ir PN = PHI"
  then show "tryEvaluate ir h this (Instruction PN) s = s"
    using g by (rule tryEvaluate_PHI_null)
next
  assume "comesFromChildLoop ir PN PI \<and> readPHIPred ir h this s PN PI = PredValue v"
  then show "\<exists>Its fin. getPeelAttempt s (getValueScope ir (getIncomingValueForBlock ir PN PI)) = Some Its
                     \<and> Its \<noteq> [] \<and> ctxAt h this s (last Its) = Some fin
                     \<and> iterStatus fin = IterationStatusFinal
                     \<and> v = getReplacement (last Its) fin (getIncomingValueForBlock ir PN PI)"
    using readPHIPred_child [of ir PN PI h this s]
    by (auto split: option.splits if_splits)
next
  assume "walkOperand ir h this s V = Some cbs \<and> getValueScope ir V \<noteq> getLoopContext s
       \<and> (getLoopContext s = [] \<or> contains (getLoopContext s) (getValueScope ir V))"
  then show "cbs = []
           \<or> (\<exists>Its fin. getPeelAttempt s (getValueScope ir V) = Some Its
                        \<and> ctxAt h this s (last Its) = Some fin
                        \<and> iterStatus fin = IterationStatusFinal \<and> cbs = [(last Its, V)])"
    by (auto simp: walkOperand_def Let_def split: option.splits if_splits)
next
  assume "iterStatus s \<noteq> IterationStatusFinal \<and> visitExitPHI ir s UserI = Some vs"
  then show "vs = []"
    by (auto simp: visitExitPHI_def split: Variant.splits)
qed

theorem lcssa_exit_constraint_witness:
  "getPHINodeValue loopIR loopHeap 0 loopRoot 30 = Some VCNull
   \<and> tryEvaluate loopIR loopHeap 0 (Instruction 30) loopRoot = loopRoot
   \<and> comesFromChildLoop loopIR 30 3
   \<and> livePreds loopIR loopRoot 30 = [3]"
proof -
  have nh: "\<not> isHeaderPHI loopIR loopRoot 30"
    by (simp add: isHeaderPHI_def loopRoot_def baseCtx_def)
  have lp: "livePreds loopIR loopRoot 30 = [3]"
    by (simp add: livePreds_def edgeIsDead_def loopIR_def baseIR_def loopRoot_def baseCtx_def)
  have cc: "comesFromChildLoop loopIR 30 3"
    by (simp add: comesFromChildLoop_def loopIR_def baseIR_def)
  have inc: "getValueScope loopIR (getIncomingValueForBlock loopIR 30 3) = [7]"
    by (simp add: loopIR_def baseIR_def)
  have pa: "getPeelAttempt loopRoot [7] = Some [5, 6]"
    by (simp add: getPeelAttempt_def loopRoot_def baseCtx_def)
  have c6: "ctxAt loopHeap 0 loopRoot 6 = Some loopIter1"
    by (simp add: ctxAt_def loopHeap_def)
  have st: "iterStatus loopIter1 \<noteq> IterationStatusFinal"
    by (simp add: loopIter1_def baseCtx_def)
  have rd: "readPHIPred loopIR loopHeap 0 loopRoot 30 3 = PredRefused"
    using readPHIPred_child [OF cc, of loopHeap 0 loopRoot] by (simp add: inc pa c6 st)
  have op: "getOpcode loopIR 30 = PHI"
    by (simp add: loopIR_def baseIR_def)
  from lcssa_exit_constraint [of loopIR loopRoot 30 loopHeap 0 3]
  have "getPHINodeValue loopIR loopHeap 0 loopRoot 30 = Some VCNull
        \<and> tryEvaluate loopIR loopHeap 0 (Instruction 30) loopRoot = loopRoot"
    using nh cc st by (simp add: lp rd inc pa c6 op)
  with cc lp show ?thesis by blast
qed

subsection \<open>Resolution of the return value\<close>

lemma spec_returnValue_simps:
  "spec_returnValue ir cs [] = None"
  "spec_returnValue ir cs [RI] = constantOf cs (hd (getOperands ir RI))"
  "spec_returnValue ir cs (R1 # R2 # rs) = None"
  by (simp_all add: spec_returnValue_def)

lemma spec_returnValue_many:
  "2 \<le> length rets \<Longrightarrow> spec_returnValue ir cs rets = None"
  by (cases rets; cases "tl rets") (simp_all add: spec_returnValue_def)

lemma scanBlockReturns_spec:
  assumes "\<forall>RI \<in> set BIs. getOpcode ir RI = Ret \<longrightarrow> getOperands ir RI \<noteq> []"
  shows "scanBlockReturns ir cs BIs (seen \<noteq> [], spec_returnValue ir cs seen)
           = Some (seen @ filter (\<lambda>BI. getOpcode ir BI = Ret) BIs \<noteq> [],
                   spec_returnValue ir cs (seen @ filter (\<lambda>BI. getOpcode ir BI = Ret) BIs))"
  using assms
proof (induction BIs arbitrary: seen)
  case Nil
  show ?case by simp
next
  case (Cons BI BIs)
  show ?case
  proof (cases "getOpcode ir BI = Ret")
    case False
    then show ?thesis using Cons by simp
  next
    case ret: True
    show ?thesis
    proof (cases seen)
      case (Cons a as)
      then have "2 \<le> length (seen @ filter (\<lambda>BI. getOpcode ir BI = Ret) (BI # BIs))"
        using ret by simp
      then have "spec_returnValue ir cs (seen @ filter (\<lambda>BI. getOpcode ir BI = Ret) (BI # BIs)) = None"
        by (rule spec_returnValue_many)
      then show ?thesis using ret Cons by simp
    next
      case Nil
      obtain ReturnValue rest where ops: "getOperands ir BI = ReturnValue # rest"
        using Cons.prems ret by (cases "getOperands ir BI") auto
      show ?thesis
      proof (cases "constantOf cs ReturnValue")
        case None
        have "spec_returnValue ir cs (BI # filter (\<lambda>BI. getOpcode ir BI = Ret) BIs) = None"
          using None ops
          by (cases "filter (\<lambda>BI. getOpcode ir BI = Ret) BIs") (simp_all add: spec_returnValue_def)
        then show ?thesis using ret Nil ops None by (simp add: spec_returnValue_def)
      next
        case (Some C)
        have st: "(True, Some C) = ([BI] \<noteq> [], spec_returnValue ir cs [BI])"
          using Some ops by (simp add: spec_returnValue_def)
        have "scanBlockReturns ir cs BIs (True, Some C)
                = Some ([BI] @ filter (\<lambda>BI. getOpcode ir BI = Ret) BIs \<noteq> [],
                        spec_returnValue ir cs ([BI] @ filter (\<lambda>BI. getOpcode ir BI = Ret) BIs))"
          unfolding st using Cons.prems by (intro Cons.IH) simp
        then show ?thesis using ret Nil ops Some by simp
      qed
    qed
  qed
qed

lemma scanFunctionReturns_spec:
  assumes "\<forall>RI \<in> set (filter (\<lambda>BI. getOpcode ir BI = Ret)
                (concat (map (getInstructions ir)
                   (filter (\<lambda>FI. \<not> blockIsDeadHCF ir Fn ignoreEdges FI) FIs)))).
             getOperands ir RI \<noteq> []"
  shows "scanFunctionReturns ir Fn ignoreEdges cs FIs (seen \<noteq> [], spec_returnValue ir cs seen)
           = Some (seen @ filter (\<lambda>BI. getOpcode ir BI = Ret)
                            (concat (map (getInstructions ir)
                               (filter (\<lambda>FI. \<not> blockIsDeadHCF ir Fn ignoreEdges FI) FIs))) \<noteq> [],
                   spec_returnValue ir cs
                     (seen @ filter (\<lambda>BI. getOpcode ir BI = Ret)
                               (concat (map (getInstructions ir)
                                  (filter (\<lambda>FI. \<not> blockIsDeadHCF ir Fn ignoreEdges FI) FIs)))))"
  using assms
proof (induction FIs arbitrary: seen)
  case Nil
  show ?case by simp
next
  case (Cons FI FIs)
  show ?case
  proof (cases "blockIsDeadHCF ir Fn ignoreEdges FI")
    case True
    then show ?thesis using Cons by simp
  next
    case False
    have b: "\<forall>RI \<in> set (getInstructions ir FI). getOpcode ir RI = Ret \<longrightarrow> getOperands ir RI \<noteq> []"
      using Cons.prems False by auto
    have r: "\<forall>RI \<in> set (filter (\<lambda>BI. getOpcode ir BI = Ret)
                (concat (map (getInstructions ir)
                   (filter (\<lambda>FI. \<not> blockIsDeadHCF ir Fn ignoreEdges FI) FIs)))).
             getOperands ir RI \<noteq> []"
      using Cons.prems False by auto
    show ?thesis
      using False scanBlockReturns_spec [OF b, of cs seen]
            Cons.IH [OF r, of "seen @ filter (\<lambda>BI. getOpcode ir BI = Ret) (getInstructions ir FI)"]
      by simp
  qed
qed

lemma localFoldConstants_spec:
  assumes "returnVal (runFolder IA0) = None"
    and "getReturnType ir (FCalled (runFolder IA0)) \<noteq> VoidTy"
    and "\<forall>RI \<in> set (liveReturns ir (FCalled (runFolder IA0)) (initialIgnoreEdges (runFolder IA0))).
           getOperands ir RI \<noteq> []"
  shows "localFoldConstants ir runFolder IA0 =
           Some ((runFolder IA0)\<lparr>returnVal :=
                   spec_returnValue ir (initialConsts (runFolder IA0))
                     (liveReturns ir (FCalled (runFolder IA0)) (initialIgnoreEdges (runFolder IA0)))\<rparr>)"
proof -
  let ?IA = "runFolder IA0"
  have st: "(False, returnVal ?IA) = (([]::InstId list) \<noteq> [], spec_returnValue ir (initialConsts ?IA) [])"
    using assms(1) by (simp add: spec_returnValue_def)
  have "scanFunctionReturns ir (FCalled ?IA) (initialIgnoreEdges ?IA) (initialConsts ?IA)
          (getBlocks ir (FCalled ?IA)) (False, returnVal ?IA)
        = Some (liveReturns ir (FCalled ?IA) (initialIgnoreEdges ?IA) \<noteq> [],
                spec_returnValue ir (initialConsts ?IA) (liveReturns ir (FCalled ?IA) (initialIgnoreEdges ?IA)))"
    unfolding st liveReturns_def
    using assms(3) scanFunctionReturns_spec [of ir "FCalled ?IA" "initialIgnoreEdges ?IA" "getBlocks ir (FCalled ?IA)" "initialConsts ?IA" "[]"]
    by (simp add: liveReturns_def)
  then show ?thesis
    using assms(1,2) by (simp add: localFoldConstants_def Let_def)
qed

lemma tryEvaluateResult_Call:
  assumes "getOpcode ir CI = Call" and "shouldTryEvaluate ir this s (Instruction CI)"
    and "getInlineAttempt s CI = Some child"
  shows "tryEvaluateResult ir h this (Instruction CI) s = (tryGetReturnValue ir child, s)"
  using assms
  by (cases "variant s") (simp_all add: tryEvaluateResult_def tryEvaluateResultIA_def)

text \<open>
  C6.  In LoopPeelHeuristics.cpp, \<open>localFoldConstants\<close> on an attempt whose return
  value is not yet known, for a callee that returns a value and whose live \<open>ret\<close>
  instructions all have an operand, always completes and changes only \<open>returnVal\<close>:
  with exactly one live \<open>ret\<close> it is the improvement of that instruction's operand
  (the operand itself if a constant, or its entry in \<open>initialConsts\<close>); with two or
  more live \<open>ret\<close>s, whatever their values, and with none, it is unknown.  A known
  return value is handed to the caller as the constant of the call instruction, and
  an unknown one records nothing.  In HypotheticalConstantFolder.cpp, evaluating a call
  that has a child inline context defers to the child's \<open>tryGetReturnValue\<close>: that
  answer is the result, the context is not changed by computing it, and a null answer
  records no improvement.
\<close>

theorem return_value_resolution:
  assumes "returnVal (runFolder IA0) = None"
    and "getReturnType ir (FCalled (runFolder IA0)) \<noteq> VoidTy"
    and "\<forall>RI \<in> set (liveReturns ir (FCalled (runFolder IA0)) (initialIgnoreEdges (runFolder IA0))).
           getOperands ir RI \<noteq> []"
  shows "(\<exists>IA'. localFoldConstants ir runFolder IA0 = Some IA'
           \<and> IA' = (runFolder IA0)\<lparr>returnVal := returnVal IA'\<rparr>
           \<and> returnVal IA' = spec_returnValue ir (initialConsts (runFolder IA0))
                               (liveReturns ir (FCalled (runFolder IA0)) (initialIgnoreEdges (runFolder IA0)))
           \<and> (\<forall>RI. liveReturns ir (FCalled (runFolder IA0)) (initialIgnoreEdges (runFolder IA0)) = [RI]
                 \<longrightarrow> returnVal IA' = constantOf (initialConsts (runFolder IA0)) (hd (getOperands ir RI)))
           \<and> (2 \<le> length (liveReturns ir (FCalled (runFolder IA0)) (initialIgnoreEdges (runFolder IA0)))
                 \<longrightarrow> returnVal IA' = None)
           \<and> (\<forall>C. returnVal IA' = Some C \<and> \<not> returnValueAlreadyKnown IA'
                 \<longrightarrow> snd (integrateReturnValue CI IA') = [(Instruction CI, C)])
           \<and> (returnVal IA' = None \<longrightarrow> snd (integrateReturnValue CI IA') = []))
    \<and> (getOpcode ir CI = Call \<and> shouldTryEvaluate ir this s (Instruction CI)
           \<and> getInlineAttempt s CI = Some child
         \<longrightarrow> tryEvaluateResult ir h this (Instruction CI) s = (tryGetReturnValue ir child, s)
           \<and> (fst (tryGetReturnValue ir child) = None \<longrightarrow> tryEvaluate ir h this (Instruction CI) s = s)
           \<and> (fst (tryGetReturnValue ir child) \<noteq> None
                \<and> shouldForwardValue ir h this s (tryGetReturnValue ir child)
              \<longrightarrow> getReplacement this (tryEvaluate ir h this (Instruction CI) s) (Instruction CI)
                    = tryGetReturnValue ir child))"
proof -
  let ?IA = "runFolder IA0"
  let ?rets = "liveReturns ir (FCalled ?IA) (initialIgnoreEdges ?IA)"
  let ?IA' = "?IA\<lparr>returnVal := spec_returnValue ir (initialConsts ?IA) ?rets\<rparr>"
  have l: "localFoldConstants ir runFolder IA0 = Some ?IA'"
    using assms by (rule localFoldConstants_spec)
  have one: "\<forall>RI. ?rets = [RI] \<longrightarrow> returnVal ?IA' = constantOf (initialConsts ?IA) (hd (getOperands ir RI))"
    by (simp add: spec_returnValue_def)
  have many: "2 \<le> length ?rets \<longrightarrow> returnVal ?IA' = None"
    by (simp add: spec_returnValue_many)
  have i1: "\<forall>C. returnVal ?IA' = Some C \<and> \<not> returnValueAlreadyKnown ?IA'
                 \<longrightarrow> snd (integrateReturnValue CI ?IA') = [(Instruction CI, C)]"
    by (simp add: integrateReturnValue_def)
  have i2: "returnVal ?IA' = None \<longrightarrow> snd (integrateReturnValue CI ?IA') = []"
    by (simp add: integrateReturnValue_def)
  have A: "\<exists>IA'. localFoldConstants ir runFolder IA0 = Some IA'
           \<and> IA' = (runFolder IA0)\<lparr>returnVal := returnVal IA'\<rparr>
           \<and> returnVal IA' = spec_returnValue ir (initialConsts (runFolder IA0))
                               (liveReturns ir (FCalled (runFolder IA0)) (initialIgnoreEdges (runFolder IA0)))
           \<and> (\<forall>RI. liveReturns ir (FCalled (runFolder IA0)) (initialIgnoreEdges (runFolder IA0)) = [RI]
                 \<longrightarrow> returnVal IA' = constantOf (initialConsts (runFolder IA0)) (hd (getOperands ir RI)))
           \<and> (2 \<le> length (liveReturns ir (FCalled (runFolder IA0)) (initialIgnoreEdges (runFolder IA0)))
                 \<longrightarrow> returnVal IA' = None)
           \<and> (\<forall>C. returnVal IA' = Some C \<and> \<not> returnValueAlreadyKnown IA'
                 \<longrightarrow> snd (integrateReturnValue CI IA') = [(Instruction CI, C)])
           \<and> (returnVal IA' = None \<longrightarrow> snd (integrateReturnValue CI IA') = [])"
    apply (rule exI [of _ ?IA'])
    apply (intro conjI)
          apply (rule l)
         apply simp
        apply simp
       apply (rule one)
      apply (rule many)
     apply (rule i1)
    apply (rule i2)
    done
  have B: "getOpcode ir CI = Call \<and> shouldTryEvaluate ir this s (Instruction CI)
           \<and> getInlineAttempt s CI = Some child
         \<longrightarrow> tryEvaluateResult ir h this (Instruction CI) s = (tryGetReturnValue ir child, s)
           \<and> (fst (tryGetReturnValue ir child) = None \<longrightarrow> tryEvaluate ir h this (Instruction CI) s = s)
           \<and> (fst (tryGetReturnValue ir child) \<noteq> None
                \<and> shouldForwardValue ir h this s (tryGetReturnValue ir child)
              \<longrightarrow> getReplacement this (tryEvaluate ir h this (Instruction CI) s) (Instruction CI)
                    = tryGetReturnValue ir child)"
  proof (intro impI)
    assume a: "getOpcode ir CI = Call \<and> shouldTryEvaluate ir this s (Instruction CI)
           \<and> getInlineAttempt s CI = Some child"
    then have r: "tryEvaluateResult ir h this (Instruction CI) s = (tryGetReturnValue ir child, s)"
      by (intro tryEvaluateResult_Call) auto
    show "tryEvaluateResult ir h this (Instruction CI) s = (tryGetReturnValue ir child, s)
           \<and> (fst (tryGetReturnValue ir child) = None \<longrightarrow> tryEvaluate ir h this (Instruction CI) s = s)
           \<and> (fst (tryGetReturnValue ir child) \<noteq> None
                \<and> shouldForwardValue ir h this s (tryGetReturnValue ir child)
              \<longrightarrow> getReplacement this (tryEvaluate ir h this (Instruction CI) s) (Instruction CI)
                    = tryGetReturnValue ir child)"
      using r by (simp add: tryEvaluate_def Let_def getReplacement_def setReplacement_def queue_def)
  qed
  from A B show ?thesis by (rule conjI)
qed

theorem return_value_resolution_witness:
  "localFoldConstants returnsIR (\<lambda>IA. IA) calleeAttempt
     = Some (calleeAttempt\<lparr>returnVal := Some (ConstantInt 32 5)\<rparr>)
   \<and> liveReturns returnsIR 0 {(0, 3)} = [20]
   \<and> localFoldConstants returnsIR (\<lambda>IA. IA\<lparr>initialIgnoreEdges := {}\<rparr>) calleeAttempt
     = Some (calleeAttempt\<lparr>initialIgnoreEdges := {}, returnVal := None\<rparr>)
   \<and> liveReturns returnsIR 0 {} = [20, 30]
   \<and> snd (integrateReturnValue 4 (calleeAttempt\<lparr>returnVal := Some (ConstantInt 32 5)\<rparr>))
       = [(Instruction 4, ConstantInt 32 5)]
   \<and> tryEvaluateResult returnsIR Map.empty 0 (Instruction 4) (baseCtx\<lparr>inlineChildren := [4 \<mapsto> 8]\<rparr>)
       = (const_vc (ConstantInt 32 5), baseCtx\<lparr>inlineChildren := [4 \<mapsto> 8]\<rparr>)"
proof -
  have lr1: "liveReturns returnsIR 0 {(0, 3)} = [20]"
    by (simp add: liveReturns_def blockIsDeadHCF_def returnsIR_def baseIR_def)
  have lr2: "liveReturns returnsIR 0 {} = [20, 30]"
    by (simp add: liveReturns_def blockIsDeadHCF_def returnsIR_def baseIR_def)
  have ty: "getReturnType returnsIR 0 \<noteq> VoidTy"
    by (simp add: returnsIR_def baseIR_def)
  have ops: "getOperands returnsIR 20 = [Argument 0]" "getOperands returnsIR 30 = [ConstantInt 32 7]"
    by (simp_all add: returnsIR_def baseIR_def)
  have f: "FCalled calleeAttempt = 0" "initialIgnoreEdges calleeAttempt = {(0, 3)}"
      "returnVal calleeAttempt = None" "\<not> returnValueAlreadyKnown calleeAttempt"
      "initialConsts calleeAttempt = [Argument 0 \<mapsto> ConstantInt 32 5]"
    by (simp_all add: calleeAttempt_def)
  have c: "constantOf [Argument 0 \<mapsto> ConstantInt 32 5] (Argument 0) = Some (ConstantInt 32 5)"
    by (simp add: constantOf_def)
  have call: "getOpcode returnsIR 4 = Call"
    by (simp add: returnsIR_def baseIR_def)
  have ste: "shouldTryEvaluate returnsIR 0 (baseCtx\<lparr>inlineChildren := [4 \<mapsto> 8]\<rparr>) (Instruction 4)"
    by (simp add: shouldTryEvaluate_def getReplacement_def blockIsDead_def baseCtx_def)
  have ch: "getInlineAttempt (baseCtx\<lparr>inlineChildren := [4 \<mapsto> 8]\<rparr>) 4 = Some 8"
    by (simp add: getInlineAttempt_def)
  have rv: "tryGetReturnValue returnsIR 8 = const_vc (ConstantInt 32 5)"
    by (simp add: returnsIR_def baseIR_def)
  have p1: "returnVal calleeAttempt = None"
    by (simp add: f)
  have p2: "getReturnType returnsIR (FCalled calleeAttempt) \<noteq> VoidTy"
    by (simp add: f ty)
  have p3: "\<forall>RI \<in> set (liveReturns returnsIR (FCalled calleeAttempt) (initialIgnoreEdges calleeAttempt)).
              getOperands returnsIR RI \<noteq> []"
    by (simp add: f lr1 ops)
  from return_value_resolution [where runFolder = "\<lambda>IA. IA" and ?IA0.0 = calleeAttempt and ir = returnsIR and CI = 4
                                  and this = 0 and s = baseCtx and child = 8 and h = Map.empty, OF p1 p2 p3]
  obtain IA' where l: "localFoldConstants returnsIR (\<lambda>IA. IA) calleeAttempt = Some IA'"
      and e: "IA' = calleeAttempt\<lparr>returnVal := returnVal IA'\<rparr>"
      and r0: "returnVal IA' = spec_returnValue returnsIR (initialConsts calleeAttempt)
                                 (liveReturns returnsIR (FCalled calleeAttempt) (initialIgnoreEdges calleeAttempt))"
    by blast
  have r: "returnVal IA' = Some (ConstantInt 32 5)"
    using r0 by (simp add: f lr1 ops c spec_returnValue_def)
  have "IA' = calleeAttempt\<lparr>returnVal := Some (ConstantInt 32 5)\<rparr>"
    using e r by simp
  then have a: "localFoldConstants returnsIR (\<lambda>IA. IA) calleeAttempt
             = Some (calleeAttempt\<lparr>returnVal := Some (ConstantInt 32 5)\<rparr>)"
    using l by simp
  have i: "snd (integrateReturnValue 4 (calleeAttempt\<lparr>returnVal := Some (ConstantInt 32 5)\<rparr>))
               = [(Instruction 4, ConstantInt 32 5)]"
    by (simp add: integrateReturnValue_def f)
  let ?B = "calleeAttempt\<lparr>initialIgnoreEdges := {}\<rparr>"
  have q1: "returnVal ?B = None"
    by (simp add: f)
  have q2: "getReturnType returnsIR (FCalled ?B) \<noteq> VoidTy"
    by (simp add: f ty)
  have q3: "\<forall>RI \<in> set (liveReturns returnsIR (FCalled ?B) (initialIgnoreEdges ?B)).
              getOperands returnsIR RI \<noteq> []"
    by (simp add: f lr2 ops)
  from return_value_resolution [where runFolder = "\<lambda>IA. IA\<lparr>initialIgnoreEdges := {}\<rparr>" and ?IA0.0 = calleeAttempt
                                  and ir = returnsIR and CI = 4
                                  and this = 0 and s = baseCtx and child = 8 and h = Map.empty, OF q1 q2 q3]
  obtain IB where lb: "localFoldConstants returnsIR (\<lambda>IA. IA\<lparr>initialIgnoreEdges := {}\<rparr>) calleeAttempt = Some IB"
      and eb: "IB = ?B\<lparr>returnVal := returnVal IB\<rparr>"
      and rb0: "returnVal IB = spec_returnValue returnsIR (initialConsts ?B)
                                 (liveReturns returnsIR (FCalled ?B) (initialIgnoreEdges ?B))"
    by blast
  have rb: "returnVal IB = None"
    using rb0 by (simp add: f lr2 spec_returnValue_def)
  have "IB = calleeAttempt\<lparr>initialIgnoreEdges := {}, returnVal := None\<rparr>"
    using eb rb by simp
  then have b: "localFoldConstants returnsIR (\<lambda>IA. IA\<lparr>initialIgnoreEdges := {}\<rparr>) calleeAttempt
             = Some (calleeAttempt\<lparr>initialIgnoreEdges := {}, returnVal := None\<rparr>)"
    using lb by simp
  have d: "tryEvaluateResult returnsIR Map.empty 0 (Instruction 4) (baseCtx\<lparr>inlineChildren := [4 \<mapsto> 8]\<rparr>)
       = (const_vc (ConstantInt 32 5), baseCtx\<lparr>inlineChildren := [4 \<mapsto> 8]\<rparr>)"
    using return_value_resolution [where runFolder = "\<lambda>IA. IA" and ?IA0.0 = calleeAttempt and ir = returnsIR and CI = 4
                                     and this = 0 and s = "baseCtx\<lparr>inlineChildren := [4 \<mapsto> 8]\<rparr>" and child = 8 and h = Map.empty,
                                   OF p1 p2 p3]
          call ste ch rv by simp
  from a b d i lr1 lr2 show ?thesis by blast
qed

subsection \<open>What the analysis does to the program\<close>



subsection \<open>Cycle-safety and termination of the walkers\<close>

text \<open>The bound \<open>depth\<close> on the recursion through the context tree only cuts a
  computation off: what a depth yields, every greater depth yields too.\<close>

lemma queueSuccessorsFWFalling_depth:
  "queueSuccessorsFWFalling depth h this BB SuccLoop = Some r \<Longrightarrow>
   queueSuccessorsFWFalling (Suc depth) h this BB SuccLoop = Some r"
proof (induction depth arbitrary: this)
  case 0
  then show ?case by simp
next
  case (Suc n)
  show ?case
  proof (cases "h this")
    case None
    with Suc.prems show ?thesis by simp
  next
    case (Some s)
    note hs = Some
    show ?thesis
    proof (cases "SuccLoop = getLoopContext s")
      case True
      with Suc.prems hs show ?thesis by simp
    next
      case False
      show ?thesis
      proof (cases "parent s")
        case None
        with Suc.prems hs False show ?thesis by simp
      next
        case (Some p)
        have "queueSuccessorsFWFalling n h p BB SuccLoop = Some r"
          using Suc.prems hs False Some by simp
        then have "queueSuccessorsFWFalling (Suc n) h p BB SuccLoop = Some r"
          by (rule Suc.IH)
        then show ?thesis
          using hs False Some by (subst queueSuccessorsFWFalling.simps) simp
      qed
    qed
  qed
qed

lemma concatOpt_map_depth:
  assumes "\<And>c r. c \<in> set cs \<Longrightarrow> f c = Some r \<Longrightarrow> g c = Some r"
    and "concatOpt (map f cs) = Some r"
  shows "concatOpt (map g cs) = Some r"
  using assms
proof (induction cs arbitrary: r)
  case Nil
  then show ?case by simp
next
  case (Cons c cs)
  from Cons.prems(2) obtain x ys where x: "f c = Some x" and ys: "concatOpt (map f cs) = Some ys"
    and r: "r = x @ ys"
    by (cases "f c"; cases "concatOpt (map f cs)") auto
  have "g c = Some x" using Cons.prems(1) x by simp
  moreover have "concatOpt (map g cs) = Some ys"
    using Cons.IH [of ys] Cons.prems(1) ys by simp
  ultimately show ?case using r by simp
qed

lemma queueLoopExitingBlocksBW_depth:
  "queueLoopExitingBlocksBW depth ir h this ExitedBB ExitingBB ExitingBBL = Some r \<Longrightarrow>
   queueLoopExitingBlocksBW (Suc depth) ir h this ExitedBB ExitingBB ExitingBBL = Some r"
proof (induction depth arbitrary: this r)
  case 0
  then show ?case by simp
next
  case (Suc n)
  show ?case
  proof (cases "h this")
    case None
    with Suc.prems show ?thesis by simp
  next
    case (Some s)
    show ?thesis
    proof (cases "getLoopContext s = ExitingBBL")
      case True
      with Suc.prems Some show ?thesis by (simp add: Let_def)
    next
      case False
      show ?thesis
      proof (cases "immediateChildLoop (getLoopContext s) ExitingBBL")
        case None
        with Suc.prems Some False show ?thesis by (simp add: Let_def)
      next
        case (Some ChildL)
        note cl = Some
        show ?thesis
        proof (cases "getPeelAttempt s ChildL")
          case None
          with Suc.prems \<open>h this = Some s\<close> False cl show ?thesis by (simp add: Let_def)
        next
          case (Some Iterations)
          have p: "concatOpt (map (\<lambda>c. queueLoopExitingBlocksBW n ir h c ExitedBB ExitingBB ExitingBBL)
                              Iterations) = Some r"
            using Suc.prems \<open>h this = Some s\<close> False cl Some by (simp add: Let_def)
          have "concatOpt (map (\<lambda>c. queueLoopExitingBlocksBW (Suc n) ir h c ExitedBB ExitingBB ExitingBBL)
                              Iterations) = Some r"
            using p by (rule concatOpt_map_depth [rotated]) (rule Suc.IH)
          then show ?thesis
            using \<open>h this = Some s\<close> False cl Some
            by (subst queueLoopExitingBlocksBW.simps) (simp add: Let_def)
        qed
      qed
    qed
  qed
qed
























end
